(* ===== verification/Cxx.thy ===== *)
theory Cxx
  imports Main "HOL-Library.Word"
begin

text \<open>
  The prelude of the development: the C++ machine the models run on.
  It fixes the integer types and byte buffers, the outcome type of code that may be stopped
  by the language itself (\<open>UB\<close> for a read or write outside an array, \<open>Terminate\<close>
  for a call of \<open>std::terminate\<close>), checked array access, the counted loop, and the
  word and list lemmas that the components share.
\<close>

unbundle bit_operations_syntax

section \<open>Types\<close>

type_synonym u8 = "8 word"
type_synonym u16 = "16 word"
type_synonym u32 = "32 word"
type_synonym u64 = "64 word"
type_synonym bytes = "u8 list"

text \<open>
  Collections: \<open>cxx_simps\<close> evaluates code in the outcome monad, \<open>wire_simps\<close> holds
  the facts on encoded integers, \<open>codec_defs\<close> the definitions of the serializers.
\<close>

named_theorems cxx_simps
named_theorems wire_simps
named_theorems codec_defs

section \<open>Outcomes\<close>

datatype abort = UB | Terminate

type_synonym 'a cxx = "abort + 'a"

fun andThen :: "'a cxx \<Rightarrow> ('a \<Rightarrow> 'b cxx) \<Rightarrow> 'b cxx" where
  "andThen (Inl e) f = Inl e"
| "andThen (Inr x) f = f x"

declare andThen.simps [cxx_simps]

lemma andThen_cong [fundef_cong]:
  "m = m' \<Longrightarrow> (\<And>x. m' = Inr x \<Longrightarrow> f x = f' x) \<Longrightarrow> andThen m f = andThen m' f'"
  by (cases m') auto

lemma andThen_eq_Inr: "andThen m f = Inr y \<longleftrightarrow> (\<exists>x. m = Inr x \<and> f x = Inr y)"
  by (cases m) auto

lemma andThen_eq_Inl: "andThen m f = Inl e \<longleftrightarrow> m = Inl e \<or> (\<exists>x. m = Inr x \<and> f x = Inl e)"
  by (cases m) auto

lemma andThen_assoc: "andThen (andThen m f) g = andThen m (\<lambda>x. andThen (f x) g)"
  by (cases m) auto

subsection \<open>Array access\<close>

definition load :: "'a list \<Rightarrow> nat \<Rightarrow> 'a cxx" where
  "load xs i = (if i < length xs then Inr (xs ! i) else Inl UB)"

definition store :: "'a list \<Rightarrow> nat \<Rightarrow> 'a \<Rightarrow> 'a list cxx" where
  "store xs i v = (if i < length xs then Inr (xs[i := v]) else Inl UB)"

lemma load_ok [cxx_simps]: "i < length xs \<Longrightarrow> load xs i = Inr (xs ! i)"
  by (simp add: load_def)

lemma store_ok [cxx_simps]: "i < length xs \<Longrightarrow> store xs i v = Inr (xs[i := v])"
  by (simp add: store_def)

lemma load_eq_Inr: "load xs i = Inr x \<longleftrightarrow> i < length xs \<and> x = xs ! i"
  by (auto simp: load_def)

text \<open>\<open>n\<close> bytes from \<open>offset\<close> on, as \<open>memcpy\<close>, \<open>memcmp\<close> and \<open>std::string::assign\<close> read them: all
  of them have to be there.\<close>

definition read_bytes :: "bytes \<Rightarrow> nat \<Rightarrow> nat \<Rightarrow> bytes cxx" where
  "read_bytes bs offset n = (if offset + n \<le> length bs then Inr (take n (drop offset bs)) else Inl UB)"

lemma read_bytes_ok [cxx_simps]: "offset + n \<le> length bs \<Longrightarrow> read_bytes bs offset n = Inr (take n (drop offset bs))"
  by (simp add: read_bytes_def)

subsection \<open>Early returns\<close>

text \<open>\<open>if (!read(...)) return std::nullopt;\<close>: the rest of the function runs on what was read.\<close>

definition or_nullopt :: "'a option cxx \<Rightarrow> ('a \<Rightarrow> 'b option cxx) \<Rightarrow> 'b option cxx" where
  "or_nullopt m f = andThen m (\<lambda>r. case r of None \<Rightarrow> Inr None | Some x \<Rightarrow> f x)"

lemma or_nullopt_simps [simp, cxx_simps]:
  "or_nullopt (Inl e) f = Inl e" "or_nullopt (Inr None) f = Inr None" "or_nullopt (Inr (Some x)) f = f x"
  by (simp_all add: or_nullopt_def)

text \<open>What such a function has returned, for statements about functions that always return.\<close>

definition parsed :: "'a option cxx \<Rightarrow> 'a option" where
  "parsed m = (case m of Inl _ \<Rightarrow> None | Inr r \<Rightarrow> r)"

lemma parsed_simps [simp]: "parsed (Inl e) = None" "parsed (Inr r) = r"
  by (simp_all add: parsed_def)

lemma parsed_eq_Some [simp]: "parsed m = Some x \<longleftrightarrow> m = Inr (Some x)"
  by (simp add: parsed_def split: sum.split)

subsection \<open>Arrays with indeterminate elements\<close>

text \<open>A local array starts out indeterminate. Its cells are \<open>None\<close> until they are written,
  and reading such a cell stops the program as an access outside the array does.\<close>

type_synonym 'a cells = "'a option list"

definition fresh :: "nat \<Rightarrow> 'a cells" where
  "fresh n = replicate n None"

definition load_cell :: "'a cells \<Rightarrow> nat \<Rightarrow> 'a cxx" where
  "load_cell xs i =
    andThen (load xs i) (\<lambda>c. case c of None \<Rightarrow> Inl UB | Some v \<Rightarrow> Inr v)"

definition store_cell :: "'a cells \<Rightarrow> nat \<Rightarrow> 'a \<Rightarrow> 'a cells cxx" where
  "store_cell xs i v = store xs i (Some v)"

text \<open>The value of a whole array, as a return by value copies it.\<close>

definition cells_value :: "'a cells \<Rightarrow> 'a list cxx" where
  "cells_value xs = (if None \<in> set xs then Inl UB else Inr (map the xs))"

lemma length_fresh [simp]: "length (fresh n) = n"
  by (simp add: fresh_def)

lemma load_cell_ok [cxx_simps]: "i < length xs \<Longrightarrow> xs ! i = Some v \<Longrightarrow> load_cell xs i = Inr v"
  by (simp add: load_cell_def load_ok)

lemma store_cell_ok [cxx_simps]: "i < length xs \<Longrightarrow> store_cell xs i v = Inr (xs[i := Some v])"
  by (simp add: store_cell_def store_ok)

lemma cells_value_map_Some [cxx_simps]: "cells_value (map Some xs) = Inr xs"
  by (simp add: cells_value_def comp_def image_iff)

subsection \<open>Counted loops\<close>

text \<open>A \<open>for\<close> loop whose body may stop the program: the list holds the loop counter's
  values in order, the body passes the loop's state on.\<close>

fun for_each :: "'i list \<Rightarrow> ('i \<Rightarrow> 's \<Rightarrow> 's cxx) \<Rightarrow> 's \<Rightarrow> 's cxx" where
  "for_each [] f s = Inr s"
| "for_each (i # is) f s = andThen (f i s) (for_each is f)"

text \<open>The loop rule: where the body never stops the program under an invariant, the loop is
  a plain fold.\<close>

lemma for_each_fold:
  assumes "P s"
    and "\<And>i s. i \<in> set is \<Longrightarrow> P s \<Longrightarrow> f i s = Inr (g i s) \<and> P (g i s)"
  shows "for_each is f s = Inr (fold g is s) \<and> P (fold g is s)"
  using assms by (induction "is" arbitrary: s) auto

lemma for_each_append: "for_each (is @ js) f s = andThen (for_each is f s) (for_each js f)"
proof (induction "is" arbitrary: s)
  case (Cons i "is")
  then show ?case by (cases "f i s") auto
qed simp

text \<open>A loop whose body takes the state \<open>g i\<close> to \<open>g (i + 1)\<close>.\<close>

lemma for_each_steps:
  assumes "\<And>i. lo \<le> i \<Longrightarrow> i < hi \<Longrightarrow> f i (g i) = Inr (g (Suc i))" "lo \<le> hi"
  shows "for_each [lo..<hi] f (g lo) = Inr (g hi)"
  using assms(2,1)
proof (induction hi rule: dec_induct)
  case (step n)
  then show ?case by (simp add: for_each_append)
qed simp

section \<open>First occurrence\<close>

text \<open>The first element of a list that is not skipped, split off by one step.\<close>

lemma first_split:
  "(\<exists>pre c post. x # xs = pre @ c # post \<and> list_all W pre \<and> Q c) \<longleftrightarrow>
    Q x \<or> W x \<and> (\<exists>pre c post. xs = pre @ c # post \<and> list_all W pre \<and> Q c)"
    (is "?lhs \<longleftrightarrow> ?rhs")
proof
  assume ?lhs
  then obtain pre c post where *: "x # xs = pre @ c # post" "list_all W pre" "Q c" by blast
  then show ?rhs by (cases pre) auto
next
  assume ?rhs
  then show ?lhs
  proof (elim disjE conjE exE)
    assume "Q x"
    then have "x # xs = [] @ x # xs \<and> list_all W [] \<and> Q x" by simp
    then show ?lhs by blast
  next
    fix pre c post
    assume "W x" "xs = pre @ c # post" "list_all W pre" "Q c"
    then have "x # xs = (x # pre) @ c # post \<and> list_all W (x # pre) \<and> Q c" by simp
    then show ?lhs by blast
  qed
qed

section \<open>Library functions\<close>

text \<open>\<open>strnlen(p, n)\<close> for a \<open>p\<close> at \<open>offset\<close> in \<open>bs\<close>: it reads up to the first null, or \<open>n\<close> bytes.\<close>

fun strnlen :: "bytes \<Rightarrow> nat \<Rightarrow> nat \<Rightarrow> nat cxx" where
  "strnlen bs offset 0 = Inr 0"
| "strnlen bs offset (Suc n) = andThen (load bs offset) (\<lambda>b.
     if b = 0 then Inr 0 else andThen (strnlen bs (Suc offset) n) (\<lambda>k. Inr (Suc k)))"

lemma strnlen_ok:
  "offset + n \<le> length bs \<Longrightarrow>
    strnlen bs offset n = Inr (length (takeWhile (\<lambda>b. b \<noteq> 0) (take n (drop offset bs))))"
proof (induction n arbitrary: offset)
  case (Suc n)
  then have "drop offset bs = bs ! offset # drop (Suc offset) bs" by (simp add: Cons_nth_drop_Suc)
  with Suc show ?case by (simp add: load_ok)
qed simp

text \<open>\<open>std::string::assign(p, strnlen(p, n))\<close>.\<close>

definition assign_strn :: "bytes \<Rightarrow> nat \<Rightarrow> nat \<Rightarrow> bytes cxx" where
  "assign_strn bs offset n = andThen (strnlen bs offset n) (read_bytes bs offset)"

lemma assign_strn_ok [cxx_simps]:
  assumes "offset + n \<le> length bs"
  shows "assign_strn bs offset n = Inr (takeWhile (\<lambda>b. b \<noteq> 0) (take n (drop offset bs)))"
proof -
  let ?t = "takeWhile (\<lambda>b. b \<noteq> 0) (take n (drop offset bs))"
  have le: "length ?t \<le> n" using length_takeWhile_le [of "\<lambda>b. b \<noteq> 0" "take n (drop offset bs)"] by simp
  then have "take (length ?t) (drop offset bs) = take (length ?t) (take n (drop offset bs))" by simp
  also have "\<dots> = ?t" by (rule takeWhile_eq_take [symmetric])
  finally show ?thesis using assms le by (simp add: assign_strn_def strnlen_ok read_bytes_ok)
qed

section \<open>Finite enumeration\<close>

text \<open>A fact about every bit of a word is a conjunction over a list of positions.\<close>

lemma all_less_list: "(\<forall>i<n. P i) \<longleftrightarrow> list_all P [0..<n]"
  by (auto simp: list_all_iff)

lemma upt_8: "[0..<8] = [0, 1, 2, 3, 4, 5, 6, 7 :: nat]"
  by code_simp

lemma upt_16: "[0..<16] = [0, 1, 2, 3, 4, 5, 6, 7, 8, 9, 10, 11, 12, 13, 14, 15 :: nat]"
  by code_simp

lemma upt_32: "[0..<32] = [0, 1, 2, 3, 4, 5, 6, 7, 8, 9, 10, 11, 12, 13, 14, 15, 16, 17, 18, 19,
    20, 21, 22, 23, 24, 25, 26, 27, 28, 29, 30, 31 :: nat]"
  by code_simp

lemma upt_64: "[0..<64] = [0, 1, 2, 3, 4, 5, 6, 7, 8, 9, 10, 11, 12, 13, 14, 15, 16, 17, 18, 19,
    20, 21, 22, 23, 24, 25, 26, 27, 28, 29, 30, 31, 32, 33, 34, 35, 36, 37, 38, 39, 40, 41, 42,
    43, 44, 45, 46, 47, 48, 49, 50, 51, 52, 53, 54, 55, 56, 57, 58, 59, 60, 61, 62, 63 :: nat]"
  by code_simp

end
