(* ===== verification/Common.thy ===== *)
theory Common
  imports Cxx
begin

text \<open>
  The constants of \<open>include/opendtp/Common.hpp\<close>. Its scoped enumerations have a fixed
  underlying integer type, and the code casts arbitrary received integers to them
  (\<open>static_cast<MessageType>(typeRaw)\<close>) and uses values that have no enumerator
  (\<open>DMR_DATA_BASE + 1\<close>), so a message type is a 16-bit word and the enumerators are named
  constants, computed from their class as the source computes them. \<open>ClientError\<close> is only
  ever one of its enumerators and is a datatype. Enumerators that two enumerations share
  carry a prefix of their enumeration.
\<close>

section \<open>Protocol constants\<close>

definition KEEP_ALIVE_INTERVAL_SEC :: u32 where "KEEP_ALIVE_INTERVAL_SEC = 5"
definition SIGN_LENGTH :: nat where "SIGN_LENGTH = 8"

text \<open>The characters of \<open>"REWIND01"\<close>.\<close>

definition PROTOCOL_SIGN :: bytes where
  "PROTOCOL_SIGN = [0x52, 0x45, 0x57, 0x49, 0x4E, 0x44, 0x30, 0x31]"

section \<open>Message classes and types\<close>

type_synonym MessageClass = u16
type_synonym MessageType = u16

definition REWIND_CONTROL :: MessageClass where "REWIND_CONTROL = 0x0000"
definition SYSTEM_CONSOLE :: MessageClass where "SYSTEM_CONSOLE = 0x0100"
definition SERVER_NOTICE :: MessageClass where "SERVER_NOTICE = 0x0200"
definition DEVICE_DATA :: MessageClass where "DEVICE_DATA = 0x0800"
definition MC_APPLICATION :: MessageClass where "MC_APPLICATION = 0x0900"
definition TERMINAL :: MessageClass where "TERMINAL = 0x0A00"
definition KAIROS_DATA :: MessageClass where "KAIROS_DATA = DEVICE_DATA + 0x00"
definition HYTERA_DATA :: MessageClass where "HYTERA_DATA = DEVICE_DATA + 0x10"

definition KEEP_ALIVE :: MessageType where "KEEP_ALIVE = REWIND_CONTROL + 0"
definition CLOSE :: MessageType where "CLOSE = REWIND_CONTROL + 1"
definition CHALLENGE :: MessageType where "CHALLENGE = REWIND_CONTROL + 2"
definition AUTHENTICATION :: MessageType where "AUTHENTICATION = REWIND_CONTROL + 3"
definition REDIRECTION :: MessageType where "REDIRECTION = REWIND_CONTROL + 8"

definition REPORT :: MessageType where "REPORT = SYSTEM_CONSOLE + 0"

definition BUSY_NOTICE :: MessageType where "BUSY_NOTICE = SERVER_NOTICE + 0"
definition ADDRESS_NOTICE :: MessageType where "ADDRESS_NOTICE = SERVER_NOTICE + 1"
definition BINDING_NOTICE :: MessageType where "BINDING_NOTICE = SERVER_NOTICE + 2"

definition CONFIGURATION :: MessageType where "CONFIGURATION = MC_APPLICATION + 0x00"
definition SUBSCRIPTION :: MessageType where "SUBSCRIPTION = MC_APPLICATION + 0x01"
definition CANCELLING :: MessageType where "CANCELLING = MC_APPLICATION + 0x02"
definition SESSION_POLL :: MessageType where "SESSION_POLL = MC_APPLICATION + 0x03"

definition DMR_DATA_BASE :: MessageType where "DMR_DATA_BASE = MC_APPLICATION + 0x10"
definition DMR_AUDIO_FRAME :: MessageType where "DMR_AUDIO_FRAME = MC_APPLICATION + 0x20"
definition DMR_EMBEDDED_DATA :: MessageType where "DMR_EMBEDDED_DATA = MC_APPLICATION + 0x27"
definition SUPER_HEADER :: MessageType where "SUPER_HEADER = MC_APPLICATION + 0x28"
definition FAILURE_CODE :: MessageType where "FAILURE_CODE = MC_APPLICATION + 0x29"

definition TERMINAL_IDLE :: MessageType where "TERMINAL_IDLE = TERMINAL + 0x00"
definition TERMINAL_ATTACH :: MessageType where "TERMINAL_ATTACH = TERMINAL + 0x02"
definition TERMINAL_DETACH :: MessageType where "TERMINAL_DETACH = TERMINAL + 0x03"
definition TERMINAL_WAKEUP :: MessageType where "TERMINAL_WAKEUP = TERMINAL + 0x04"
definition MESSAGE_TEXT :: MessageType where "MESSAGE_TEXT = TERMINAL + 0x10"
definition MESSAGE_STATUS :: MessageType where "MESSAGE_STATUS = TERMINAL + 0x11"
definition LOCATION_REPORT :: MessageType where "LOCATION_REPORT = TERMINAL + 0x20"
definition LOCATION_REQUEST :: MessageType where "LOCATION_REQUEST = TERMINAL + 0x21"

lemmas message_class_defs =
  REWIND_CONTROL_def SYSTEM_CONSOLE_def SERVER_NOTICE_def DEVICE_DATA_def MC_APPLICATION_def
  TERMINAL_def KAIROS_DATA_def HYTERA_DATA_def

text \<open>Every message type, as the number it is on the wire.\<close>

lemmas message_type_defs =
  KEEP_ALIVE_def CLOSE_def CHALLENGE_def AUTHENTICATION_def REDIRECTION_def REPORT_def
  BUSY_NOTICE_def ADDRESS_NOTICE_def BINDING_NOTICE_def
  CONFIGURATION_def SUBSCRIPTION_def CANCELLING_def SESSION_POLL_def
  DMR_DATA_BASE_def DMR_AUDIO_FRAME_def DMR_EMBEDDED_DATA_def SUPER_HEADER_def FAILURE_CODE_def
  TERMINAL_IDLE_def TERMINAL_ATTACH_def TERMINAL_DETACH_def TERMINAL_WAKEUP_def
  MESSAGE_TEXT_def MESSAGE_STATUS_def LOCATION_REPORT_def LOCATION_REQUEST_def
  message_class_defs

section \<open>Flags, services, options\<close>

definition NONE :: u16 where "NONE = 0"
definition REAL_TIME_1 :: u16 where "REAL_TIME_1 = push_bit 0 1"
definition REAL_TIME_2 :: u16 where "REAL_TIME_2 = push_bit 1 1"
definition BUFFERING :: u16 where "BUFFERING = push_bit 2 1"

lemmas flag_defs = NONE_def REAL_TIME_1_def REAL_TIME_2_def BUFFERING_def

type_synonym ServiceType = u8

definition REPEATER_AGENT :: u8 where "REPEATER_AGENT = 0x10"
definition SR_APPLICATION :: u8 where "SR_APPLICATION = 0x20"

definition CRONOS_AGENT :: ServiceType where "CRONOS_AGENT = REPEATER_AGENT + 0"
definition TELLUS_AGENT :: ServiceType where "TELLUS_AGENT = REPEATER_AGENT + 1"
definition SIMPLE_APPLICATION :: ServiceType where "SIMPLE_APPLICATION = SR_APPLICATION + 0"
definition OPEN_TERMINAL :: ServiceType where "OPEN_TERMINAL = SR_APPLICATION + 1"

definition CO_SUPER_HEADER :: u32 where "CO_SUPER_HEADER = push_bit 0 1"
definition LINEAR_FRAME :: u32 where "LINEAR_FRAME = push_bit 1 1"

definition SESSION_TYPE_PRIVATE_VOICE :: u32 where "SESSION_TYPE_PRIVATE_VOICE = 5"
definition SESSION_TYPE_GROUP_VOICE :: u32 where "SESSION_TYPE_GROUP_VOICE = 7"
definition SESSION_TYPE_FLAG_GROUP :: u32 where "SESSION_TYPE_FLAG_GROUP = push_bit 1 1"

definition TREE_SESSION_BY_SOURCE :: u32 where "TREE_SESSION_BY_SOURCE = 8"
definition TREE_SESSION_BY_TARGET :: u32 where "TREE_SESSION_BY_TARGET = 9"

section \<open>Error codes\<close>

datatype ClientError =
  SUCCESS | SOCKET_IO | WRONG_ADDRESS | WRONG_DATA | DNS_RESOLVE | WRONG_PASSWORD
| RESPONSE_TIMEOUT | ALREADY_CONNECTED | NOT_CONNECTED

fun client_error_code :: "ClientError \<Rightarrow> int" where
  "client_error_code SUCCESS = 0"
| "client_error_code SOCKET_IO = -1"
| "client_error_code WRONG_ADDRESS = -2"
| "client_error_code WRONG_DATA = -3"
| "client_error_code DNS_RESOLVE = -4"
| "client_error_code WRONG_PASSWORD = -5"
| "client_error_code RESPONSE_TIMEOUT = -6"
| "client_error_code ALREADY_CONNECTED = -7"
| "client_error_code NOT_CONNECTED = -8"

section \<open>Facts on the constants\<close>

lemma length_PROTOCOL_SIGN [simp]: "length PROTOCOL_SIGN = SIGN_LENGTH"
  by (simp add: PROTOCOL_SIGN_def SIGN_LENGTH_def)

text \<open>The message types are pairwise different, and no data frame type collides with them:
  the branches of a dispatch on the type exclude each other.\<close>

lemma message_types_distinct:
  "distinct [KEEP_ALIVE, CLOSE, CHALLENGE, AUTHENTICATION, REDIRECTION, REPORT,
     BUSY_NOTICE, ADDRESS_NOTICE, BINDING_NOTICE,
     CONFIGURATION, SUBSCRIPTION, CANCELLING, SESSION_POLL,
     DMR_DATA_BASE, DMR_DATA_BASE + 1, DMR_DATA_BASE + 2, DMR_AUDIO_FRAME, DMR_EMBEDDED_DATA,
     SUPER_HEADER, FAILURE_CODE, TERMINAL_IDLE, TERMINAL_ATTACH, TERMINAL_DETACH,
     TERMINAL_WAKEUP, MESSAGE_TEXT, MESSAGE_STATUS, LOCATION_REPORT, LOCATION_REQUEST]"
  by (simp add: message_type_defs)

lemma inj_client_error_code: "inj client_error_code"
proof (rule injI)
  fix a b :: ClientError
  show "client_error_code a = client_error_code b \<Longrightarrow> a = b"
    by (cases a; cases b) simp_all
qed

end
