(* ===== verification/Types.thy ===== *)
theory Types
  imports Cxx
begin

text \<open>
  The structures of \<open>include/opendtp/Types.hpp\<close>, which the client hands to its hooks. The
  public \<open>LocationReport\<close> has a namesake in \<open>opendtp::protocol\<close>; it is \<open>GpsReport\<close> here.
\<close>

record TextMessage =
  sourceId :: u32
  destinationId :: u32
  isGroup :: bool
  message_text :: bytes

record GpsReport =
  gps_format :: u32
  gps_nmea :: bytes

record AudioFrame =
  sequenceNumber :: u32
  ambeData :: bytes

end
