(* ===== verification/Endian.thy ===== *)
theory Endian
  imports Cxx
begin

text \<open>
  Byte order, from \<open>include/opendtp/Protocol.hpp\<close> (\<open>ByteSwap\<close>, \<open>HostToLittle\<close>,
  \<open>LittleToHost\<close>) and the buffer helpers of \<open>src/Protocol.cpp\<close> (\<open>WriteBytes\<close>,
  \<open>WriteLE\<close>, \<open>ReadLE\<close>, \<open>ReadBytes\<close>). The templates' type parameter is the word length;
  the host's byte order, \<open>std::endian::native\<close>, is an argument. The lemmas show that what
  is written does not depend on the host, that a read returns what was written, and that a
  read never leaves the buffer.
\<close>

section \<open>Hosts and object representations\<close>

datatype endian = Little | Big

text \<open>\<open>sizeof\<close> of a template argument, in bytes.\<close>

definition sizeof :: "'a::len itself \<Rightarrow> nat" where
  "sizeof _ = LENGTH('a) div 8"

text \<open>The bytes of a word, least significant first, and the word of such bytes.\<close>

definition lsb_bytes :: "'a::len word \<Rightarrow> bytes" where
  "lsb_bytes w = map (\<lambda>i. ucast (drop_bit (8 * i) w)) [0..<LENGTH('a) div 8]"

fun lsb_word :: "bytes \<Rightarrow> 'a::len word" where
  "lsb_word [] = 0"
| "lsb_word (b # bs) = ucast b OR push_bit 8 (lsb_word bs)"

text \<open>What \<open>memcpy\<close> sees of an integer in the memory of a host, and reads back.\<close>

definition object_bytes :: "endian \<Rightarrow> 'a::len word \<Rightarrow> bytes" where
  "object_bytes host w = (case host of Little \<Rightarrow> lsb_bytes w | Big \<Rightarrow> rev (lsb_bytes w))"

definition object_word :: "endian \<Rightarrow> bytes \<Rightarrow> 'a::len word" where
  "object_word host bs = (case host of Little \<Rightarrow> lsb_word bs | Big \<Rightarrow> lsb_word (rev bs))"

section \<open>Byte swapping\<close>

text \<open>
  The branches of \<open>if constexpr\<close>. The 16-bit branch shifts after the promotion to a 32-bit
  \<open>int\<close>; the cast to \<open>T\<close> drops the upper half.
\<close>

definition ByteSwap :: "'a::len word \<Rightarrow> 'a word" where
  "ByteSwap val =
    (if sizeof TYPE('a) = 1 then val
     else if sizeof TYPE('a) = 2 then
       (let u = (ucast (ucast val :: u16) :: u32)
        in ucast (drop_bit 8 u OR push_bit 8 u))
     else if sizeof TYPE('a) = 4 then
       (let u = (ucast val :: u32)
        in ucast ((drop_bit 24 u AND 0x000000FF) OR
                  (drop_bit 8 u AND 0x0000FF00) OR
                  (push_bit 8 u AND 0x00FF0000) OR
                  (push_bit 24 u AND 0xFF000000)))
     else if sizeof TYPE('a) = 8 then
       (let u = (ucast val :: u64);
            u = push_bit 32 (u AND 0x00000000FFFFFFFF) OR drop_bit 32 (u AND 0xFFFFFFFF00000000);
            u = push_bit 16 (u AND 0x0000FFFF0000FFFF) OR drop_bit 16 (u AND 0xFFFF0000FFFF0000);
            u = push_bit 8 (u AND 0x00FF00FF00FF00FF) OR drop_bit 8 (u AND 0xFF00FF00FF00FF00)
        in ucast u)
     else val)"

definition HostToLittle :: "endian \<Rightarrow> 'a::len word \<Rightarrow> 'a word" where
  "HostToLittle host value = (if host = Big then ByteSwap value else value)"

definition LittleToHost :: "endian \<Rightarrow> 'a::len word \<Rightarrow> 'a word" where
  "LittleToHost host value = HostToLittle host value"

section \<open>Buffers\<close>

definition WriteBytes :: "bytes \<Rightarrow> bytes \<Rightarrow> bytes" where
  "WriteBytes buf data = buf @ data"

definition WriteLE :: "endian \<Rightarrow> bytes \<Rightarrow> 'a::len word \<Rightarrow> bytes" where
  "WriteLE host buf val = WriteBytes buf (object_bytes host (HostToLittle host val))"

text \<open>
  The readers take the offset and return the value with the offset advanced, \<open>None\<close> for
  \<open>false\<close>; a \<open>memcpy\<close> beyond the buffer is undefined behaviour. Offsets are \<open>size_t\<close>; no buffer
  is longer than \<open>2 ^ 63\<close>, so the sums in the guards do not wrap.
\<close>

definition ReadLE :: "endian \<Rightarrow> bytes \<Rightarrow> nat \<Rightarrow> ('a::len word \<times> nat) option cxx" where
  "ReadLE host bytes offset =
    (if offset + sizeof TYPE('a) > length bytes then Inr None
     else andThen (read_bytes bytes offset (sizeof TYPE('a))) (\<lambda>raw.
       let rawVal = (object_word host raw :: 'a word)
       in Inr (Some (LittleToHost host rawVal, offset + sizeof TYPE('a)))))"

definition ReadBytes :: "bytes \<Rightarrow> nat \<Rightarrow> nat \<Rightarrow> (bytes \<times> nat) option cxx" where
  "ReadBytes bytes offset n =
    (if offset + n > length bytes then Inr None
     else andThen (read_bytes bytes offset n) (\<lambda>dest. Inr (Some (dest, offset + n))))"

section \<open>Bits of byte lists\<close>

lemma length_lsb_bytes [simp]: "length (lsb_bytes (w :: 'a::len word)) = LENGTH('a) div 8"
  by (simp add: lsb_bytes_def)

lemma length_object_bytes [simp]: "length (object_bytes host (w :: 'a::len word)) = sizeof TYPE('a)"
  by (simp add: object_bytes_def sizeof_def split: endian.split)

lemma sizeof_words [simp]:
  "sizeof TYPE(8) = 1" "sizeof TYPE(16) = 2" "sizeof TYPE(32) = 4" "sizeof TYPE(64) = 8"
  by (simp_all add: sizeof_def)

lemma bit_lsb_word:
  "bit (lsb_word bs :: 'a::len word) n \<longleftrightarrow>
    n < LENGTH('a) \<and> n < 8 * length bs \<and> bit (bs ! (n div 8)) (n mod 8)"
proof (induction bs arbitrary: n)
  case (Cons b bs)
  show ?case
  proof (cases "n < 8")
    case True
    then show ?thesis by (auto simp: bit_simps dest: bit_imp_le_length)
  next
    case False
    then have n: "n div 8 = Suc ((n - 8) div 8)" "n mod 8 = (n - 8) mod 8"
      by (simp_all add: le_div_geq le_mod_geq)
    from False have "\<not> bit b n" by (auto dest: bit_imp_le_length)
    with False show ?thesis
      by (auto simp: bit_simps Cons.IH n)
  qed
qed simp

lemma lsb_word_lsb_bytes:
  assumes "8 dvd LENGTH('a::len)"
  shows "lsb_word (lsb_bytes w) = (w :: 'a word)"
proof (rule bit_word_eqI)
  fix n assume n: "n < LENGTH('a)"
  from assms have len: "8 * (LENGTH('a) div 8) = LENGTH('a)" by simp
  with n have "n div 8 < LENGTH('a) div 8" by auto
  then show "bit (lsb_word (lsb_bytes w) :: 'a word) n \<longleftrightarrow> bit w n"
    using n len by (auto simp: bit_lsb_word lsb_bytes_def bit_simps)
qed

lemma lsb_bytes_lsb_word:
  assumes "length bs = LENGTH('a) div 8"
  shows "lsb_bytes (lsb_word bs :: 'a::len word) = bs"
proof (rule nth_equalityI)
  fix i assume "i < length (lsb_bytes (lsb_word bs :: 'a word))"
  then have i: "i < LENGTH('a) div 8" by simp
  then have len: "8 * i + 8 \<le> LENGTH('a)" by linarith
  show "lsb_bytes (lsb_word bs :: 'a word) ! i = bs ! i"
  proof (rule bit_word_eqI)
    fix n assume "n < LENGTH(8)"
    then show "bit (lsb_bytes (lsb_word bs :: 'a word) ! i) n \<longleftrightarrow> bit (bs ! i) n"
      using i len assms by (auto simp: lsb_bytes_def bit_simps bit_lsb_word)
  qed
qed (simp add: assms)

section \<open>Bits of a swapped word\<close>

text \<open>The position a bit comes from: its byte mirrored, its place in the byte kept.\<close>

definition swapped :: "nat \<Rightarrow> nat \<Rightarrow> nat" where
  "swapped bytes n = 8 * bytes - 8 - 8 * (n div 8) + n mod 8"

lemma bit_ByteSwap16:
  assumes "LENGTH('a::len) = 16" "n < 16"
  shows "bit (ByteSwap (w :: 'a word)) n \<longleftrightarrow> bit w (swapped 2 n)"
proof -
  have "\<forall>n<16. bit (ByteSwap w) n \<longleftrightarrow> bit w (swapped 2 n)"
    unfolding all_less_list
    by (simp add: upt_16 ByteSwap_def sizeof_def swapped_def assms bit_simps Let_def
        numeral_2_eq_2 [symmetric])
  with assms show ?thesis by blast
qed

lemma bit_ByteSwap32:
  assumes "LENGTH('a::len) = 32" "n < 32"
  shows "bit (ByteSwap (w :: 'a word)) n \<longleftrightarrow> bit w (swapped 4 n)"
proof -
  have "\<forall>n<32. bit (ByteSwap w) n \<longleftrightarrow> bit w (swapped 4 n)"
    unfolding all_less_list
    by (simp add: upt_32 ByteSwap_def sizeof_def swapped_def assms bit_simps Let_def
        numeral_2_eq_2 [symmetric])
  with assms show ?thesis by blast
qed

text \<open>The three rounds of the 64-bit branch exchange halves, quarters and bytes.\<close>

lemma bit_exchange:
  fixes u :: u64
  assumes "n < 64"
  shows "bit (push_bit 32 (u AND 0x00000000FFFFFFFF) OR drop_bit 32 (u AND 0xFFFFFFFF00000000)) n
      \<longleftrightarrow> bit u (if n < 32 then n + 32 else n - 32)" (is ?A)
    and "bit (push_bit 16 (u AND 0x0000FFFF0000FFFF) OR drop_bit 16 (u AND 0xFFFF0000FFFF0000)) n
      \<longleftrightarrow> bit u (if n mod 32 < 16 then n + 16 else n - 16)" (is ?B)
    and "bit (push_bit 8 (u AND 0x00FF00FF00FF00FF) OR drop_bit 8 (u AND 0xFF00FF00FF00FF00)) n
      \<longleftrightarrow> bit u (if n mod 16 < 8 then n + 8 else n - 8)" (is ?C)
proof -
  have "\<forall>n<64. bit (push_bit 32 (u AND 0x00000000FFFFFFFF) OR
      drop_bit 32 (u AND 0xFFFFFFFF00000000)) n \<longleftrightarrow> bit u (if n < 32 then n + 32 else n - 32)"
    unfolding all_less_list by (simp add: upt_64 bit_simps numeral_2_eq_2 [symmetric])
  with assms show ?A by blast
  have "\<forall>n<64. bit (push_bit 16 (u AND 0x0000FFFF0000FFFF) OR
      drop_bit 16 (u AND 0xFFFF0000FFFF0000)) n
      \<longleftrightarrow> bit u (if n mod 32 < 16 then n + 16 else n - 16)"
    unfolding all_less_list by (simp add: upt_64 bit_simps numeral_2_eq_2 [symmetric])
  with assms show ?B by blast
  have "\<forall>n<64. bit (push_bit 8 (u AND 0x00FF00FF00FF00FF) OR
      drop_bit 8 (u AND 0xFF00FF00FF00FF00)) n
      \<longleftrightarrow> bit u (if n mod 16 < 8 then n + 8 else n - 8)"
    unfolding all_less_list by (simp add: upt_64 bit_simps numeral_2_eq_2 [symmetric])
  with assms show ?C by blast
qed

lemma bit_ByteSwap64:
  assumes "LENGTH('a::len) = 64" "n < 64"
  shows "bit (ByteSwap (w :: 'a word)) n \<longleftrightarrow> bit w (swapped 8 n)"
proof -
  have "\<forall>n<64. bit (ByteSwap w) n \<longleftrightarrow> bit w (swapped 8 n)"
    unfolding all_less_list
    by (simp add: upt_64 ByteSwap_def sizeof_def swapped_def assms Let_def bit_exchange bit_unsigned_iff
        numeral_2_eq_2 [symmetric] del: push_bit_and drop_bit_and)
  with assms show ?thesis by blast
qed

lemma bit_ByteSwap:
  assumes "LENGTH('a::len) \<in> {8, 16, 32, 64}" "n < LENGTH('a)"
  shows "bit (ByteSwap (w :: 'a word)) n \<longleftrightarrow> bit w (swapped (LENGTH('a) div 8) n)"
proof -
  consider "LENGTH('a) = 8" | "LENGTH('a) = 16" | "LENGTH('a) = 32" | "LENGTH('a) = 64"
    using assms(1) by auto
  then show ?thesis
  proof cases
    case 1
    with assms(2) show ?thesis by (simp add: ByteSwap_def sizeof_def swapped_def)
  qed (use assms(2) in \<open>simp_all add: bit_ByteSwap16 bit_ByteSwap32 bit_ByteSwap64\<close>)
qed

text \<open>A swap reverses the bytes of the word.\<close>

lemma lsb_bytes_ByteSwap:
  assumes "LENGTH('a::len) \<in> {8, 16, 32, 64}"
  shows "lsb_bytes (ByteSwap (w :: 'a word)) = rev (lsb_bytes w)"
proof (rule nth_equalityI)
  fix i assume "i < length (lsb_bytes (ByteSwap w))"
  then have i: "i < LENGTH('a) div 8" by simp
  then have len: "8 * i + 8 \<le> LENGTH('a)" by linarith
  show "lsb_bytes (ByteSwap w) ! i = rev (lsb_bytes w) ! i"
  proof (rule bit_word_eqI)
    fix n assume n: "n < LENGTH(8)"
    then have "swapped (LENGTH('a) div 8) (8 * i + n) = 8 * (LENGTH('a) div 8 - Suc i) + n"
      by (simp add: swapped_def diff_mult_distrib2)
    with n len i show "bit (lsb_bytes (ByteSwap w) ! i) n \<longleftrightarrow> bit (rev (lsb_bytes w) ! i) n"
      by (simp add: lsb_bytes_def rev_nth bit_simps bit_ByteSwap [OF assms])
  qed
qed simp

section \<open>Writing and reading are little-endian on every host\<close>

lemma WriteLE_lsb [wire_simps]:
  assumes "LENGTH('a::len) \<in> {8, 16, 32, 64}"
  shows "WriteLE host buf (val :: 'a word) = buf @ lsb_bytes val"
  using lsb_bytes_ByteSwap [OF assms, of val]
  by (cases host) (simp_all add: WriteLE_def WriteBytes_def object_bytes_def HostToLittle_def)

lemma LittleToHost_object_word:
  assumes w: "LENGTH('a::len) \<in> {8, 16, 32, 64}" and len: "length bs = LENGTH('a) div 8"
  shows "LittleToHost host (object_word host bs :: 'a word) = lsb_word bs"
proof (cases host)
  case Big
  from w have dvd: "8 dvd LENGTH('a)" by auto
  have "lsb_bytes (ByteSwap (lsb_word (rev bs) :: 'a word)) = bs"
    using lsb_bytes_ByteSwap [OF w, of "lsb_word (rev bs)"]
      lsb_bytes_lsb_word [where ?'a = 'a, of "rev bs"] len by simp
  then have "ByteSwap (lsb_word (rev bs) :: 'a word) = lsb_word bs"
    using lsb_word_lsb_bytes [OF dvd, of "ByteSwap (lsb_word (rev bs))"] by simp
  with Big show ?thesis
    by (simp add: LittleToHost_def HostToLittle_def object_word_def)
qed (simp add: LittleToHost_def HostToLittle_def object_word_def)

lemma ReadLE_lsb [wire_simps]:
  assumes "LENGTH('a::len) \<in> {8, 16, 32, 64}"
  shows "ReadLE host bytes offset =
    (if offset + LENGTH('a) div 8 \<le> length bytes
     then Inr (Some (lsb_word (take (LENGTH('a) div 8) (drop offset bytes)) :: 'a word,
                offset + LENGTH('a) div 8))
     else Inr None)"
  by (auto simp: ReadLE_def sizeof_def Let_def read_bytes_def LittleToHost_object_word [OF assms])

lemma ReadBytes_take [wire_simps]:
  "ReadBytes bytes offset n =
    (if offset + n \<le> length bytes then Inr (Some (take n (drop offset bytes), offset + n)) else Inr None)"
  by (simp add: ReadBytes_def read_bytes_def)

lemma WriteBytes_append [wire_simps]: "WriteBytes buf data = buf @ data"
  by (simp add: WriteBytes_def)

lemma lsb_word_inverse [simp]:
  "lsb_word (lsb_bytes (v8 :: u8)) = v8" "lsb_word (lsb_bytes (v16 :: u16)) = v16"
  "lsb_word (lsb_bytes (v32 :: u32)) = v32" "lsb_word (lsb_bytes (v64 :: u64)) = v64"
  by (simp_all add: lsb_word_lsb_bytes)

text \<open>The field rule of a decoder: the value read is \<open>v\<close> iff the bytes there are \<open>v\<close>'s.\<close>

lemma lsb_word_eq_iff:
  "length bs = 1 \<Longrightarrow> lsb_word bs = (v8 :: u8) \<longleftrightarrow> bs = lsb_bytes v8"
  "length bs = 2 \<Longrightarrow> lsb_word bs = (v16 :: u16) \<longleftrightarrow> bs = lsb_bytes v16"
  "length bs = 4 \<Longrightarrow> lsb_word bs = (v32 :: u32) \<longleftrightarrow> bs = lsb_bytes v32"
  using lsb_bytes_lsb_word [where ?'a = 8, of bs] lsb_bytes_lsb_word [where ?'a = 16, of bs]
    lsb_bytes_lsb_word [where ?'a = 32, of bs] by auto

section \<open>Properties\<close>

text \<open>An integer of 1, 2, 4 or 8 bytes written on one host is read back on any other, and the
  read ends where the integer ends: the wire format does not depend on the byte order.\<close>

lemma Integer_roundtrip:
  assumes "LENGTH('a::len) \<in> {8, 16, 32, 64}"
  shows "ReadLE host' (WriteLE host buf (v :: 'a word) @ rest) (length buf) =
    Inr (Some (v, length buf + LENGTH('a) div 8))"
proof -
  have "8 dvd LENGTH('a)" using assms by auto
  then show ?thesis
    by (simp add: WriteLE_lsb [OF assms] ReadLE_lsb [OF assms] lsb_word_lsb_bytes)
qed

text \<open>\<open>ByteSwap\<close> reverses the bytes of an integer of any of the four sizes, in each of its
  branches.\<close>

lemma ByteSwap_reverses:
  assumes "LENGTH('a::len) \<in> {8, 16, 32, 64}"
  shows "lsb_bytes (ByteSwap (w :: 'a word)) = rev (lsb_bytes w)"
  using assms by (rule lsb_bytes_ByteSwap)

text \<open>The readers fail exactly when the value would reach past the end of the buffer, and
  otherwise advance the offset by its size, to at most the end; neither reads outside it.\<close>

lemma Readers_in_bounds:
  "(case (ReadLE host bs offset :: ('a::len word \<times> nat) option cxx) of
      Inl a \<Rightarrow> False
    | Inr None \<Rightarrow> length bs < offset + LENGTH('a) div 8
    | Inr (Some (v, offset')) \<Rightarrow> offset' = offset + LENGTH('a) div 8 \<and> offset' \<le> length bs) \<and>
   (case ReadBytes bs offset n of
      Inl a \<Rightarrow> False
    | Inr None \<Rightarrow> length bs < offset + n
    | Inr (Some (dest, offset')) \<Rightarrow> offset' = offset + n \<and> offset' \<le> length bs \<and>
        length dest = n \<and> dest = take n (drop offset bs))"
  by (simp add: ReadLE_def ReadBytes_def read_bytes_def sizeof_def Let_def)

end
