(* ===== verification/Unicode.thy ===== *)
theory Unicode
  imports Cxx
begin

text \<open>
  The UTF-8 and UTF-16 converters of \<open>src/Protocol.cpp\<close> (\<open>Utf8ToUtf16\<close>,
  \<open>Utf16ToUtf8\<close>), as the index loops they are, with checked reads, and their specification
  by code points in plain arithmetic. The lemmas show that the loops return on every input
  without reading outside it, compute the standard encodings, and lose no UTF-16 text.
\<close>

section \<open>The converters\<close>

text \<open>The first byte of a sequence: the bits it contributes and the sequence's length,
  \<open>None\<close> for the branch that skips the byte.\<close>

definition utf8_lead :: "u8 \<Rightarrow> (u32 \<times> nat) option" where
  "utf8_lead c =
    (if c < 0x80 then Some (ucast c, 1)
     else if c AND 0xE0 = 0xC0 then Some (ucast (c AND 0x1F), 2)
     else if c AND 0xF0 = 0xE0 then Some (ucast (c AND 0x0F), 3)
     else if c AND 0xF8 = 0xF0 then Some (ucast (c AND 0x07), 4)
     else None)"

definition utf8_continue :: "bytes \<Rightarrow> nat \<Rightarrow> nat \<Rightarrow> u32 \<Rightarrow> u32 cxx" where
  "utf8_continue utf8 i len =
    for_each [1..<len] (\<lambda>j cp.
      andThen (load utf8 (i + j)) (\<lambda>b. Inr (push_bit 6 cp OR ucast (b AND 0x3F))))"

definition utf16_push :: "u16 list \<Rightarrow> u32 \<Rightarrow> u16 list" where
  "utf16_push utf16 cp =
    (if cp < 0x10000 then utf16 @ [ucast cp]
     else if cp \<le> 0x10FFFF then
       (let cp = cp - 0x10000
        in (utf16 @ [ucast (drop_bit 10 cp + 0xD800)]) @ [ucast ((cp AND 0x3FF) + 0xDC00)])
     else utf16)"

lemma utf8_lead_pos: "utf8_lead c = Some (cp, len) \<Longrightarrow> 0 < len"
  by (auto simp: utf8_lead_def split: if_splits)

function Utf8ToUtf16_loop :: "bytes \<Rightarrow> nat \<Rightarrow> u16 list \<Rightarrow> u16 list cxx" where
  "Utf8ToUtf16_loop utf8 i utf16 =
    (if i < length utf8 then
       andThen (load utf8 i) (\<lambda>c.
         case utf8_lead c of
           None \<Rightarrow> Utf8ToUtf16_loop utf8 (i + 1) utf16
         | Some (cp, len) \<Rightarrow>
             if i + len > length utf8 then Inr utf16
             else andThen (utf8_continue utf8 i len cp) (\<lambda>cp.
               Utf8ToUtf16_loop utf8 (i + len) (utf16_push utf16 cp)))
     else Inr utf16)"
  by pat_completeness auto
termination
  by (relation "measure (\<lambda>(utf8, i, _). length utf8 - i)") (auto dest: utf8_lead_pos)

definition Utf8ToUtf16 :: "bytes \<Rightarrow> u16 list cxx" where
  "Utf8ToUtf16 utf8 = Utf8ToUtf16_loop utf8 0 []"

definition utf8_push :: "bytes \<Rightarrow> u32 \<Rightarrow> bytes" where
  "utf8_push utf8 cp =
    (if cp < 0x80 then utf8 @ [ucast cp]
     else if cp < 0x800 then
       utf8 @ [ucast (drop_bit 6 cp OR 0xC0), ucast ((cp AND 0x3F) OR 0x80)]
     else if cp < 0x10000 then
       utf8 @ [ucast (drop_bit 12 cp OR 0xE0), ucast ((drop_bit 6 cp AND 0x3F) OR 0x80),
               ucast ((cp AND 0x3F) OR 0x80)]
     else
       utf8 @ [ucast (drop_bit 18 cp OR 0xF0), ucast ((drop_bit 12 cp AND 0x3F) OR 0x80),
               ucast ((drop_bit 6 cp AND 0x3F) OR 0x80), ucast ((cp AND 0x3F) OR 0x80)])"

text \<open>The pairing of a high surrogate with the unit that follows it, if that is a low one:
  the code point and the next index.\<close>

definition utf16_pair :: "u16 list \<Rightarrow> u32 \<Rightarrow> nat \<Rightarrow> (u32 \<times> nat) cxx" where
  "utf16_pair utf16 cp i =
    (if 0xD800 \<le> cp \<and> cp \<le> 0xDBFF \<and> i < length utf16 then
       andThen (load utf16 i) (\<lambda>u.
         let trail = (ucast u :: u32)
         in if 0xDC00 \<le> trail \<and> trail \<le> 0xDFFF
            then Inr (push_bit 10 (cp - 0xD800) + (trail - 0xDC00) + 0x10000, i + 1)
            else Inr (cp, i))
     else Inr (cp, i))"

lemma utf16_pair_mono: "utf16_pair utf16 cp i = Inr (cp', i') \<Longrightarrow> i \<le> i'"
  by (auto simp: utf16_pair_def andThen_eq_Inr Let_def split: if_splits)

function Utf16ToUtf8_loop :: "u16 list \<Rightarrow> nat \<Rightarrow> bytes \<Rightarrow> bytes cxx" where
  "Utf16ToUtf8_loop utf16 i utf8 =
    (if i < length utf16 then
       andThen (load utf16 i) (\<lambda>u.
       andThen (utf16_pair utf16 (ucast u) (i + 1)) (\<lambda>(cp, i').
         Utf16ToUtf8_loop utf16 i' (utf8_push utf8 cp)))
     else Inr utf8)"
  by pat_completeness auto
termination
  by (relation "measure (\<lambda>(utf16, i, _). length utf16 - i)") (auto dest: utf16_pair_mono)

definition Utf16ToUtf8 :: "u16 list \<Rightarrow> bytes cxx" where
  "Utf16ToUtf8 utf16 = Utf16ToUtf8_loop utf16 0 []"

declare Utf8ToUtf16_loop.simps [simp del] Utf16ToUtf8_loop.simps [simp del]

section \<open>Specification by code points\<close>

text \<open>The encodings of a code point, by division.\<close>

definition utf8_of :: "nat \<Rightarrow> bytes" where
  "utf8_of cp =
    (if cp < 0x80 then [of_nat cp]
     else if cp < 0x800 then [of_nat (0xC0 + cp div 64), of_nat (0x80 + cp mod 64)]
     else if cp < 0x10000 then
       [of_nat (0xE0 + cp div 4096), of_nat (0x80 + cp div 64 mod 64), of_nat (0x80 + cp mod 64)]
     else
       [of_nat (0xF0 + cp div 262144), of_nat (0x80 + cp div 4096 mod 64),
        of_nat (0x80 + cp div 64 mod 64), of_nat (0x80 + cp mod 64)])"

definition utf16_of :: "nat \<Rightarrow> u16 list" where
  "utf16_of cp =
    (if cp < 0x10000 then [of_nat cp]
     else [of_nat (0xD800 + (cp - 0x10000) div 1024), of_nat (0xDC00 + (cp - 0x10000) mod 1024)])"

definition utf8_text :: "nat list \<Rightarrow> bytes" where
  "utf8_text cps = concat (map utf8_of cps)"

definition utf16_text :: "nat list \<Rightarrow> u16 list" where
  "utf16_text cps = concat (map utf16_of cps)"

text \<open>Code points, and the scalar values among them: those that are no surrogates.\<close>

definition code_point :: "nat \<Rightarrow> bool" where
  "code_point cp \<longleftrightarrow> cp < 0x110000"

definition scalar :: "nat \<Rightarrow> bool" where
  "scalar cp \<longleftrightarrow> cp < 0xD800 \<or> 0xE000 \<le> cp \<and> cp < 0x110000"

text \<open>The code points of a UTF-16 text; an unpaired surrogate stands for itself.\<close>

definition high :: "u16 \<Rightarrow> bool" where
  "high u \<longleftrightarrow> 0xD800 \<le> unat u \<and> unat u \<le> 0xDBFF"

definition low :: "u16 \<Rightarrow> bool" where
  "low u \<longleftrightarrow> 0xDC00 \<le> unat u \<and> unat u \<le> 0xDFFF"

fun utf16_points :: "u16 list \<Rightarrow> nat list" where
  "utf16_points [] = []"
| "utf16_points [u] = [unat u]"
| "utf16_points (u # v # us) =
    (if high u \<and> low v
     then ((unat u - 0xD800) * 1024 + (unat v - 0xDC00) + 0x10000) # utf16_points us
     else unat u # utf16_points (v # us))"

section \<open>Bytes as numbers\<close>

text \<open>Masks and prefixes of a byte, read as division and remainder.\<close>

lemma word8_eq_bits: "(a :: u8) = b \<longleftrightarrow> list_all (\<lambda>n. bit a n \<longleftrightarrow> bit b n) [0..<8]"
  unfolding all_less_list [symmetric] by (simp add: bit_eq_iff)

lemma mask_prefix:
  fixes c :: u8
  shows "c AND 0xE0 = 0xC0 \<longleftrightarrow> unat c div 32 = 6" (is ?A)
    and "c AND 0xF0 = 0xE0 \<longleftrightarrow> unat c div 16 = 14" (is ?B)
    and "c AND 0xF8 = 0xF0 \<longleftrightarrow> unat c div 8 = 30" (is ?C)
proof -
  have d: "unat c div 32 = unat (drop_bit 5 c)" "unat c div 16 = unat (drop_bit 4 c)"
    "unat c div 8 = unat (drop_bit 3 c)"
    by (simp_all add: drop_bit_eq_div unat_div)
  have e: "unat x = 6 \<longleftrightarrow> x = 6" "unat x = 14 \<longleftrightarrow> x = 14" "unat x = 30 \<longleftrightarrow> x = 30" for x :: u8
    by (auto simp: word_unat_eq_iff)
  have hi: "\<not> bit c 8" "\<not> bit c 9" "\<not> bit c 10" "\<not> bit c 11" "\<not> bit c 12"
    using bit_imp_le_length [of c] by force+
  show ?A ?B ?C
    unfolding d e word8_eq_bits upt_8
    by (simp_all add: bit_simps hi)
qed

lemma mask_low:
  fixes c :: u8
  shows "ucast (c AND 0x1F) = (of_nat (unat c mod 32) :: u32)"
    "ucast (c AND 0x0F) = (of_nat (unat c mod 16) :: u32)"
    "ucast (c AND 0x07) = (of_nat (unat c mod 8) :: u32)"
    "ucast (c AND 0x3F) = (of_nat (unat c mod 64) :: u32)"
proof -
  have m: "c AND 0x1F = take_bit 5 c" "c AND 0x0F = take_bit 4 c" "c AND 0x07 = take_bit 3 c"
    "c AND 0x3F = take_bit 6 c"
    by (simp_all add: take_bit_eq_mask mask_eq_exp_minus_1)
  have u: "ucast x = (of_nat (unat x) :: u32)" for x :: u8 
    by (simp add: word_unat_eq_iff)
  show "ucast (c AND 0x1F) = (of_nat (unat c mod 32) :: u32)"
    "ucast (c AND 0x0F) = (of_nat (unat c mod 16) :: u32)"
    "ucast (c AND 0x07) = (of_nat (unat c mod 8) :: u32)"
    "ucast (c AND 0x3F) = (of_nat (unat c mod 64) :: u32)"
    unfolding m u by (simp_all add: take_bit_eq_mod unat_mod)
qed

lemma utf8_lead_unat:
  "utf8_lead c =
    (if unat c < 128 then Some (of_nat (unat c), 1)
     else if unat c < 192 then None
     else if unat c < 224 then Some (of_nat (unat c - 192), 2)
     else if unat c < 240 then Some (of_nat (unat c - 224), 3)
     else if unat c < 248 then Some (of_nat (unat c - 240), 4)
     else None)"
proof -
  have c0: "c < 0x80 \<longleftrightarrow> unat c < 128" by (simp add: word_less_nat_alt)
  have "ucast c = (of_nat (unat c) :: u32)" by (simp add: word_unat_eq_iff)
  moreover have "n div 32 = 6 \<longleftrightarrow> 192 \<le> n \<and> n < 224"
    "n div 16 = 14 \<longleftrightarrow> 224 \<le> n \<and> n < 240"
    "n div 8 = 30 \<longleftrightarrow> 240 \<le> n \<and> n < 248" for n :: nat
    by auto
  moreover have "n div 32 = 6 \<Longrightarrow> n mod 32 = n - 192" "n div 16 = 14 \<Longrightarrow> n mod 16 = n - 224"
    "n div 8 = 30 \<Longrightarrow> n mod 8 = n - 240" for n :: nat
    by (simp_all add: minus_mult_div_eq_mod [symmetric])
  ultimately show ?thesis
    unfolding utf8_lead_def c0 mask_prefix mask_low by auto
qed

lemma or_low:
  assumes "r < 2 ^ n"
  shows "push_bit n a OR of_nat r = push_bit n a + (of_nat r :: 'a::len word)"
proof -
  have "take_bit n (of_nat r :: 'a word) = of_nat r"
    using assms by (simp add: take_bit_of_nat take_bit_nat_eq_self)
  then have "\<not> bit (of_nat r :: 'a word) k" if "n \<le> k" for k
    using that by (metis bit_take_bit_iff leD)
  then show ?thesis
    by (subst disjunctive_add) (auto simp: bit_simps not_le)
qed

lemma utf8_accumulate:
  "push_bit 6 (of_nat k) OR ucast (b AND 0x3F) = (of_nat (64 * k + unat (b :: u8) mod 64) :: u32)"
  unfolding mask_low using or_low [of "unat b mod 64" 6 "of_nat k :: u32"]
  by (simp add: push_bit_eq_mult ac_simps)

lemma load_middle: "k < length ys \<Longrightarrow> load (xs @ ys @ zs) (length xs + k) = Inr (ys ! k)"
  by (simp add: load_def nth_append)

lemma of_nat_compare:
  "k < 2 ^ 32 \<Longrightarrow> (of_nat k :: u32) < numeral n \<longleftrightarrow> k < take_bit 32 (numeral n)"
  "k < 2 ^ 32 \<Longrightarrow> (of_nat k :: u32) \<le> numeral n \<longleftrightarrow> k \<le> take_bit 32 (numeral n)"
  by (simp_all add: word_less_nat_alt word_le_nat_alt unsigned_of_nat take_bit_nat_eq_self)

lemma utf16_push_of_nat:
  assumes "code_point cp"
  shows "utf16_push acc (of_nat cp) = acc @ utf16_of cp"
proof (cases "cp < 0x10000")
  case True
  then show ?thesis
    by (simp add: utf16_push_def utf16_of_def of_nat_compare unsigned_of_nat take_bit_nat_eq_self)
next
  case False
  define v where "v = cp - 0x10000"
  with False have cp: "cp = v + 0x10000" by simp
  with assms have v: "v < 0x100000" by (simp add: code_point_def)
  have sub: "(of_nat cp :: u32) - 0x10000 = of_nat v" by (simp add: cp)
  have "drop_bit 10 (of_nat v :: u32) = of_nat (v div 1024)"
    using v by (simp add: word_unat_eq_iff drop_bit_eq_div unat_div unsigned_of_nat take_bit_nat_eq_self)
  moreover have "(of_nat v :: u32) AND 0x3FF = of_nat (v mod 1024)"
  proof -
    have "(of_nat v :: u32) AND 0x3FF = take_bit 10 (of_nat v)" 
      by (simp add: take_bit_eq_mask mask_eq_exp_minus_1)
    also have "\<dots> = of_nat (take_bit 10 v)" by (simp add: take_bit_of_nat)
    finally show ?thesis by (simp add: take_bit_eq_mod)
  qed
  moreover have "ucast (of_nat k + 0xD800 :: u32) = (of_nat (0xD800 + k) :: u16)" 
     "ucast (of_nat k + 0xDC00 :: u32) = (of_nat (0xDC00 + k) :: u16)" if "k < 1024" for k
  proof -
    have "(of_nat k + 0xD800 :: u32) = of_nat (0xD800 + k)" "(of_nat k + 0xDC00 :: u32) = of_nat (0xDC00 + k)"
      by simp_all
    then show "ucast (of_nat k + 0xD800 :: u32) = (of_nat (0xD800 + k) :: u16)" 
     "ucast (of_nat k + 0xDC00 :: u32) = (of_nat (0xDC00 + k) :: u16)"
       using that by (simp_all only: unsigned_of_nat) (simp_all add: take_bit_nat_eq_self)
  qed
  ultimately show ?thesis using False v assms sub
    by (simp add: utf16_push_def utf16_of_def of_nat_compare code_point_def Let_def flip: v_def)
qed

lemma unat_of_nat_byte: "k < 256 \<Longrightarrow> unat (of_nat k :: u8) = k"
  by (simp add: unsigned_of_nat take_bit_nat_eq_self)


section \<open>From UTF-8 to UTF-16\<close>

text \<open>What the continuation loop accumulates from any bytes.\<close>

lemma utf8_continue_bytes:
  "utf8_continue (xs @ c # bs @ ys) (length xs) (Suc (length bs)) (of_nat k) =
    Inr (of_nat (foldl (\<lambda>a b. 64 * a + unat b mod 64) k bs))"
proof (induction bs arbitrary: ys rule: rev_induct)
  case Nil
  then show ?case by (simp add: utf8_continue_def)
next
  case (snoc b bs)
  have "load (xs @ c # (bs @ [b]) @ ys) (length xs + Suc (length bs)) = Inr b"
    by (simp add: load_def nth_append)
  moreover have "utf8_continue (xs @ c # (bs @ [b]) @ ys) (length xs) (Suc (length bs)) (of_nat k) =
      Inr (of_nat (foldl (\<lambda>a b. 64 * a + unat b mod 64) k bs))"
    using snoc.IH [of "b # ys"] by simp
  ultimately show ?case
    by (simp add: utf8_continue_def for_each_append utf8_accumulate)
qed

lemma foldl_bytes_bound:
  "foldl (\<lambda>a b. 64 * a + unat (b :: u8) mod 64) k bs < Suc k * 64 ^ length bs"
proof (induction bs rule: rev_induct)
  case (snoc b bs)
  have "64 * a + unat b mod 64 < m * 64" if "a < m" for a m :: nat
    using that mod_less_divisor [of 64 "unat b"] by linarith
  from this [OF snoc.IH] show ?case by simp
qed simp

text \<open>Continuation bytes with the payloads \<open>rs\<close>.\<close>

definition utf8_tail :: "nat list \<Rightarrow> bytes" where
  "utf8_tail rs = map (\<lambda>r. of_nat (0x80 + r)) rs"

lemma utf8_continue_tail:
  assumes "list_all (\<lambda>r. r < 64) rs"
  shows "utf8_continue (xs @ c # utf8_tail rs @ ys) (length xs) (Suc (length rs)) (of_nat k) =
    Inr (of_nat (foldl (\<lambda>a r. 64 * a + r) k rs))"
proof -
  have "unat (of_nat (0x80 + r) :: u8) mod 64 = r" if "r < 64" for r
    using that mod_mult_self4 [of 64 2 r] by (simp add: unat_of_nat_byte del: of_nat_add)
  with assms have "foldl (\<lambda>a b. 64 * a + unat b mod 64) k (utf8_tail rs) =
      foldl (\<lambda>a r. 64 * a + r) k rs"
    by (induction rs arbitrary: k) (simp_all add: utf8_tail_def del: of_nat_add)
  with utf8_continue_bytes [of xs c "utf8_tail rs" ys k] show ?thesis
    by (simp add: utf8_tail_def)
qed

text \<open>The shape of an encoded code point: a lead byte and the payloads of its tail.\<close>

lemma utf8_of_shape:
  assumes "code_point cp"
  obtains c k rs where "utf8_of cp = c # utf8_tail rs"
    and "utf8_lead c = Some (of_nat k, Suc (length rs))"
    and "list_all (\<lambda>r. r < 64) rs" and "foldl (\<lambda>a r. 64 * a + r) k rs = cp"
proof -
  consider "cp < 0x80" | "0x80 \<le> cp" "cp < 0x800" | "0x800 \<le> cp" "cp < 0x10000"
    | "0x10000 \<le> cp" "cp < 0x110000"
    using assms by (auto simp: code_point_def not_less [symmetric])
  moreover have d: "cp div 64 div 64 = cp div 4096" "cp div 4096 div 64 = cp div 262144" by simp_all
  ultimately show ?thesis
  proof cases
    case 1
    then show ?thesis
      by (intro that [of "of_nat cp" "[]" cp]) (simp_all add: utf8_of_def utf8_tail_def utf8_lead_unat unat_of_nat_byte)
  next
    case 2
    then have "cp div 64 < 32" "2 \<le> cp div 64" by auto
    with 2 show ?thesis
      by (intro that [of "of_nat (0xC0 + cp div 64)" "[cp mod 64]" "cp div 64"])
        (simp_all add: utf8_of_def utf8_tail_def utf8_lead_unat unat_of_nat_byte del: of_nat_add)
  next
    case 3
    then have "cp div 4096 < 16" by auto
    moreover have "64 * (64 * (cp div 4096) + cp div 64 mod 64) + cp mod 64 = cp"
      using mult_div_mod_eq [of 64 cp] mult_div_mod_eq [of 64 "cp div 64", unfolded d] by (simp only:)
    ultimately show ?thesis using 3
      by (intro that [of "of_nat (0xE0 + cp div 4096)" "[cp div 64 mod 64, cp mod 64]" "cp div 4096"])
        (simp_all add: utf8_of_def utf8_tail_def utf8_lead_unat unat_of_nat_byte del: of_nat_add)
  next
    case 4
    then have "cp div 262144 < 5" by auto
    moreover have "64 * (64 * (64 * (cp div 262144) + cp div 4096 mod 64) + cp div 64 mod 64) + cp mod 64 = cp"
      using mult_div_mod_eq [of 64 cp] mult_div_mod_eq [of 64 "cp div 64", unfolded d]
        mult_div_mod_eq [of 64 "cp div 4096", unfolded d] by (simp only:)
    ultimately show ?thesis using 4
      by (intro that [of "of_nat (0xF0 + cp div 262144)" "[cp div 4096 mod 64, cp div 64 mod 64, cp mod 64]"
            "cp div 262144"])
        (simp_all add: utf8_of_def utf8_tail_def utf8_lead_unat unat_of_nat_byte del: of_nat_add)
  qed
qed

lemma Utf8ToUtf16_loop_point:
  assumes "code_point cp"
  shows "Utf8ToUtf16_loop (xs @ utf8_of cp @ ys) (length xs) acc =
    Utf8ToUtf16_loop (xs @ utf8_of cp @ ys) (length (xs @ utf8_of cp)) (acc @ utf16_of cp)"
proof -
  obtain c k rs where enc: "utf8_of cp = c # utf8_tail rs"
    and lead: "utf8_lead c = Some (of_nat k, Suc (length rs))"
    and rs: "list_all (\<lambda>r. r < 64) rs" and cp: "foldl (\<lambda>a r. 64 * a + r) k rs = cp"
    by (rule utf8_of_shape [OF assms])
  have "load (xs @ utf8_of cp @ ys) (length xs) = Inr c"
    by (simp add: load_def nth_append enc)
  moreover have "length (utf8_of cp) = Suc (length rs)"
    by (simp add: enc utf8_tail_def)
  moreover have "utf8_continue (xs @ utf8_of cp @ ys) (length xs) (Suc (length rs)) (of_nat k) =
      Inr (of_nat cp)"
    using utf8_continue_tail [OF rs] by (simp add: enc cp)
  ultimately show ?thesis
    using lead assms
    by (simp add: Utf8ToUtf16_loop.simps [of _ "length xs"] utf16_push_of_nat)
qed

lemma Utf8ToUtf16_loop_text:
  assumes "list_all code_point cps"
  shows "Utf8ToUtf16_loop (xs @ utf8_text cps) (length xs) acc = Inr (acc @ utf16_text cps)"
  using assms
proof (induction cps arbitrary: xs acc)
  case Nil
  then show ?case by (simp add: utf8_text_def utf16_text_def Utf8ToUtf16_loop.simps)
next
  case (Cons cp cps)
  then have "Utf8ToUtf16_loop (xs @ utf8_of cp @ utf8_text cps) (length xs) acc =
      Utf8ToUtf16_loop ((xs @ utf8_of cp) @ utf8_text cps) (length (xs @ utf8_of cp)) (acc @ utf16_of cp)"
    using Utf8ToUtf16_loop_point by simp
  also have "\<dots> = Inr ((acc @ utf16_of cp) @ utf16_text cps)"
    by (rule Cons.IH) (use Cons.prems in simp)
  finally show ?case by (simp add: utf8_text_def utf16_text_def)
qed

lemma Utf8ToUtf16_of_text:
  "list_all code_point cps \<Longrightarrow> Utf8ToUtf16 (utf8_text cps) = Inr (utf16_text cps)"
  using Utf8ToUtf16_loop_text [of cps "[]"] by (simp add: Utf8ToUtf16_def)

text \<open>Arbitrary bytes.\<close>

lemma utf16_push_length: 
  "\<exists>us. utf16_push acc cp = acc @ us \<and> length us \<le> (if cp < 0x10000 then 1 else 2)"
  by (auto simp: utf16_push_def Let_def)

lemma utf8_sequence_length:
  assumes lead: "utf8_lead (utf8 ! i) = Some (cp, len)" and len: "i + len \<le> length utf8"
  obtains cp' us where "utf8_continue utf8 i len cp = Inr cp'"
    and "utf16_push acc cp' = acc @ us" and "length us \<le> len"
proof -
  define n where "n = unat (utf8 ! i)"
  from lead obtain k where cp: "cp = of_nat k"
    and k: "len = 1 \<and> k < 128 \<or> len = 2 \<and> k < 32 \<or> len = 3 \<and> k < 16 \<or> len = 4"
    unfolding utf8_lead_unat n_def [symmetric]
    by (auto simp del: of_nat_diff split: if_splits)
  define bs where "bs = take (len - 1) (drop (Suc i) utf8)"
  from k len have i: "i < length utf8" and lbs: "Suc (length bs) = len" by (auto simp: bs_def)
  have split: "utf8 = take i utf8 @ utf8 ! i # bs @ drop (i + len) utf8"
  proof -
    have "drop (Suc i) utf8 = bs @ drop (len - 1) (drop (Suc i) utf8)"
      unfolding bs_def by (rule append_take_drop_id [symmetric])
    also have "drop (len - 1) (drop (Suc i) utf8) = drop (i + len) utf8"
      using lbs by (auto simp: add.commute)
    finally show ?thesis using id_take_nth_drop [OF i] by simp
  qed
  define v where "v = foldl (\<lambda>a b. 64 * a + unat b mod 64) k bs"
  have cont: "utf8_continue utf8 i len cp = Inr (of_nat v)"
    using utf8_continue_bytes [of "take i utf8" "utf8 ! i" bs "drop (i + len) utf8" k] i lbs
    by (simp add: cp v_def flip: split)
  have v: "v < Suc k * 64 ^ length bs" unfolding v_def by (rule foldl_bytes_bound)
  have "len < 4 \<Longrightarrow> v < 0x10000"
  proof -
    assume "len < 4"
    with k lbs have "length bs = 0 \<and> k < 128 \<or> length bs = 1 \<and> k < 32 \<or> length bs = 2 \<and> k < 16"
      by auto
    then have "Suc k * 64 ^ length bs \<le> 0x10000" by (elim disjE) simp_all
    with v show ?thesis by simp
  qed
  then have "len < 4 \<Longrightarrow> (of_nat v :: u32) < 0x10000" by (simp add: of_nat_compare)
  moreover obtain us where "utf16_push acc (of_nat v) = acc @ us"
     "length us \<le> (if (of_nat v :: u32) < 0x10000 then 1 else 2)"
    using utf16_push_length by blast
  moreover have "1 \<le> len" using lbs by simp
  ultimately show ?thesis using that cont k by (auto split: if_splits)
qed

lemma Utf8ToUtf16_loop_total:
  "\<exists>us. Utf8ToUtf16_loop utf8 i acc = Inr (acc @ us) \<and> length us \<le> length utf8 - i"
proof (induction utf8 i acc rule: Utf8ToUtf16_loop.induct)
  case (1 utf8 i acc)
  show ?case
  proof (cases "i < length utf8")
    case i: True
    then have load: "load utf8 i = Inr (utf8 ! i)" by (rule load_ok)
    show ?thesis
    proof (cases "utf8_lead (utf8 ! i)")
      case None
      with 1(1) [OF i load] i load show ?thesis
        by (auto simp: Utf8ToUtf16_loop.simps [of utf8 i])
    next
      case (Some p)
      obtain cp len where p: "p = (cp, len)" by (cases p)
      show ?thesis
      proof (cases "i + len \<le> length utf8")
        case True
        obtain cp' us where c: "utf8_continue utf8 i len cp = Inr cp'"
          and us: "utf16_push acc cp' = acc @ us" "length us \<le> len"
          using utf8_sequence_length Some p True by metis
        from 1(2) [OF i load Some p [symmetric], of cp'] True c
        obtain us' where "Utf8ToUtf16_loop utf8 (i + len) (utf16_push acc cp') = Inr (utf16_push acc cp' @ us')"
          "length us' \<le> length utf8 - (i + len)"
          by auto
        with us c i load Some p True show ?thesis
          by (auto simp: Utf8ToUtf16_loop.simps [of utf8 i])
      qed (use i load Some p in \<open>simp add: Utf8ToUtf16_loop.simps [of utf8 i]\<close>)
    qed
  qed (simp add: Utf8ToUtf16_loop.simps)
qed

section \<open>From UTF-16 to UTF-8\<close>

lemma utf8_push_of_nat: 
  assumes "code_point cp"
  shows "utf8_push acc (of_nat cp) = acc @ utf8_of cp"
proof -
  have cp: "cp < 2 ^ 32" using assms by (simp add: code_point_def)
  have d: "drop_bit k (of_nat cp :: u32) = of_nat (cp div 2 ^ k)" for k
    using cp by (simp only: word_unat_eq_iff unsigned_drop_bit_eq unsigned_of_nat)
      (simp add: take_bit_nat_eq_self drop_bit_eq_div le_less_trans [OF div_le_dividend])
  have a: "of_nat n AND (0x3F :: u32) = of_nat (n mod 64)" for n
  proof -
    have "of_nat n AND (0x3F :: u32) = take_bit 6 (of_nat n)"
      by (simp add: take_bit_eq_mask mask_eq_exp_minus_1)
    also have "\<dots> = of_nat (take_bit 6 n)" by (simp add: take_bit_of_nat)
    finally show ?thesis by (simp add: take_bit_eq_mod)
  qed
  have o: "r < 64 \<Longrightarrow> of_nat r OR (0x80 :: u32) = of_nat (0x80 + r)"
    "r < 32 \<Longrightarrow> of_nat r OR (0xC0 :: u32) = of_nat (0xC0 + r)"
    "r < 16 \<Longrightarrow> of_nat r OR (0xE0 :: u32) = of_nat (0xE0 + r)"
    "r < 8 \<Longrightarrow> of_nat r OR (0xF0 :: u32) = of_nat (0xF0 + r)" for r
    using or_low [of r 6 "2 :: u32"] or_low [of r 5 "6 :: u32"] or_low [of r 4 "14 :: u32"]
      or_low [of r 3 "30 :: u32"] by (simp_all add: or.commute)
  have u: "k < 256 \<Longrightarrow> ucast (of_nat k :: u32) = (of_nat k :: u8)" for k
    by (simp add: unsigned_of_nat take_bit_nat_eq_self)
  consider "cp < 0x80" | "0x80 \<le> cp" "cp < 0x800" | "0x800 \<le> cp" "cp < 0x10000"
    | "0x10000 \<le> cp" "cp < 0x110000"
    using assms by (auto simp: code_point_def not_less [symmetric])
  then show ?thesis
  proof cases
    case 1
    then show ?thesis by (simp add: utf8_push_def utf8_of_def of_nat_compare u)
  next
    case 2
    then show ?thesis
      by (simp add: utf8_push_def utf8_of_def of_nat_compare d a o u less_mult_imp_div_less del: of_nat_add)
  next
    case 3
    then show ?thesis
      by (simp add: utf8_push_def utf8_of_def of_nat_compare d a o u less_mult_imp_div_less del: of_nat_add)
  next
    case 4
    then show ?thesis
      by (simp add: utf8_push_def utf8_of_def of_nat_compare d a o u less_mult_imp_div_less del: of_nat_add)
  qed
qed

lemma unit_compare:
  "numeral n \<le> (ucast (u :: u16) :: u32) \<longleftrightarrow> unat (numeral n :: u32) \<le> unat u"
  "(ucast (u :: u16) :: u32) \<le> numeral n \<longleftrightarrow> unat u \<le> unat (numeral n :: u32)"
  by (simp_all add: word_le_nat_alt unsigned_ucast_eq take_bit_nat_eq_self
      order.strict_trans [OF unsigned_less])

lemma unat_u16: "unat (u :: u16) < 65536"
  by (rule order.strict_trans2 [OF unsigned_less]) simp

lemma unit_code_point: "code_point (unat (u :: u16))"
  using unat_u16 [of u] by (simp add: code_point_def)

definition surrogate_pair :: "u16 \<Rightarrow> u16 \<Rightarrow> nat" where
  "surrogate_pair u v = (unat u - 0xD800) * 1024 + (unat v - 0xDC00) + 0x10000"

lemma utf16_pair_cases:
  "utf16_pair (xs @ u # v # us) (ucast u) (Suc (length xs)) =
    Inr (if high u \<and> low v then (of_nat (surrogate_pair u v), length xs + 2)
         else (ucast u, length xs + 1))"
proof -
  have "load (xs @ u # v # us) (Suc (length xs)) = Inr v" by (simp add: load_def nth_append)
  moreover have "push_bit 10 (ucast u - 0xD800) + (ucast v - 0xDC00) + 0x10000 =
      (of_nat (surrogate_pair u v) :: u32)" if "high u" "low v"
  proof -
    have "(ucast u - 0xD800 :: u32) = of_nat (unat u - 0xD800)"
       "(ucast v - 0xDC00 :: u32) = of_nat (unat v - 0xDC00)"
      using that by (simp_all add: high_def low_def)
    then show ?thesis
      by (simp only: push_bit_eq_mult surrogate_pair_def) (simp del: of_nat_diff)
  qed
  ultimately show ?thesis
    unfolding utf16_pair_def unit_compare Let_def
    by (auto simp: high_def low_def)
qed

lemma utf8_push_unit: "utf8_push acc (ucast (u :: u16)) = acc @ utf8_of (unat u)"
  using utf8_push_of_nat [OF unit_code_point [of u], of acc] by simp

lemma Utf16ToUtf8_loop_points:
  "Utf16ToUtf8_loop (xs @ us) (length xs) acc = Inr (acc @ utf8_text (utf16_points us))"
proof (induction us arbitrary: xs acc rule: utf16_points.induct)
  case 1
  then show ?case by (simp add: Utf16ToUtf8_loop.simps utf8_text_def)
next
  case (2 u)
  have "load (xs @ [u]) (length xs) = Inr u" by (simp add: load_def)
  then show ?case
    by (simp add: Utf16ToUtf8_loop.simps [of _ "length xs"] Utf16ToUtf8_loop.simps [of _ "Suc (length xs)"]
        utf16_pair_def utf8_push_unit utf8_text_def)
next
  case (3 u v us)
  have load: "load (xs @ u # v # us) (length xs) = Inr u" by (simp add: load_def nth_append)
  show ?case
  proof (cases "high u \<and> low v")
    case True
    then have "code_point (surrogate_pair u v)"
      by (auto simp: code_point_def surrogate_pair_def high_def low_def)
    with True 3(1) [of "xs @ [u, v]" "acc @ utf8_of (surrogate_pair u v)"] load
    show ?thesis
      by (simp add: Utf16ToUtf8_loop.simps [of _ "length xs"] utf16_pair_cases utf8_push_of_nat
          utf8_text_def flip: surrogate_pair_def)
  next
    case False
    with 3(2) [of "xs @ [u]" "acc @ utf8_of (unat u)"] load
    show ?thesis
      by (auto simp: Utf16ToUtf8_loop.simps [of _ "length xs"] utf16_pair_cases
          utf8_push_unit utf8_text_def)
  qed
qed

lemma utf16_points_code: "list_all code_point (utf16_points us)"
proof (induction us rule: utf16_points.induct)
  case (3 u v us)
  then show ?case
    by (auto simp: unit_code_point) (auto simp: code_point_def high_def low_def)
qed (simp_all add: unit_code_point)

lemma utf16_of_pair:
  assumes "high u" "low v"
  shows "utf16_of (surrogate_pair u v) = [u, v]"
proof -
  have "unat u - 0xD800 < 1024" "unat v - 0xDC00 < 1024" using assms by (auto simp: high_def low_def)
  then have "(surrogate_pair u v - 0x10000) div 1024 = unat u - 0xD800"
    "(surrogate_pair u v - 0x10000) mod 1024 = unat v - 0xDC00"
    by (simp_all add: surrogate_pair_def)
  then show ?thesis
    using assms by (simp add: utf16_of_def high_def low_def) (simp add: surrogate_pair_def)
qed

lemma utf16_text_points: "utf16_text (utf16_points us) = us"
proof (induction us rule: utf16_points.induct)
  case (2 u)
  then show ?case using unat_u16 [of u] by (simp add: utf16_text_def utf16_of_def)
next
  case (3 u v us)
  then show ?case 
    using unat_u16 [of u] utf16_of_pair [of u v]
    by (auto simp: utf16_text_def utf16_of_def [of "unat u"] simp flip: surrogate_pair_def)
qed (simp add: utf16_text_def)

lemma utf16_points_not_high: "\<not> high u \<Longrightarrow> utf16_points (u # us) = unat u # utf16_points us"
  by (cases us) auto

lemma utf16_points_scalar:
  assumes "scalar cp"
  shows "utf16_points (utf16_of cp @ us) = cp # utf16_points us"
proof (cases "cp < 0x10000")
  case True
  then have u: "unat (of_nat cp :: u16) = cp" by (simp add: unsigned_of_nat take_bit_nat_eq_self)
  then have "\<not> high (of_nat cp)" using assms by (auto simp: high_def scalar_def)
  from utf16_points_not_high [OF this, of us] show ?thesis using True u by (simp add: utf16_of_def)
next
  case False
  define q r where "q = (cp - 0x10000) div 1024" and "r = (cp - 0x10000) mod 1024"
  have q: "q < 1024" and r: "r < 1024" and cp: "cp = q * 1024 + r + 0x10000"
    using assms False by (auto simp: scalar_def q_def r_def)
  have u: "unat (of_nat (0xD800 + q) :: u16) = 0xD800 + q" "unat (of_nat (0xDC00 + r) :: u16) = 0xDC00 + r"
    using q r by (simp_all only: unsigned_of_nat) (simp_all add: take_bit_nat_eq_self)
  have "utf16_of cp = [of_nat (0xD800 + q), of_nat (0xDC00 + r)]"
    using False by (simp add: utf16_of_def q_def r_def)
  moreover have "high (of_nat (0xD800 + q))" "low (of_nat (0xDC00 + r))"
    unfolding high_def low_def u using q r by simp_all
  ultimately show ?thesis
    using cp u by (simp del: of_nat_add)
qed

lemma utf16_points_text: "list_all scalar cps \<Longrightarrow> utf16_points (utf16_text cps) = cps"
  by (induction cps) (simp_all add: utf16_text_def utf16_points_scalar)

lemma scalar_code_point: "scalar cp \<Longrightarrow> code_point cp"
  by (auto simp: scalar_def code_point_def)

lemma Utf16ToUtf8_of_points: "Utf16ToUtf8 us = Inr (utf8_text (utf16_points us))"
  using Utf16ToUtf8_loop_points [of "[]" us "[]"] by (simp add: Utf16ToUtf8_def)

lemma list_all_code_point: "list_all scalar cps \<Longrightarrow> list_all code_point cps"
  by (simp add: list_all_iff scalar_code_point)

lemma Utf8ToUtf16_returns: "\<exists>us. Utf8ToUtf16 utf8 = Inr us \<and> length us \<le> length utf8"
  using Utf8ToUtf16_loop_total [of utf8 0 "[]"] by (simp add: Utf8ToUtf16_def)

text \<open>The facts on the converters that the message codecs use.\<close>

lemmas utf_conversions =
  Utf8ToUtf16_of_text Utf16ToUtf8_of_points utf16_points_text utf16_text_points utf16_points_code

section \<open>Properties\<close>

text \<open>C21. \<open>Utf8ToUtf16\<close> turns the UTF-8 encoding of any sequence of code points into its
  UTF-16 encoding: supplementary code points become surrogate pairs, nothing is dropped, and no
  read leaves the string.\<close>

theorem Utf8ToUtf16_correct:
  "list_all code_point cps \<Longrightarrow> Utf8ToUtf16 (utf8_text cps) = Inr (utf16_text cps)"
  by (rule Utf8ToUtf16_of_text)

theorem Utf8ToUtf16_correct_witness:
  "Utf8ToUtf16 [0x48, 0xF0, 0x9F, 0x93, 0xBB] = Inr [0x48, 0xD83D, 0xDCFB]"
proof -
  have "list_all code_point [0x48, 0x1F4FB]" by (simp add: code_point_def)
  from Utf8ToUtf16_correct [OF this] show ?thesis
    by (simp add: utf8_text_def utf16_text_def utf8_of_def utf16_of_def)
qed

text \<open>C38. \<open>Utf16ToUtf8\<close> returns for every UTF-16 string, paired or not, and yields the UTF-8
  encoding of its code points, an unpaired surrogate counting as itself.\<close>

theorem Utf16ToUtf8_correct: "Utf16ToUtf8 us = Inr (utf8_text (utf16_points us))"
  by (rule Utf16ToUtf8_of_points)

text \<open>C31. No UTF-16 text is lost: converting any sequence of 16-bit units to UTF-8 and back gives
  the same units, malformed surrogates included.\<close>

theorem Utf16_lossless: "andThen (Utf16ToUtf8 us) Utf8ToUtf16 = Inr us"
  by (simp add: utf_conversions)

text \<open>Well-formed UTF-8 (an encoding of scalar values) survives the way through UTF-16.\<close>

lemma Utf8_roundtrip:
  "list_all scalar cps \<Longrightarrow> andThen (Utf8ToUtf16 (utf8_text cps)) Utf16ToUtf8 = Inr (utf8_text cps)"
  by (simp add: utf_conversions list_all_code_point)

text \<open>C32. On arbitrary bytes, well-formed or not, \<open>Utf8ToUtf16\<close> terminates, never reads outside
  the string, and yields no more 16-bit units than the string has bytes, so its \<open>reserve\<close> is
  enough.\<close>

theorem Utf8ToUtf16_total:
  "\<exists>us. Utf8ToUtf16 utf8 = Inr us \<and> length us \<le> length utf8"
  by (rule Utf8ToUtf16_returns)

end
