(* ===== verification/Codec.thy ===== *)
theory Codec
  imports Cxx
begin

text \<open>
  The contracts of the wire formats. A \<open>codec\<close> gives back every valid value it encoded; a
  \<open>prefix_codec\<close> is a fixed-width format whose decoder reads exactly the bytes the encoder
  writes and ignores what follows. The users of a format (the packet framing, the client)
  need only these laws; \<open>Protocol\<close> interprets the locales on every format of the code that
  has both directions.
\<close>

locale codec =
  fixes encode :: "'a \<Rightarrow> bytes"
    and decode :: "bytes \<Rightarrow> 'a option cxx"
    and valid :: "'a \<Rightarrow> bool"
  assumes decode_encode: "valid x \<Longrightarrow> decode (encode x) = Inr (Some x)"
begin

lemma encode_inject: "valid x \<Longrightarrow> valid y \<Longrightarrow> encode x = encode y \<longleftrightarrow> x = y"
  by (metis decode_encode option.inject sum.inject(2))

lemma inj_on_encode: "inj_on encode {x. valid x}"
  by (simp add: inj_on_def encode_inject)

lemma valid_in_range: "{x. valid x} \<subseteq> {x. \<exists>bs. decode bs = Inr (Some x)}"
  by (auto intro: decode_encode)

end

locale prefix_codec =
  fixes encode :: "'a \<Rightarrow> bytes"
    and decode :: "bytes \<Rightarrow> 'a option cxx"
    and width :: nat
  assumes length_encode: "length (encode x) = width"
    and decode_safe: "decode bs \<noteq> Inl a"
    and decode_iff: "decode bs = Inr (Some x) \<longleftrightarrow> width \<le> length bs \<and> take width bs = encode x"
begin

lemma decode_returns: "\<exists>r. decode bs = Inr r"
  using decode_safe by (cases "decode bs") auto

lemma decode_append: "decode (encode x @ rest) = Inr (Some x)"
  by (simp add: decode_iff length_encode)

lemma decode_short: "length bs < width \<Longrightarrow> decode bs = Inr None"
  by (metis decode_iff decode_returns leD not_None_eq)

lemma decode_eqI: "(\<And>x. decode bs = Inr (Some x) \<longleftrightarrow> decode bs' = Inr (Some x)) \<Longrightarrow> decode bs = decode bs'"
  by (metis decode_returns not_None_eq)

lemma decode_take: "width \<le> n \<Longrightarrow> decode (take n bs) = decode bs"
  by (rule decode_eqI) (auto simp: decode_iff min_def)

lemma decode_Some_split:
  assumes "decode bs = Inr (Some x)" obtains rest where "bs = encode x @ rest"
  using assms by (metis append_take_drop_id decode_iff)

lemma decode_prefix_free: "decode (encode x @ r) = decode (encode y @ s) \<Longrightarrow> x = y"
  by (simp add: decode_append)

end

text \<open>A fixed-width format is a codec without side condition.\<close>

sublocale prefix_codec \<subseteq> total: codec encode decode "\<lambda>_. True"
  by unfold_locales (metis append_Nil2 decode_append)

section \<open>Framing\<close>

text \<open>A packet is a header that announces the size of the payload that follows it.\<close>

locale framing = prefix_codec encode decode width
  for encode :: "'a \<Rightarrow> bytes" and decode :: "bytes \<Rightarrow> 'a option cxx" and width :: nat +
  fixes size_of :: "'a \<Rightarrow> nat"
    and split_frame :: "bytes \<Rightarrow> ('a \<times> bytes) option"
  assumes split_frame:
    "split_frame bs =
      (case parsed (decode bs) of
         None \<Rightarrow> None
       | Some h \<Rightarrow>
           if length bs < width + size_of h then None else Some (h, take (size_of h) (drop width bs)))"
begin

text \<open>A frame is split back, whatever follows it.\<close>

lemma split_frame_append:
  "length payload = size_of h \<Longrightarrow> split_frame (encode h @ payload @ rest) = Some (h, payload)"
  by (simp add: split_frame decode_append length_encode)

text \<open>Splitting accepts the frames and nothing else.\<close>

lemma split_frame_iff:
  "split_frame bs = Some (h, payload) \<longleftrightarrow>
    length payload = size_of h \<and> (\<exists>rest. bs = encode h @ payload @ rest)"
proof
  assume *: "split_frame bs = Some (h, payload)"
  then have d: "decode bs = Inr (Some h)" by (auto simp: split_frame split: option.splits if_splits)
  with * have p: "payload = take (size_of h) (drop width bs)" "width + size_of h \<le> length bs"
    by (auto simp: split_frame not_less split: if_splits)
  from d obtain r where r: "bs = encode h @ r" by (rule decode_Some_split)
  with p have "payload = take (size_of h) r" and l: "size_of h \<le> length r"
    by (simp_all add: length_encode)
  then have "bs = encode h @ payload @ drop (size_of h) r" "length payload = size_of h"
    by (simp_all add: r)
  then show "length payload = size_of h \<and> (\<exists>rest. bs = encode h @ payload @ rest)" by blast
qed (auto simp: split_frame_append)

end

end
