(* ===== verification/Protocol.thy ===== *)
theory Protocol
  imports Common Endian Unicode Codec
begin

text \<open>
  The packet structures of \<open>include/opendtp/Protocol.hpp\<close> and their serializers and
  deserializers in \<open>src/Protocol.cpp\<close>. A \<open>std::string\<close> is its bytes, \<open>std::optional\<close> is
  \<open>option\<close>. The deserializers are in the outcome type of \<open>Cxx\<close>: every byte they read goes through
  a checked access, so a missing length guard would show as undefined behaviour;
  \<open>return std::nullopt\<close> is \<open>Inr None\<close>.
\<close>

section \<open>Structures\<close>

record Header =
  h_type :: MessageType
  h_flags :: u16
  h_number :: u32
  h_length :: u16

record VersionData =
  v_dmrId :: u32
  v_service :: ServiceType
  v_description :: bytes

record SubscriptionData =
  sub_type :: u32
  sub_number :: u32

record SessionPollData =
  poll_type :: u32
  poll_flag :: u32
  poll_number :: u32
  poll_state :: u32

record SuperHeader =
  sh_type :: u32
  sh_sourceId :: u32
  sh_destinationId :: u32
  sh_sourceCall :: bytes
  sh_destinationCall :: bytes

record TextMessageData =
  text_sourceId :: u32
  text_destinationId :: u32
  text_isGroup :: bool
  text_text :: bytes

record TextMessageStatus =
  status_sourceId :: u32
  status_destinationId :: u32
  status_status :: u8

record LocationRequest =
  req_type :: u32
  req_interval :: u32

record LocationReport =
  loc_format :: u32
  loc_nmea :: bytes

section \<open>Serializers\<close>

definition SerializeHeader :: "endian \<Rightarrow> Header \<Rightarrow> bytes" where
  "SerializeHeader host header =
    (let buf = WriteBytes [] (take SIGN_LENGTH PROTOCOL_SIGN);
         buf = WriteLE host buf (h_type header);
         buf = WriteLE host buf (h_flags header);
         buf = WriteLE host buf (h_number header);
         buf = WriteLE host buf (h_length header)
     in buf)"

definition SerializeVersionData :: "endian \<Rightarrow> VersionData \<Rightarrow> bytes" where
  "SerializeVersionData host data =
    (let buf = WriteLE host [] (v_dmrId data);
         buf = WriteLE host buf (v_service data);
         buf = WriteBytes buf (v_description data)
     in buf)"

definition SerializeSubscription :: "endian \<Rightarrow> SubscriptionData \<Rightarrow> bytes" where
  "SerializeSubscription host data =
    (let buf = WriteLE host [] (sub_type data);
         buf = WriteLE host buf (sub_number data)
     in buf)"

definition SerializeSessionPoll :: "endian \<Rightarrow> SessionPollData \<Rightarrow> bytes" where
  "SerializeSessionPoll host data =
    (let buf = WriteLE host [] (poll_type data);
         buf = WriteLE host buf (poll_flag data);
         buf = WriteLE host buf (poll_number data);
         buf = WriteLE host buf (poll_state data)
     in buf)"

definition SerializeTextMessage :: "endian \<Rightarrow> TextMessageData \<Rightarrow> bytes cxx" where
  "SerializeTextMessage host data =
    andThen (Utf8ToUtf16 (text_text data)) (\<lambda>utf16Text.
    let buf = WriteLE host [] (0 :: u32);
        buf = WriteLE host buf (text_sourceId data);
        buf = WriteLE host buf (text_destinationId data);
        opt = (if text_isGroup data then 128 else 0 :: u16);
        buf = WriteLE host buf opt;
        byteLength = (of_nat (length utf16Text * 2) :: u16);
        buf = WriteLE host buf byteLength;
        buf = fold (\<lambda>val buf. WriteLE host buf val) utf16Text buf
    in Inr buf)"

definition SerializeLocationReport :: "endian \<Rightarrow> LocationReport \<Rightarrow> bytes" where
  "SerializeLocationReport host data =
    (let buf = WriteLE host [] (0 :: u32);
         buf = WriteLE host buf (loc_format data);
         byteLength = (of_nat (length (loc_nmea data) + 1) :: u16);
         buf = WriteLE host buf byteLength;
         buf = WriteBytes buf (loc_nmea data)
     in buf @ [0])"

section \<open>Deserializers\<close>

definition DeserializeHeader :: "endian \<Rightarrow> bytes \<Rightarrow> Header option cxx" where
  "DeserializeHeader host bytes =
    (if length bytes < 18 then Inr None
     else andThen (read_bytes bytes 0 SIGN_LENGTH) (\<lambda>sign.
       if sign \<noteq> take SIGN_LENGTH PROTOCOL_SIGN then Inr None
       else
         or_nullopt (ReadLE host bytes SIGN_LENGTH) (\<lambda>(typeRaw, offset).
         or_nullopt (ReadLE host bytes offset) (\<lambda>(flags, offset).
         or_nullopt (ReadLE host bytes offset) (\<lambda>(number, offset).
         or_nullopt (ReadLE host bytes offset) (\<lambda>(len, offset).
         Inr (Some \<lparr>h_type = typeRaw, h_flags = flags, h_number = number, h_length = len\<rparr>)))))))"

text \<open>The loop that pops trailing null characters.\<close>

function pop_nulls :: "bytes \<Rightarrow> bytes" where
  "pop_nulls s = (if s \<noteq> [] \<and> last s = 0 then pop_nulls (butlast s) else s)"
  by pat_completeness auto
termination by (relation "measure length") auto

declare pop_nulls.simps [simp del]

definition DeserializeVersionData :: "endian \<Rightarrow> bytes \<Rightarrow> VersionData option cxx" where
  "DeserializeVersionData host bytes =
    (if length bytes < 5 then Inr None
     else
       or_nullopt (ReadLE host bytes 0) (\<lambda>(dmrId, offset).
       or_nullopt (ReadLE host bytes offset) (\<lambda>(serviceRaw, offset).
       andThen
         (if length bytes > offset
          then andThen (read_bytes bytes offset (length bytes - offset)) (\<lambda>s. Inr (pop_nulls s))
          else Inr []) (\<lambda>description.
       Inr (Some \<lparr>v_dmrId = dmrId, v_service = serviceRaw, v_description = description\<rparr>)))))"

definition DeserializeSubscription :: "endian \<Rightarrow> bytes \<Rightarrow> SubscriptionData option cxx" where
  "DeserializeSubscription host bytes =
    (if length bytes < 8 then Inr None
     else
       or_nullopt (ReadLE host bytes 0) (\<lambda>(type, offset).
       or_nullopt (ReadLE host bytes offset) (\<lambda>(number, offset).
       Inr (Some \<lparr>sub_type = type, sub_number = number\<rparr>))))"

definition DeserializeSessionPoll :: "endian \<Rightarrow> bytes \<Rightarrow> SessionPollData option cxx" where
  "DeserializeSessionPoll host bytes =
    (if length bytes < 16 then Inr None
     else
       or_nullopt (ReadLE host bytes 0) (\<lambda>(type, offset).
       or_nullopt (ReadLE host bytes offset) (\<lambda>(flag, offset).
       or_nullopt (ReadLE host bytes offset) (\<lambda>(number, offset).
       or_nullopt (ReadLE host bytes offset) (\<lambda>(state, offset).
       Inr (Some \<lparr>poll_type = type, poll_flag = flag, poll_number = number, poll_state = state\<rparr>))))))"

text \<open>The call signs are copied to arrays of ten characters first.\<close>

definition DeserializeSuperHeader :: "endian \<Rightarrow> bytes \<Rightarrow> SuperHeader option cxx" where
  "DeserializeSuperHeader host bytes =
    (if length bytes < 32 then Inr None
     else
       or_nullopt (ReadLE host bytes 0) (\<lambda>(type, offset).
       or_nullopt (ReadLE host bytes offset) (\<lambda>(sourceId, offset).
       or_nullopt (ReadLE host bytes offset) (\<lambda>(destinationId, offset).
       or_nullopt (ReadBytes bytes offset 10) (\<lambda>(srcCall, offset).
       andThen (assign_strn srcCall 0 10) (\<lambda>sourceCall.
       or_nullopt (ReadBytes bytes offset 10) (\<lambda>(destCall, offset).
       andThen (assign_strn destCall 0 10) (\<lambda>destinationCall.
       Inr (Some \<lparr>sh_type = type, sh_sourceId = sourceId, sh_destinationId = destinationId,
                  sh_sourceCall = sourceCall, sh_destinationCall = destinationCall\<rparr>)))))))))"

text \<open>The loop that fills \<open>utf16Text\<close>, \<open>n\<close> units from \<open>offset\<close> on.\<close>

fun read_units :: "endian \<Rightarrow> bytes \<Rightarrow> nat \<Rightarrow> nat \<Rightarrow> u16 list option cxx" where
  "read_units host bytes offset 0 = Inr (Some [])"
| "read_units host bytes offset (Suc n) =
     or_nullopt (ReadLE host bytes offset) (\<lambda>(u, offset).
     or_nullopt (read_units host bytes offset n) (\<lambda>us.
     Inr (Some (u # us))))"

text \<open>The part of \<open>DeserializeTextMessage\<close> before the conversion: the message without its
  text, and the 16-bit units of the text.\<close>

definition text_fields :: "endian \<Rightarrow> bytes \<Rightarrow> (TextMessageData \<times> u16 list) option cxx" where
  "text_fields host bytes =
    (if length bytes < 16 then Inr None
     else
       or_nullopt (ReadLE host bytes 0 :: (u32 \<times> nat) option cxx) (\<lambda>(reserved, offset).
       or_nullopt (ReadLE host bytes offset) (\<lambda>(sourceId, offset).
       or_nullopt (ReadLE host bytes offset) (\<lambda>(destinationId, offset).
       or_nullopt (ReadLE host bytes offset :: (u16 \<times> nat) option cxx) (\<lambda>(opt, offset).
       let isGroup = (opt = 128) in
       or_nullopt (ReadLE host bytes offset :: (u16 \<times> nat) option cxx) (\<lambda>(byteLength, offset).
       if offset + unat byteLength > length bytes then Inr None
       else
         or_nullopt (read_units host bytes offset (unat byteLength div 2)) (\<lambda>utf16Text.
         Inr (Some (\<lparr>text_sourceId = sourceId, text_destinationId = destinationId,
                     text_isGroup = isGroup, text_text = []\<rparr>, utf16Text)))))))))"

definition DeserializeTextMessage :: "endian \<Rightarrow> bytes \<Rightarrow> TextMessageData option cxx" where
  "DeserializeTextMessage host bytes =
    or_nullopt (text_fields host bytes) (\<lambda>(data, utf16Text).
    andThen (Utf16ToUtf8 utf16Text) (\<lambda>utf8. Inr (Some (data\<lparr>text_text := utf8\<rparr>))))"

definition DeserializeTextMessageStatus :: "endian \<Rightarrow> bytes \<Rightarrow> TextMessageStatus option cxx" where
  "DeserializeTextMessageStatus host bytes =
    (if length bytes < 13 then Inr None
     else
       or_nullopt (ReadLE host bytes 0 :: (u32 \<times> nat) option cxx) (\<lambda>(reserved, offset).
       or_nullopt (ReadLE host bytes offset) (\<lambda>(sourceId, offset).
       or_nullopt (ReadLE host bytes offset) (\<lambda>(destinationId, offset).
       or_nullopt (ReadLE host bytes offset) (\<lambda>(status, offset).
       Inr (Some \<lparr>status_sourceId = sourceId, status_destinationId = destinationId,
                  status_status = status\<rparr>))))))"

definition DeserializeLocationRequest :: "endian \<Rightarrow> bytes \<Rightarrow> LocationRequest option cxx" where
  "DeserializeLocationRequest host bytes =
    (if length bytes < 12 then Inr None
     else
       or_nullopt (ReadLE host bytes 0 :: (u32 \<times> nat) option cxx) (\<lambda>(reserved, offset).
       or_nullopt (ReadLE host bytes offset) (\<lambda>(type, offset).
       or_nullopt (ReadLE host bytes offset) (\<lambda>(interval, offset).
       Inr (Some \<lparr>req_type = type, req_interval = interval\<rparr>)))))"

definition DeserializeLocationReport :: "endian \<Rightarrow> bytes \<Rightarrow> LocationReport option cxx" where
  "DeserializeLocationReport host bytes =
    (if length bytes < 10 then Inr None
     else
       or_nullopt (ReadLE host bytes 0 :: (u32 \<times> nat) option cxx) (\<lambda>(reserved, offset).
       or_nullopt (ReadLE host bytes offset) (\<lambda>(format, offset).
       or_nullopt (ReadLE host bytes offset :: (u16 \<times> nat) option cxx) (\<lambda>(byteLength, offset).
       if offset + unat byteLength > length bytes then Inr None
       else
         andThen (if 0 < byteLength then assign_strn bytes offset (unat byteLength) else Inr []) (\<lambda>nmea.
         Inr (Some \<lparr>loc_format = format, loc_nmea = nmea\<rparr>))))))"

section \<open>Fields of a buffer\<close>

lemma take_eq_append:
  assumes "n \<le> length bs" "length a \<le> n"
  shows "take n bs = a @ b \<longleftrightarrow> take (length a) bs = a \<and> take (n - length a) (drop (length a) bs) = b"
proof -
  have "take n bs = take (length a) bs @ take (n - length a) (drop (length a) bs)"
    using assms by (metis le_add_diff_inverse take_add)
  then show ?thesis using assms by (simp add: append_eq_append_conv)
qed

lemma lsb_word_eq:
  "k + 1 \<le> length bs \<Longrightarrow> take (Suc 0) (drop k bs) = lsb_bytes (v8 :: u8) \<longleftrightarrow> v8 = lsb_word (take (Suc 0) (drop k bs))"
  "k + 2 \<le> length bs \<Longrightarrow> take 2 (drop k bs) = lsb_bytes (v16 :: u16) \<longleftrightarrow> v16 = lsb_word (take 2 (drop k bs))"
  "k + 4 \<le> length bs \<Longrightarrow> take 4 (drop k bs) = lsb_bytes (v32 :: u32) \<longleftrightarrow> v32 = lsb_word (take 4 (drop k bs))"
  "4 \<le> length bs \<Longrightarrow> take 4 bs = lsb_bytes (v32 :: u32) \<longleftrightarrow> v32 = lsb_word (take 4 bs)"
  using lsb_word_eq_iff(1) [of "take 1 (drop k bs)" v8] lsb_word_eq_iff(2) [of "take 2 (drop k bs)" v16]
    lsb_word_eq_iff(3) [of "take 4 (drop k bs)" v32] lsb_word_eq_iff(3) [of "take 4 bs" v32] by auto

section \<open>What the serializers write\<close>

lemma SerializeHeader_bytes [wire_simps]:
  "SerializeHeader host h = PROTOCOL_SIGN @ lsb_bytes (h_type h) @ lsb_bytes (h_flags h) @
     lsb_bytes (h_number h) @ lsb_bytes (h_length h)"
  by (simp add: SerializeHeader_def wire_simps)

lemma SerializeSubscription_bytes [wire_simps]:
  "SerializeSubscription host d = lsb_bytes (sub_type d) @ lsb_bytes (sub_number d)"
  by (simp add: SerializeSubscription_def wire_simps)

lemma SerializeSessionPoll_bytes [wire_simps]:
  "SerializeSessionPoll host d = lsb_bytes (poll_type d) @ lsb_bytes (poll_flag d) @
     lsb_bytes (poll_number d) @ lsb_bytes (poll_state d)"
  by (simp add: SerializeSessionPoll_def wire_simps)

section \<open>The fixed-width formats\<close>

interpretation header: prefix_codec "SerializeHeader host" "DeserializeHeader host'" 18
  for host host'
proof
  show "length (SerializeHeader host h) = 18" for h by (simp add: wire_simps SIGN_LENGTH_def)
  show "DeserializeHeader host' bs \<noteq> Inl a" for bs a
    by (simp add: DeserializeHeader_def wire_simps read_bytes_def SIGN_LENGTH_def)
  show "DeserializeHeader host' bs = Inr (Some h) \<longleftrightarrow>
      18 \<le> length bs \<and> take 18 bs = SerializeHeader host h" for bs h
  proof (cases "18 \<le> length bs")
    case True
    then show ?thesis
      by (cases h) (auto simp: DeserializeHeader_def wire_simps read_bytes_def SIGN_LENGTH_def take_eq_append lsb_word_eq)
  qed (simp add: DeserializeHeader_def)
qed

interpretation subscription: prefix_codec "SerializeSubscription host" "DeserializeSubscription host'" 8
  for host host'
proof
  show "length (SerializeSubscription host d) = 8" for d by (simp add: wire_simps)
  show "DeserializeSubscription host' bs \<noteq> Inl a" for bs a
    by (simp add: DeserializeSubscription_def wire_simps read_bytes_def SIGN_LENGTH_def)
  show "DeserializeSubscription host' bs = Inr (Some d) \<longleftrightarrow>
      8 \<le> length bs \<and> take 8 bs = SerializeSubscription host d" for bs d
  proof (cases "8 \<le> length bs")
    case True
    then show ?thesis
      by (cases d) (auto simp: DeserializeSubscription_def wire_simps take_eq_append lsb_word_eq)
  qed (simp add: DeserializeSubscription_def)
qed

interpretation session_poll: prefix_codec "SerializeSessionPoll host" "DeserializeSessionPoll host'" 16
  for host host'
proof
  show "length (SerializeSessionPoll host d) = 16" for d by (simp add: wire_simps)
  show "DeserializeSessionPoll host' bs \<noteq> Inl a" for bs a
    by (simp add: DeserializeSessionPoll_def wire_simps read_bytes_def SIGN_LENGTH_def)
  show "DeserializeSessionPoll host' bs = Inr (Some d) \<longleftrightarrow>
      16 \<le> length bs \<and> take 16 bs = SerializeSessionPoll host d" for bs d
  proof (cases "16 \<le> length bs")
    case True
    then show ?thesis
      by (cases d) (auto simp: DeserializeSessionPoll_def wire_simps take_eq_append lsb_word_eq)
  qed (simp add: DeserializeSessionPoll_def)
qed

section \<open>The formats of variable length\<close>

lemma pop_nulls_dropWhile: "pop_nulls s = rev (dropWhile (\<lambda>b. b = 0) (rev s))"
proof (induction s rule: pop_nulls.induct)
  case (1 s)
  show ?case
  proof (cases s rule: rev_cases)
    case (snoc t b)
    with 1 show ?thesis by (auto simp: pop_nulls.simps [of "t @ [b]"])
  qed (simp add: pop_nulls.simps)
qed

lemma SerializeVersionData_bytes [wire_simps]:
  "SerializeVersionData host v = lsb_bytes (v_dmrId v) @ lsb_bytes (v_service v) @ v_description v"
  by (simp add: SerializeVersionData_def wire_simps)

lemma VersionData_decoded:
  "DeserializeVersionData host bs =
    (if 5 \<le> length bs then
       Inr (Some \<lparr>v_dmrId = lsb_word (take 4 bs), v_service = lsb_word (take 1 (drop 4 bs)), v_description = pop_nulls (drop 5 bs)\<rparr>)
     else Inr None)"
  by (simp add: DeserializeVersionData_def wire_simps read_bytes_def pop_nulls.simps [of "[]"])

lemma VersionData_serialized:
  "DeserializeVersionData host' (SerializeVersionData host v) =
    Inr (Some (v\<lparr>v_description := pop_nulls (v_description v)\<rparr>))"
  by (cases v) (simp add: VersionData_decoded wire_simps)

text \<open>Decoders without an encoder in the code: what they accept and what they read.\<close>

lemma TextMessageStatus_decoded:
  "DeserializeTextMessageStatus host bs =
    (if 13 \<le> length bs then
       Inr (Some \<lparr>status_sourceId = lsb_word (take 4 (drop 4 bs)),
             status_destinationId = lsb_word (take 4 (drop 8 bs)), status_status = bs ! 12\<rparr>)
     else Inr None)"
  by (simp add: DeserializeTextMessageStatus_def wire_simps take_Suc_conv_app_nth hd_drop_conv_nth)

lemma LocationRequest_decoded:
  "DeserializeLocationRequest host bs =
    (if 12 \<le> length bs then
       Inr (Some \<lparr>req_type = lsb_word (take 4 (drop 4 bs)), req_interval = lsb_word (take 4 (drop 8 bs))\<rparr>)
     else Inr None)"
  by (simp add: DeserializeLocationRequest_def wire_simps)

lemma SuperHeader_decoded:
  "DeserializeSuperHeader host bs =
    (if 32 \<le> length bs then
       Inr (Some \<lparr>sh_type = lsb_word (take 4 bs), sh_sourceId = lsb_word (take 4 (drop 4 bs)),
             sh_destinationId = lsb_word (take 4 (drop 8 bs)),
             sh_sourceCall = takeWhile (\<lambda>b. b \<noteq> 0) (take 10 (drop 12 bs)),
             sh_destinationCall = takeWhile (\<lambda>b. b \<noteq> 0) (take 10 (drop 22 bs))\<rparr>)
     else Inr None)"
  by (simp add: DeserializeSuperHeader_def wire_simps assign_strn_ok)

lemma LocationReport_decoded:
  "DeserializeLocationReport host bs =
    (let n = unat (lsb_word (take 2 (drop 8 bs)) :: u16)
     in if 10 \<le> length bs \<and> 10 + n \<le> length bs then
          Inr (Some \<lparr>loc_format = lsb_word (take 4 (drop 4 bs)),
            loc_nmea = takeWhile (\<lambda>b. b \<noteq> 0) (take n (drop 10 bs))\<rparr>)
        else Inr None)"
  by (auto simp: DeserializeLocationReport_def wire_simps assign_strn_ok Let_def not_less word_less_nat_alt)

text \<open>Locations.\<close>

lemma SerializeLocationReport_bytes [wire_simps]:
  "SerializeLocationReport host r = lsb_bytes (0 :: u32) @ lsb_bytes (loc_format r) @
     lsb_bytes (of_nat (length (loc_nmea r) + 1) :: u16) @ loc_nmea r @ [0]"
  by (simp add: SerializeLocationReport_def wire_simps)

lemma LocationReport_serialized:
  "DeserializeLocationReport host' (SerializeLocationReport host r) =
    Inr (Some (r\<lparr>loc_nmea := takeWhile (\<lambda>b. b \<noteq> 0)
      (take (Suc (length (loc_nmea r)) mod 2 ^ 16) (loc_nmea r @ [0]))\<rparr>))"
proof -
  have len: "unat (of_nat (length (loc_nmea r) + 1) :: u16) = Suc (length (loc_nmea r)) mod 2 ^ 16"
    by (simp only: unsigned_of_nat) (simp add: take_bit_eq_mod)
  moreover have "Suc (length (loc_nmea r)) mod 2 ^ 16 \<le> Suc (length (loc_nmea r))"
    by (rule mod_less_eq_dividend)
  ultimately show ?thesis
    by (cases r) (simp add: LocationReport_decoded wire_simps Let_def not_less)
qed

text \<open>Text messages.\<close>

lemma fold_append: "fold (\<lambda>x buf. buf @ f x) xs buf = buf @ concat (map f xs)"
  by (induction xs arbitrary: buf) simp_all

lemma read_units_written:
  "n \<le> length us \<Longrightarrow>
    read_units host (xs @ concat (map lsb_bytes us) @ ys) (length xs) n = Inr (Some (take n us))"
proof (induction n arbitrary: us xs)
  case (Suc n)
  then obtain u us' where us: "us = u # us'" by (cases us) auto
  with Suc show ?case
    using Suc.IH [of us' "xs @ lsb_bytes u"] by (simp add: wire_simps)
qed simp

lemma SerializeTextMessage_bytes:
  assumes "Utf8ToUtf16 (text_text d) = Inr us"
  shows "SerializeTextMessage host d = Inr (lsb_bytes (0 :: u32) @ lsb_bytes (text_sourceId d) @
     lsb_bytes (text_destinationId d) @ lsb_bytes (if text_isGroup d then 128 else 0 :: u16) @
     lsb_bytes (of_nat (length us * 2) :: u16) @ concat (map lsb_bytes us))"
  using assms by (simp add: SerializeTextMessage_def wire_simps fold_append)

lemma SerializeTextMessage_returns: "\<exists>p. SerializeTextMessage host d = Inr p"
  using Utf8ToUtf16_returns [of "text_text d"] SerializeTextMessage_bytes by blast

lemma TextMessage_serialized:
  assumes "Utf8ToUtf16 (text_text d) = Inr us"
  shows "andThen (SerializeTextMessage host d) (DeserializeTextMessage host') =
    Inr (Some (d\<lparr>text_text := utf8_text (utf16_points (take (length us mod 2 ^ 15) us))\<rparr>))"
proof -
  define n where "n = length us mod 2 ^ 15"
  have len: "unat (of_nat (length us * 2) :: u16) = 2 * n"
    by (simp only: unsigned_of_nat n_def) (simp add: take_bit_eq_mod mult_mod_right mult.commute)
  have n: "n \<le> length us" unfolding n_def by (rule mod_less_eq_dividend)
  define head where "head = lsb_bytes (0 :: u32) @ lsb_bytes (text_sourceId d) @
     lsb_bytes (text_destinationId d) @ lsb_bytes (if text_isGroup d then 128 else 0 :: u16) @
     lsb_bytes (of_nat (length us * 2) :: u16)"
  have head: "length head = 16" by (simp add: head_def)
  have "length (concat (map lsb_bytes us)) = 2 * length us"
    by (induction us) simp_all
  moreover have "read_units host' (head @ concat (map lsb_bytes us)) 16 n = Inr (Some (take n us))"
    using read_units_written [OF n, of host' head "[]"] head by simp
  ultimately have "text_fields host' (head @ concat (map lsb_bytes us)) =
      Inr (Some (d\<lparr>text_text := []\<rparr>, take n us))"
    using n len
    by (cases d) (simp add: text_fields_def wire_simps head_def)
  then show ?thesis
    using SerializeTextMessage_bytes [OF assms, of host]
    by (simp add: head_def DeserializeTextMessage_def Utf16ToUtf8_of_points n_def)
qed

lemma read_units_total:
  "offset + 2 * n \<le> length bs \<Longrightarrow> \<exists>us. read_units host bs offset n = Inr (Some us) \<and> length us = n"
proof (induction n arbitrary: offset)
  case (Suc n)
  then obtain us where "read_units host bs (offset + 2) n = Inr (Some us)" "length us = n"
    by (force simp: ac_simps)
  with Suc.prems show ?case by (simp add: wire_simps)
qed simp

lemma text_fields_returns:
  "\<exists>r. text_fields host bs = Inr r \<and>
    (r = None \<longleftrightarrow> length bs < 16 \<or> length bs < 16 + unat (lsb_word (take 2 (drop 14 bs)) :: u16))"
proof (cases "16 \<le> length bs")
  case True
  define m where "m = (lsb_word (take 2 (drop 14 bs)) :: u16)"
  have "\<exists>us. read_units host bs 16 (unat m div 2) = Inr (Some us)" if "16 + unat m \<le> length bs"
  proof -
    have "2 * (unat m div 2) \<le> unat m" by simp
    with that have "16 + 2 * (unat m div 2) \<le> length bs" by linarith
    from read_units_total [OF this] show ?thesis by blast
  qed
  with True show ?thesis
    by (auto simp: text_fields_def wire_simps m_def [symmetric])
qed (simp add: text_fields_def)

lemma DeserializeTextMessage_returns:
  "DeserializeTextMessage host bs = Inr (map_option
    (\<lambda>(d, us). d\<lparr>text_text := utf8_text (utf16_points us)\<rparr>) (parsed (text_fields host bs)))"
proof -
  obtain r where r: "text_fields host bs = Inr r" using text_fields_returns by blast
  show ?thesis
    by (cases r) (auto simp: r DeserializeTextMessage_def Utf16ToUtf8_of_points split: prod.split)
qed

lemma pop_nulls_id: "s = [] \<or> last s \<noteq> 0 \<Longrightarrow> pop_nulls s = s"
  by (subst pop_nulls.simps) auto

interpretation version: codec "SerializeVersionData host" "DeserializeVersionData host'"
  "\<lambda>v. v_description v = [] \<or> last (v_description v) \<noteq> 0" for host host'
  by unfold_locales (simp add: VersionData_serialized pop_nulls_id)

interpretation location: codec "SerializeLocationReport host" "DeserializeLocationReport host'"
  "\<lambda>r. 0 \<notin> set (loc_nmea r) \<and> length (loc_nmea r) < 65535" for host host'
proof
  fix r :: LocationReport
  assume "0 \<notin> set (loc_nmea r) \<and> length (loc_nmea r) < 65535"
  then have "takeWhile (\<lambda>b. b \<noteq> 0) (take (Suc (length (loc_nmea r)) mod 2 ^ 16) (loc_nmea r @ [0])) =
      loc_nmea r"
    by (simp add: takeWhile_append)
  then show "DeserializeLocationReport host' (SerializeLocationReport host r) = Inr (Some r)"
    by (simp add: LocationReport_serialized)
qed

text \<open>A payload's well-formedness as text: its units fit the 16-bit byte count.\<close>

definition sendable_text :: "nat list \<Rightarrow> bool" where
  "sendable_text cps \<longleftrightarrow> list_all scalar cps \<and> length (utf16_text cps) < 2 ^ 15"

lemma TextMessage_sendable:
  assumes "sendable_text cps" "text_text d = utf8_text cps"
  shows "andThen (SerializeTextMessage host d) (DeserializeTextMessage host') = Inr (Some d)"
proof -
  from assms have us: "Utf8ToUtf16 (text_text d) = Inr (utf16_text cps)"
    by (simp add: sendable_text_def utf_conversions list_all_code_point)
  have "utf16_points (take (length (utf16_text cps) mod 2 ^ 15) (utf16_text cps)) = cps"
    using assms(1) by (simp add: sendable_text_def utf_conversions)
  with TextMessage_serialized [OF us, of host host'] assms(2) show ?thesis
    by (simp flip: assms(2))
qed

text \<open>Every decoder returns.\<close>

lemma decoders_return:
  "\<exists>r. DeserializeHeader host bs = Inr r" "\<exists>r. DeserializeVersionData host bs = Inr r"
  "\<exists>r. DeserializeTextMessage host bs = Inr r" "\<exists>r. DeserializeTextMessageStatus host bs = Inr r"
  "\<exists>r. DeserializeLocationRequest host bs = Inr r" "\<exists>r. DeserializeLocationReport host bs = Inr r"
  using header.decode_returns
  by (simp_all add: VersionData_decoded DeserializeTextMessage_returns TextMessageStatus_decoded
      LocationRequest_decoded LocationReport_decoded Let_def)

lemma returned:
  "DeserializeHeader host bs = Inr (parsed (DeserializeHeader host bs))"
  "DeserializeVersionData host bs = Inr (parsed (DeserializeVersionData host bs))"
  "DeserializeTextMessageStatus host bs = Inr (parsed (DeserializeTextMessageStatus host bs))"
  "DeserializeLocationRequest host bs = Inr (parsed (DeserializeLocationRequest host bs))"
  "DeserializeLocationReport host bs = Inr (parsed (DeserializeLocationReport host bs))"
  using decoders_return [of host bs] by auto

section \<open>Properties\<close>

text \<open>C20. The fixed formats are exact: a packet header is accepted exactly when the buffer starts
  with the 18 bytes that \<open>SerializeHeader\<close> writes for the result, a subscription with its 8
  and a session poll with its 16 bytes, on any two hosts. Encoding and decoding are inverse, the
  wire format is host independent, and what follows the structure is not read.\<close>

theorem Fixed_formats_exact:
  "(DeserializeHeader host' bs = Inr (Some h) \<longleftrightarrow> 18 \<le> length bs \<and> take 18 bs = SerializeHeader host h) \<and>
   (DeserializeSubscription host' bs = Inr (Some s) \<longleftrightarrow>
      8 \<le> length bs \<and> take 8 bs = SerializeSubscription host s) \<and>
   (DeserializeSessionPoll host' bs = Inr (Some p) \<longleftrightarrow>
      16 \<le> length bs \<and> take 16 bs = SerializeSessionPoll host p)"
  by (simp add: header.decode_iff subscription.decode_iff session_poll.decode_iff)

text \<open>C19. No decoder reads outside the payload it is given, whatever the bytes: each of the nine
  returns on every input. A header is accepted exactly when 18 bytes are there and the
  signature is right (every type, flag, number and length passes); the formats of fixed width are
  rejected exactly when they are incomplete, texts and positions when they also do not hold the
  bytes they announce. The call signs of a super header hold at most ten characters and no null.\<close>

theorem Decoders_in_bounds:
  "(\<exists>r. DeserializeHeader host bs = Inr r \<and> (r \<noteq> None \<longleftrightarrow> 18 \<le> length bs \<and> take 8 bs = PROTOCOL_SIGN)) \<and>
   (\<exists>r. DeserializeVersionData host bs = Inr r \<and> (r = None \<longleftrightarrow> length bs < 5)) \<and>
   (\<exists>r. DeserializeSubscription host bs = Inr r \<and> (r = None \<longleftrightarrow> length bs < 8)) \<and>
   (\<exists>r. DeserializeSessionPoll host bs = Inr r \<and> (r = None \<longleftrightarrow> length bs < 16)) \<and>
   (\<exists>r. DeserializeTextMessageStatus host bs = Inr r \<and> (r = None \<longleftrightarrow> length bs < 13)) \<and>
   (\<exists>r. DeserializeLocationRequest host bs = Inr r \<and> (r = None \<longleftrightarrow> length bs < 12)) \<and>
   (\<exists>r. DeserializeTextMessage host bs = Inr r \<and>
     (r = None \<longleftrightarrow> length bs < 16 + (if length bs < 16 then 0 else unat (lsb_word (take 2 (drop 14 bs)) :: u16)))) \<and>
   (\<exists>r. DeserializeLocationReport host bs = Inr r \<and>
     (r = None \<longleftrightarrow> length bs < 10 + (if length bs < 10 then 0 else unat (lsb_word (take 2 (drop 8 bs)) :: u16)))) \<and>
   (\<exists>r. DeserializeSuperHeader host bs = Inr r \<and>
     (case r of
        None \<Rightarrow> length bs < 32
      | Some h \<Rightarrow> 32 \<le> length bs \<and>
          length (sh_sourceCall h) \<le> 10 \<and> 0 \<notin> set (sh_sourceCall h) \<and>
          length (sh_destinationCall h) \<le> 10 \<and> 0 \<notin> set (sh_destinationCall h)))"
proof (intro conjI)
  have "length (takeWhile P (take 10 xs)) \<le> 10" for P and xs :: bytes
    using length_takeWhile_le [of P "take 10 xs"] by simp
  then show "\<exists>r. DeserializeSuperHeader host bs = Inr r \<and>
     (case r of
        None \<Rightarrow> length bs < 32
      | Some h \<Rightarrow> 32 \<le> length bs \<and>
          length (sh_sourceCall h) \<le> 10 \<and> 0 \<notin> set (sh_sourceCall h) \<and>
          length (sh_destinationCall h) \<le> 10 \<and> 0 \<notin> set (sh_destinationCall h))"
    by (auto simp: SuperHeader_decoded dest: set_takeWhileD)
  show "\<exists>r. DeserializeHeader host bs = Inr r \<and> (r \<noteq> None \<longleftrightarrow> 18 \<le> length bs \<and> take 8 bs = PROTOCOL_SIGN)"
    by (auto simp: DeserializeHeader_def wire_simps read_bytes_def SIGN_LENGTH_def PROTOCOL_SIGN_def)
  show "\<exists>r. DeserializeTextMessage host bs = Inr r \<and>
     (r = None \<longleftrightarrow> length bs < 16 + (if length bs < 16 then 0 else unat (lsb_word (take 2 (drop 14 bs)) :: u16)))"
    using text_fields_returns [of host bs] by (auto simp: DeserializeTextMessage_returns)
qed (auto simp: VersionData_decoded DeserializeSubscription_def DeserializeSessionPoll_def
    TextMessageStatus_decoded LocationRequest_decoded LocationReport_decoded Let_def wire_simps)

text \<open>C37. The formats of variable length lose exactly what they must: the identity a client
  registers with is read back with its description up to trailing null characters, and a
  location report with its sentence up to the first null character, where the byte count wraps
  at 65536 and so drops a sentence of 65535 bytes.\<close>

theorem Variable_formats_roundtrip:
  "DeserializeVersionData host' (SerializeVersionData host v) =
    Inr (Some (v\<lparr>v_description := rev (dropWhile (\<lambda>b. b = 0) (rev (v_description v)))\<rparr>)) \<and>
   DeserializeLocationReport host' (SerializeLocationReport host r) =
    Inr (Some (r\<lparr>loc_nmea := takeWhile (\<lambda>b. b \<noteq> 0)
      (take (Suc (length (loc_nmea r)) mod 65536) (loc_nmea r @ [0]))\<rparr>))"
  using LocationReport_serialized by (simp add: VersionData_serialized pop_nulls_dropWhile)

text \<open>A text message whose text is well-formed UTF-8 of fewer than 32768 UTF-16 units arrives
  as it was sent, whatever the byte orders of the two hosts.\<close>

lemma TextMessage_roundtrip:
  assumes "sendable_text cps" and "text_text d = utf8_text cps"
  shows "andThen (SerializeTextMessage host d) (DeserializeTextMessage host') = Inr (Some d)"
  using assms by (rule TextMessage_sendable)

text \<open>C30. The byte count of a text message is 16 bits wide: of a text of \<open>n\<close> UTF-16 units the
  receiver gets the first \<open>n mod 32768\<close>, so 32768 units arrive as an empty text.\<close>

theorem TextMessage_truncated:
  assumes "Utf8ToUtf16 (text_text d) = Inr us"
  shows "andThen (SerializeTextMessage host d) (DeserializeTextMessage host') =
    Inr (Some (d\<lparr>text_text := utf8_text (utf16_points (take (length us mod 32768) us))\<rparr>))"
  using TextMessage_serialized [OF assms] by simp

theorem TextMessage_truncated_witness:
  "andThen (SerializeTextMessage Little
      \<lparr>text_sourceId = 1, text_destinationId = 91, text_isGroup = False,
       text_text = utf8_text (replicate 32768 0x41)\<rparr>) (DeserializeTextMessage Little) =
    Inr (Some \<lparr>text_sourceId = 1, text_destinationId = 91, text_isGroup = False, text_text = []\<rparr>)"
proof -
  have "Utf8ToUtf16 (utf8_text (replicate 32768 0x41)) = Inr (utf16_text (replicate 32768 0x41))"
    by (rule Utf8ToUtf16_of_text) (simp add: list_all_iff code_point_def)
  moreover have "length (utf16_text (replicate n 0x41)) = n" for n
    by (induction n) (simp_all add: utf16_text_def utf16_of_def)
  ultimately show ?thesis
    using TextMessage_truncated [of "\<lparr>text_sourceId = 1, text_destinationId = 91,
        text_isGroup = False, text_text = utf8_text (replicate 32768 0x41)\<rparr>"
        "utf16_text (replicate 32768 0x41)" Little Little]
    by (simp add: utf8_text_def)
qed


end
