(* ===== verification/Sha256.thy ===== *)
theory Sha256
  imports Endian
begin

text \<open>
  \<open>src/Sha256.cpp\<close>: the context, the compression of a block, the buffering of the input and
  the padding at the end, as the code does them on its arrays. \<open>ctx->data\<close>, the schedule
  \<open>m\<close> and the result are local arrays that start indeterminate. \<open>ctx->state\<close> is only
  accessed at the constants 0 to 7 and is a tuple.
\<close>

section \<open>Functions and constants\<close>

type_synonym sha_state = "u32 \<times> u32 \<times> u32 \<times> u32 \<times> u32 \<times> u32 \<times> u32 \<times> u32"

record Sha256Context =
  ctx_data :: "u8 cells"
  ctx_datalen :: u32
  ctx_bitlen :: u64
  ctx_state :: sha_state

definition ROTRIGHT :: "u32 \<Rightarrow> nat \<Rightarrow> u32" where
  "ROTRIGHT a b = drop_bit b a OR push_bit (32 - b) a"

definition CH :: "u32 \<Rightarrow> u32 \<Rightarrow> u32 \<Rightarrow> u32" where
  "CH x y z = (x AND y) XOR (NOT x AND z)"

definition MAJ :: "u32 \<Rightarrow> u32 \<Rightarrow> u32 \<Rightarrow> u32" where
  "MAJ x y z = (x AND y) XOR (x AND z) XOR (y AND z)"

definition EP0 :: "u32 \<Rightarrow> u32" where
  "EP0 x = ROTRIGHT x 2 XOR ROTRIGHT x 13 XOR ROTRIGHT x 22"

definition EP1 :: "u32 \<Rightarrow> u32" where
  "EP1 x = ROTRIGHT x 6 XOR ROTRIGHT x 11 XOR ROTRIGHT x 25"

definition SIG0 :: "u32 \<Rightarrow> u32" where
  "SIG0 x = ROTRIGHT x 7 XOR ROTRIGHT x 18 XOR drop_bit 3 x"

definition SIG1 :: "u32 \<Rightarrow> u32" where
  "SIG1 x = ROTRIGHT x 17 XOR ROTRIGHT x 19 XOR drop_bit 10 x"

definition sha_k :: "u32 list" where
  "sha_k = [
    0x428A2F98, 0x71374491, 0xB5C0FBCF, 0xE9B5DBA5, 0x3956C25B, 0x59F111F1, 0x923F82A4, 0xAB1C5ED5,
    0xD807AA98, 0x12835B01, 0x243185BE, 0x550C7DC3, 0x72BE5D74, 0x80DEB1FE, 0x9BDC06A7, 0xC19BF174,
    0xE49B69C1, 0xEFBE4786, 0x0FC19DC6, 0x240CA1CC, 0x2DE92C6F, 0x4A7484AA, 0x5CB0A9DC, 0x76F988DA,
    0x983E5152, 0xA831C66D, 0xB00327C8, 0xBF597FC7, 0xC6E00BF3, 0xD5A79147, 0x06CA6351, 0x14292967,
    0x27B70A85, 0x2E1B2138, 0x4D2C6DFC, 0x53380D13, 0x650A7354, 0x766A0ABB, 0x81C2C92E, 0x92722C85,
    0xA2BFE8A1, 0xA81A664B, 0xC24B8B70, 0xC76C51A3, 0xD192E819, 0xD6990624, 0xF40E3585, 0x106AA070,
    0x19A4C116, 0x1E376C08, 0x2748774C, 0x34B0BCB5, 0x391C0CB3, 0x4ED8AA4A, 0x5B9CCA4F, 0x682E6FF3,
    0x748F82EE, 0x78A5636F, 0x84C87814, 0x8CC70208, 0x90BEFFFA, 0xA4506CEB, 0xBEF9A3F7, 0xC67178F2]"

section \<open>The compression of a block\<close>

text \<open>The first loop: the sixteen big-endian words of the block.\<close>

definition load_word :: "u8 cells \<Rightarrow> nat \<Rightarrow> u32 cells \<Rightarrow> u32 cells cxx" where
  "load_word data i m =
    andThen (load_cell data (4 * i)) (\<lambda>b0.
    andThen (load_cell data (4 * i + 1)) (\<lambda>b1.
    andThen (load_cell data (4 * i + 2)) (\<lambda>b2.
    andThen (load_cell data (4 * i + 3)) (\<lambda>b3.
    store_cell m i (push_bit 24 (ucast b0) OR push_bit 16 (ucast b1) OR
                    push_bit 8 (ucast b2) OR ucast b3)))))"

text \<open>The second loop: the schedule.\<close>

definition extend_word :: "nat \<Rightarrow> u32 cells \<Rightarrow> u32 cells cxx" where
  "extend_word i m =
    andThen (load_cell m (i - 2)) (\<lambda>m2.
    andThen (load_cell m (i - 7)) (\<lambda>m7.
    andThen (load_cell m (i - 15)) (\<lambda>m15.
    andThen (load_cell m (i - 16)) (\<lambda>m16.
    store_cell m i (SIG1 m2 + m7 + SIG0 m15 + m16)))))"

text \<open>The body of the third loop, on the working variables.\<close>

definition sha_round :: "u32 \<Rightarrow> u32 \<Rightarrow> sha_state \<Rightarrow> sha_state" where
  "sha_round ki mi = (\<lambda>(a, b, c, d, e, f, g, h).
    let t1 = h + EP1 e + CH e f g + ki + mi;
        t2 = EP0 a + MAJ a b c
    in (t1 + t2, a, b, c, d + t1, e, f, g))"

definition add_state :: "sha_state \<Rightarrow> sha_state \<Rightarrow> sha_state" where
  "add_state = (\<lambda>(s0, s1, s2, s3, s4, s5, s6, s7) (a, b, c, d, e, f, g, h).
    (s0 + a, s1 + b, s2 + c, s3 + d, s4 + e, s5 + f, s6 + g, s7 + h))"

definition Sha256Transform :: "Sha256Context \<Rightarrow> u8 cells \<Rightarrow> Sha256Context cxx" where
  "Sha256Transform ctx data =
    andThen (for_each [0..<16] (load_word data) (fresh 64)) (\<lambda>m.
    andThen (for_each [16..<64] extend_word m) (\<lambda>m.
    andThen (for_each [0..<64] (\<lambda>i s.
        andThen (load sha_k i) (\<lambda>ki.
        andThen (load_cell m i) (\<lambda>mi. Inr (sha_round ki mi s)))) (ctx_state ctx)) (\<lambda>s.
    Inr (ctx\<lparr>ctx_state := add_state (ctx_state ctx) s\<rparr>))))"

section \<open>Buffering and padding\<close>

definition Sha256Init :: "Sha256Context \<Rightarrow> Sha256Context" where
  "Sha256Init ctx = ctx\<lparr>ctx_datalen := 0, ctx_bitlen := 0,
    ctx_state := (0x6A09E667, 0xBB67AE85, 0x3C6EF372, 0xA54FF53A,
                  0x510E527F, 0x9B05688C, 0x1F83D9AB, 0x5BE0CD19)\<rparr>"

definition update_byte :: "u8 \<Rightarrow> Sha256Context \<Rightarrow> Sha256Context cxx" where
  "update_byte b ctx =
    andThen (store_cell (ctx_data ctx) (unat (ctx_datalen ctx)) b) (\<lambda>d.
    let ctx = ctx\<lparr>ctx_data := d, ctx_datalen := ctx_datalen ctx + 1\<rparr>
    in if ctx_datalen ctx = 64
       then andThen (Sha256Transform ctx (ctx_data ctx)) (\<lambda>ctx.
              Inr (ctx\<lparr>ctx_bitlen := ctx_bitlen ctx + 512, ctx_datalen := 0\<rparr>))
       else Inr ctx)"

definition Sha256Update :: "Sha256Context \<Rightarrow> bytes \<Rightarrow> Sha256Context cxx" where
  "Sha256Update ctx data = for_each data update_byte ctx"

text \<open>\<open>data[i++] = 0x80; while (i < stop) data[i++] = 0x00;\<close>\<close>

definition pad_to :: "nat \<Rightarrow> nat \<Rightarrow> u8 cells \<Rightarrow> u8 cells cxx" where
  "pad_to i stop d =
    andThen (store_cell d i 0x80) (\<lambda>d.
    for_each [i + 1..<stop] (\<lambda>i d. store_cell d i 0x00) d)"

text \<open>The eight stores of the bit count, from \<open>data[63]\<close> down to \<open>data[56]\<close>.\<close>

definition store_bitlen :: "u64 \<Rightarrow> u8 cells \<Rightarrow> u8 cells cxx" where
  "store_bitlen n d =
    for_each [0..<8] (\<lambda>j d. store_cell d (63 - j) (ucast (drop_bit (8 * j) n))) d"

text \<open>The body of the loop that writes the digest: byte \<open>i\<close> of each state word.\<close>

definition hash_bytes :: "sha_state \<Rightarrow> nat \<Rightarrow> u8 cells \<Rightarrow> u8 cells cxx" where
  "hash_bytes s i hash =
    (let (s0, s1, s2, s3, s4, s5, s6, s7) = s
     in for_each [(0, s0), (4, s1), (8, s2), (12, s3), (16, s4), (20, s5), (24, s6), (28, s7)]
          (\<lambda>(k, w) hash. store_cell hash (i + k) (ucast (drop_bit (24 - i * 8) w AND 0x000000FF)))
          hash)"

definition Sha256Final :: "Sha256Context \<Rightarrow> u8 cells \<Rightarrow> u8 cells cxx" where
  "Sha256Final ctx hash =
    andThen
      (if ctx_datalen ctx < 56 then
         andThen (pad_to (unat (ctx_datalen ctx)) 56 (ctx_data ctx)) (\<lambda>d.
         Inr (ctx\<lparr>ctx_data := d\<rparr>))
       else
         andThen (pad_to (unat (ctx_datalen ctx)) 64 (ctx_data ctx)) (\<lambda>d.
         andThen (Sha256Transform (ctx\<lparr>ctx_data := d\<rparr>) d) (\<lambda>ctx.
         andThen (for_each [0..<56] (\<lambda>i d. store_cell d i 0) (ctx_data ctx)) (\<lambda>d.
         Inr (ctx\<lparr>ctx_data := d\<rparr>))))) (\<lambda>ctx.
    let ctx = ctx\<lparr>ctx_bitlen := ctx_bitlen ctx + ucast (ctx_datalen ctx * 8)\<rparr>
    in andThen (store_bitlen (ctx_bitlen ctx) (ctx_data ctx)) (\<lambda>d.
       andThen (Sha256Transform (ctx\<lparr>ctx_data := d\<rparr>) d) (\<lambda>ctx.
       for_each [0..<4] (hash_bytes (ctx_state ctx)) hash)))"

text \<open>The local context, before any initialisation; only its array needs to be indeterminate,
  since \<open>Sha256Init\<close> sets the rest.\<close>

definition local_context :: Sha256Context where
  "local_context = \<lparr>ctx_data = fresh 64, ctx_datalen = 0, ctx_bitlen = 0,
                    ctx_state = (0, 0, 0, 0, 0, 0, 0, 0)\<rparr>"

definition Sha256 :: "bytes \<Rightarrow> bytes cxx" where
  "Sha256 data =
    (let ctx = Sha256Init local_context
     in andThen (Sha256Update ctx data) (\<lambda>ctx.
        andThen (Sha256Final ctx (fresh 32)) cells_value))"

end
