(* ===== verification/Client.thy ===== *)
theory Client
  imports Common Types Protocol Sha256
begin

text \<open>
  The client engine: \<open>include/opendtp/Client.hpp\<close> and \<open>src/Client.cpp\<close>. One definition per
  member function and per completion handler, on a record of the members. What the client asks
  of Asio, of its thread and of the user's hooks is appended, in order, to the record's list of
  actions; what they answer (error codes, resolved endpoints, received datagrams) is an argument
  of the definition that gets the answer. An endpoint is only compared, so its type is a
  variable. A hook is an entry of the list, with the mutexes that are held while it runs: what
  the user's code does in it shows as later calls of the client.
\<close>

section \<open>Members\<close>

datatype State = DISCONNECTED | CONNECTING | AUTHENTICATING | CONNECTED

text \<open>\<open>std::error_code\<close>, as far as the code looks at it: is it \<open>operation_aborted\<close>, and its
  message. No error is \<open>None\<close>.\<close>

record error_code =
  ec_aborted :: bool
  ec_message :: string

text \<open>\<open>ec == asio::error::operation_aborted\<close>.\<close>

definition aborted :: "error_code option \<Rightarrow> bool" where
  "aborted ec = (case ec of None \<Rightarrow> False | Some e \<Rightarrow> ec_aborted e)"

datatype hook =
  onConnected | onDisconnected | onError | onDebugReport | onTextMessage | onTextMessageStatus
| onLocationRequest | onLocationReport | onVoiceHeader | onAudioFrame | onVoiceTerminator

datatype callback =
  OnConnected
| OnDisconnected ClientError
| OnError ClientError string
| OnDebugReport bytes
| OnTextMessage TextMessage
| OnTextMessageStatus u32 u32 u8
| OnLocationRequest u32 u32
| OnLocationReport GpsReport
| OnVoiceHeader u32 u32 bool
| OnAudioFrame AudioFrame
| OnVoiceTerminator

text \<open>\<open>Called cb connection write\<close>: the hook of \<open>cb\<close> was called, \<open>connectionMutex_\<close> and
  \<open>writeMutex_\<close> being held or not.\<close>

datatype 'ep action =
  SendTo bytes 'ep
| Called callback bool bool
| NotifyAll
| IoRestart | IoStop
| ThreadStarted | ThreadJoined
| ConnectTimer u32 | CancelConnectTimer
| KeepAliveTimer u32 | CancelKeepAliveTimer
| Resolve bytes u16 | CancelResolver
| OpenSocket 'ep | BindSocket | CloseSocket
| ReceiveFrom

record 'ep client =
  c_dmrId :: u32
  c_description :: bytes
  c_password :: bytes
  c_state :: State
  c_connectionMutex :: bool
  c_writeMutex :: bool
  c_lastError :: ClientError
  c_routineSeq :: u32
  c_realTimeSeq :: u32
  c_inCall :: bool
  socket_open :: bool
  c_serverEndpoint :: 'ep
  ioThread_joinable :: bool
  c_receiveBuffer :: bytes
  c_senderEndpoint :: 'ep
  hooks :: "hook \<Rightarrow> bool"
  sends :: nat
  actions :: "'ep action list"

text \<open>
  The environment of a run: the host's byte order and the results of \<open>send_to\<close>, which may
  depend on how many datagrams were sent before, on the datagram and on its destination.
\<close>

record 'ep env =
  host_order :: endian
  send_to :: "nat \<Rightarrow> bytes \<Rightarrow> 'ep \<Rightarrow> error_code option"

datatype thread = App | Io

text \<open>The constructor; the endpoints are default constructed.\<close>

definition new_client :: "u32 \<Rightarrow> bytes \<Rightarrow> 'ep \<Rightarrow> (hook \<Rightarrow> bool) \<Rightarrow> 'ep client" where
  "new_client dmrId description ep hks =
    \<lparr>c_dmrId = dmrId, c_description = description, c_password = [], c_state = DISCONNECTED,
     c_connectionMutex = False, c_writeMutex = False, c_lastError = SUCCESS,
     c_routineSeq = 0, c_realTimeSeq = 0, c_inCall = False, socket_open = False,
     c_serverEndpoint = ep, ioThread_joinable = False, c_receiveBuffer = replicate 1024 0,
     c_senderEndpoint = ep, hooks = hks, sends = 0, actions = []\<rparr>"

definition IsConnected :: "'ep client \<Rightarrow> bool" where
  "IsConnected c \<longleftrightarrow> c_state c = CONNECTED"

section \<open>Actions\<close>

definition act :: "'ep action \<Rightarrow> 'ep client \<Rightarrow> 'ep client" where
  "act a c = c\<lparr>actions := actions c @ [a]\<rparr>"

text \<open>\<open>if (hook) hook(...)\<close>.\<close>

definition call :: "hook \<Rightarrow> callback \<Rightarrow> 'ep client \<Rightarrow> 'ep client" where
  "call h cb c = (if hooks c h then act (Called cb (c_connectionMutex c) (c_writeMutex c)) c else c)"

section \<open>Sending\<close>

definition packet_bytes :: "endian \<Rightarrow> Header \<Rightarrow> bytes \<Rightarrow> bytes" where
  "packet_bytes host h payload = SerializeHeader host h @ payload"

definition TransmitRaw :: "'ep env \<Rightarrow> u16 \<Rightarrow> u16 \<Rightarrow> bytes \<Rightarrow> 'ep client \<Rightarrow> 'ep client" where
  "TransmitRaw env type flag payload c =
    (if \<not> socket_open c then c
     else
       let c = c\<lparr>c_writeMutex := True\<rparr>;
           isRealTime = (flag AND REAL_TIME_1 \<noteq> 0);
           seqNum = (if isRealTime then c_realTimeSeq c else c_routineSeq c);
           c = (if isRealTime then c\<lparr>c_realTimeSeq := c_realTimeSeq c + 1\<rparr>
                else c\<lparr>c_routineSeq := c_routineSeq c + 1\<rparr>);
           h = \<lparr>h_type = type, h_flags = flag, h_number = seqNum,
                h_length = of_nat (length payload)\<rparr>;
           packet = packet_bytes (host_order env) h payload;
           ec = send_to env (sends c) packet (c_serverEndpoint c);
           c = act (SendTo packet (c_serverEndpoint c)) (c\<lparr>sends := sends c + 1\<rparr>);
           c = (case ec of
                  None \<Rightarrow> c
                | Some e \<Rightarrow>
                    call onError (OnError SOCKET_IO (''Socket write error: '' @ ec_message e))
                      (c\<lparr>c_lastError := SOCKET_IO\<rparr>))
       in c\<lparr>c_writeMutex := False\<rparr>)"

definition SendKeepAlive :: "'ep env \<Rightarrow> 'ep client \<Rightarrow> 'ep client" where
  "SendKeepAlive env c =
    (let v = \<lparr>v_dmrId = c_dmrId c, v_service = OPEN_TERMINAL, v_description = c_description c\<rparr>;
         payload = SerializeVersionData (host_order env) v
     in TransmitRaw env KEEP_ALIVE NONE payload c)"

section \<open>Timers and the receive loop\<close>

definition StartKeepAliveTimer :: "'ep client \<Rightarrow> 'ep client" where
  "StartKeepAliveTimer c =
    (if c_state c \<noteq> CONNECTED then c else act (KeepAliveTimer KEEP_ALIVE_INTERVAL_SEC) c)"

text \<open>The handler of the timer's wait.\<close>

definition on_keep_alive :: "'ep env \<Rightarrow> error_code option \<Rightarrow> 'ep client \<Rightarrow> 'ep client" where
  "on_keep_alive env ec c =
    (if aborted ec \<or> c_state c \<noteq> CONNECTED then c
     else StartKeepAliveTimer (SendKeepAlive env c))"

definition StopKeepAliveTimer :: "'ep client \<Rightarrow> 'ep client" where
  "StopKeepAliveTimer c = act CancelKeepAliveTimer c"

definition StartReceiveLoop :: "'ep client \<Rightarrow> 'ep client" where
  "StartReceiveLoop c =
    (if c_state c = DISCONNECTED \<or> \<not> socket_open c then c else act ReceiveFrom c)"

section \<open>Disconnecting\<close>

definition Disconnect :: "'ep env \<Rightarrow> thread \<Rightarrow> 'ep client \<Rightarrow> 'ep client" where
  "Disconnect env this_thread c =
    (let c = (if c_state c \<noteq> DISCONNECTED then
                let c = c\<lparr>c_state := DISCONNECTED\<rparr>;
                    c = (if socket_open c then TransmitRaw env CLOSE NONE [] c else c);
                    c = StopKeepAliveTimer c;
                    c = act CancelConnectTimer c;
                    c = act CancelResolver c;
                    c = act CloseSocket (c\<lparr>socket_open := False\<rparr>);
                    c = act IoStop c
                in call onDisconnected (OnDisconnected (c_lastError c)) c
              else c)
     in if ioThread_joinable c \<and> this_thread \<noteq> Io
        then act ThreadJoined (c\<lparr>ioThread_joinable := False\<rparr>)
        else c)"

section \<open>Connecting\<close>

text \<open>Where the start of a connection may throw a \<open>std::exception\<close>: the constructor of the
  thread, arming the timer, starting the resolution. The text is \<open>e.what()\<close>.\<close>

datatype startup_point = ThreadStart | TimerStart | ResolveStart

definition startup_failed :: "string \<Rightarrow> 'ep client \<Rightarrow> ClientError \<times> 'ep client" where
  "startup_failed what c =
    (SOCKET_IO, (call onError
       (OnError SOCKET_IO (''Socket error during connection startup: '' @ what))
       (c\<lparr>c_state := DISCONNECTED\<rparr>))\<lparr>c_connectionMutex := False\<rparr>)"

text \<open>Assigning to a joinable \<open>std::thread\<close> calls \<open>std::terminate\<close>.\<close>

definition Connect :: "(startup_point \<Rightarrow> string option) \<Rightarrow> bytes \<Rightarrow> u16 \<Rightarrow> bytes \<Rightarrow> u32 \<Rightarrow>
    'ep client \<Rightarrow> (ClientError \<times> 'ep client) cxx" where
  "Connect throws host port password timeoutMs c =
    (if c_state c \<noteq> DISCONNECTED then Inr (ALREADY_CONNECTED, c)
     else
       let c = c\<lparr>c_connectionMutex := True, c_password := password, c_routineSeq := 0,
                 c_realTimeSeq := 0, c_inCall := False, c_lastError := SUCCESS\<rparr>;
           c = act IoRestart c
       in case throws ThreadStart of
            Some what \<Rightarrow> Inr (startup_failed what c)
          | None \<Rightarrow>
              if ioThread_joinable c then Inl Terminate
              else
                let c = act ThreadStarted (c\<lparr>ioThread_joinable := True\<rparr>);
                    c = c\<lparr>c_state := CONNECTING\<rparr>
                in case throws TimerStart of
                     Some what \<Rightarrow> Inr (startup_failed what c)
                   | None \<Rightarrow>
                       let c = act (ConnectTimer timeoutMs) c
                       in case throws ResolveStart of
                            Some what \<Rightarrow> Inr (startup_failed what c)
                          | None \<Rightarrow>
                              Inr (SUCCESS, (act (Resolve host port) c)\<lparr>c_connectionMutex := False\<rparr>))"

text \<open>The handler of the connection timeout.\<close>

definition on_connect_timeout :: "'ep env \<Rightarrow> error_code option \<Rightarrow> 'ep client \<Rightarrow> 'ep client" where
  "on_connect_timeout env ec c =
    (if aborted ec then c
     else
       let c = c\<lparr>c_connectionMutex := True\<rparr>;
           c = (if c_state c = CONNECTING \<or> c_state c = AUTHENTICATING then
                  let c = c\<lparr>c_lastError := RESPONSE_TIMEOUT\<rparr>;
                      c = call onError
                            (OnError RESPONSE_TIMEOUT ''Connection timed out during handshake'') c;
                      c = Disconnect env Io c
                  in act NotifyAll c
                else c)
       in c\<lparr>c_connectionMutex := False\<rparr>)"

text \<open>The three failures of the resolution handler share their shape.\<close>

definition resolve_failed :: "'ep env \<Rightarrow> ClientError \<Rightarrow> string \<Rightarrow> 'ep client \<Rightarrow> 'ep client" where
  "resolve_failed env err msg c =
    (let c = c\<lparr>c_lastError := err\<rparr>;
         c = call onError (OnError err msg) c;
         c = Disconnect env Io c
     in act NotifyAll c)"

text \<open>The handler of the resolution, with the results of \<open>open\<close> and \<open>bind\<close>.\<close>

definition on_resolve :: "'ep env \<Rightarrow> error_code option \<Rightarrow> 'ep list \<Rightarrow> error_code option \<Rightarrow>
    error_code option \<Rightarrow> 'ep client \<Rightarrow> 'ep client" where
  "on_resolve env ec endpoints openEc bindEc c =
    (let c = c\<lparr>c_connectionMutex := True\<rparr>;
         c = (if c_state c \<noteq> CONNECTING then c
              else case (ec, endpoints) of
                (Some e, _) \<Rightarrow>
                  resolve_failed env DNS_RESOLVE (''DNS resolution failed: '' @ ec_message e) c
              | (None, []) \<Rightarrow>
                  resolve_failed env DNS_RESOLVE
                    (''DNS resolution failed: '' @ ''No endpoints resolved'') c
              | (None, ep # _) \<Rightarrow>
                  let c = c\<lparr>c_serverEndpoint := ep\<rparr>;
                      c = act (OpenSocket ep) c
                  in case openEc of
                       Some e \<Rightarrow>
                         resolve_failed env SOCKET_IO (''Failed to open socket: '' @ ec_message e) c
                     | None \<Rightarrow>
                         let c = act BindSocket (c\<lparr>socket_open := True\<rparr>)
                         in case bindEc of
                              Some e \<Rightarrow>
                                resolve_failed env SOCKET_IO
                                  (''Failed to bind socket: '' @ ec_message e) c
                            | None \<Rightarrow> SendKeepAlive env (StartReceiveLoop c))
     in c\<lparr>c_connectionMutex := False\<rparr>)"

text \<open>
  \<open>ConnectSync\<close>: the start, and the wait for the connection. \<open>wakes\<close> holds the client at the
  moments when the waiting thread has the mutex and evaluates its condition, when it starts to
  wait and after each wake-up. The wait has no result (\<open>None\<close>) as long as the condition never
  held.
\<close>

fun wait_connected :: "'ep client list \<Rightarrow> ClientError option" where
  "wait_connected [] = None"
| "wait_connected (c # wakes) =
    (if c_state c = CONNECTED \<or> c_state c = DISCONNECTED then
       (if c_state c \<noteq> CONNECTED then
          Some (if c_lastError c \<noteq> SUCCESS then c_lastError c else RESPONSE_TIMEOUT)
        else Some SUCCESS)
     else wait_connected wakes)"

definition ConnectSync :: "(startup_point \<Rightarrow> string option) \<Rightarrow> bytes \<Rightarrow> u16 \<Rightarrow> bytes \<Rightarrow> u32 \<Rightarrow>
    'ep client list \<Rightarrow> 'ep client \<Rightarrow> ClientError option cxx" where
  "ConnectSync throws host port password timeoutMs wakes c =
    andThen (Connect throws host port password timeoutMs c) (\<lambda>(startErr, c).
    if startErr \<noteq> SUCCESS then Inr (Some startErr) else Inr (wait_connected wakes))"

section \<open>Receiving\<close>

text \<open>A \<open>std::span\<close> of \<open>n\<close> elements from \<open>offset\<close> on, which have to exist.\<close>

definition subspan :: "bytes \<Rightarrow> nat \<Rightarrow> nat \<Rightarrow> bytes cxx" where
  "subspan xs offset n =
    (if offset + n \<le> length xs then Inr (take n (drop offset xs)) else Inl UB)"

text \<open>The cases of the \<open>switch\<close> in \<open>ProcessPacket\<close>, in the order of the source.\<close>

definition handle_challenge :: "'ep env \<Rightarrow> bytes \<Rightarrow> 'ep client \<Rightarrow> 'ep client cxx" where
  "handle_challenge env payload c =
    (if c_state c = CONNECTING then
       let c = c\<lparr>c_state := AUTHENTICATING\<rparr>;
           hashBuf = payload @ c_password c
       in andThen (Sha256 hashBuf) (\<lambda>digest.
          Inr (TransmitRaw env AUTHENTICATION NONE digest c))
     else Inr c)"

definition handle_keep_alive :: "u16 \<Rightarrow> 'ep client \<Rightarrow> 'ep client" where
  "handle_keep_alive len c =
    (if len = 0 then
       if c_state c = AUTHENTICATING then
         let c = c\<lparr>c_state := CONNECTED\<rparr>;
             c = act CancelConnectTimer c;
             c = StartKeepAliveTimer c;
             c = c\<lparr>c_connectionMutex := True\<rparr>;
             c = act NotifyAll c;
             c = c\<lparr>c_connectionMutex := False\<rparr>
         in call onConnected OnConnected c
       else c
     else c)"

definition handle_text :: "'ep env \<Rightarrow> bytes \<Rightarrow> 'ep client \<Rightarrow> 'ep client cxx" where
  "handle_text env payload c =
    andThen (DeserializeTextMessage (host_order env) payload) (\<lambda>textOpt.
    case textOpt of
      None \<Rightarrow> Inr c
    | Some t \<Rightarrow> Inr (call onTextMessage (OnTextMessage
        \<lparr>sourceId = text_sourceId t, destinationId = text_destinationId t,
         isGroup = text_isGroup t, message_text = text_text t\<rparr>) c))"

definition handle_status :: "'ep env \<Rightarrow> bytes \<Rightarrow> 'ep client \<Rightarrow> 'ep client cxx" where
  "handle_status env payload c =
    andThen (DeserializeTextMessageStatus (host_order env) payload) (\<lambda>statusOpt.
    case statusOpt of
      None \<Rightarrow> Inr c
    | Some s \<Rightarrow> Inr (call onTextMessageStatus
        (OnTextMessageStatus (status_sourceId s) (status_destinationId s) (status_status s)) c))"

definition handle_location_request :: "'ep env \<Rightarrow> bytes \<Rightarrow> 'ep client \<Rightarrow> 'ep client cxx" where
  "handle_location_request env payload c =
    andThen (DeserializeLocationRequest (host_order env) payload) (\<lambda>reqOpt.
    case reqOpt of
      None \<Rightarrow> Inr c
    | Some r \<Rightarrow> Inr (call onLocationRequest (OnLocationRequest (req_type r) (req_interval r)) c))"

definition handle_location_report :: "'ep env \<Rightarrow> bytes \<Rightarrow> 'ep client \<Rightarrow> 'ep client cxx" where
  "handle_location_report env payload c =
    andThen (DeserializeLocationReport (host_order env) payload) (\<lambda>reportOpt.
    case reportOpt of
      None \<Rightarrow> Inr c
    | Some r \<Rightarrow> Inr (call onLocationReport
        (OnLocationReport \<lparr>gps_format = loc_format r, gps_nmea = loc_nmea r\<rparr>) c))"

text \<open>\<open>(b2 << 16) | (b1 << 8) | b0\<close>, an id in the link control structure.\<close>

definition id24 :: "u8 \<Rightarrow> u8 \<Rightarrow> u8 \<Rightarrow> u32" where
  "id24 b2 b1 b0 = push_bit 16 (ucast b2) OR push_bit 8 (ucast b1) OR ucast b0"

definition handle_voice_header :: "bytes \<Rightarrow> 'ep client \<Rightarrow> 'ep client cxx" where
  "handle_voice_header payload c =
    (if length payload \<ge> 12 \<and> hooks c onVoiceHeader then
       andThen (load payload 3) (\<lambda>p3. andThen (load payload 4) (\<lambda>p4.
       andThen (load payload 5) (\<lambda>p5. andThen (load payload 6) (\<lambda>p6.
       andThen (load payload 7) (\<lambda>p7. andThen (load payload 8) (\<lambda>p8.
       andThen (load payload 0) (\<lambda>p0.
       let destId = id24 p3 p4 p5;
           srcId = id24 p6 p7 p8;
           isGroup = (p0 AND 0x3F \<noteq> 0x03)
       in Inr (call onVoiceHeader (OnVoiceHeader srcId destId isGroup) c))))))))
     else Inr c)"

definition handle_default :: "Header \<Rightarrow> bytes \<Rightarrow> 'ep client \<Rightarrow> 'ep client cxx" where
  "handle_default header payload c =
    (let typeRaw = h_type header
     in if typeRaw = DMR_DATA_BASE + 1 then handle_voice_header payload c
        else if typeRaw = DMR_DATA_BASE + 2 then Inr (call onVoiceTerminator OnVoiceTerminator c)
        else if h_type header = DMR_AUDIO_FRAME then
          Inr (call onAudioFrame
            (OnAudioFrame \<lparr>sequenceNumber = h_number header, ambeData = payload\<rparr>) c)
        else Inr c)"

text \<open>The \<open>switch\<close>.\<close>

definition dispatch :: "'ep env \<Rightarrow> Header \<Rightarrow> bytes \<Rightarrow> 'ep client \<Rightarrow> 'ep client cxx" where
  "dispatch env header payload c =
    (if h_type header = CHALLENGE then handle_challenge env payload c
     else if h_type header = KEEP_ALIVE then Inr (handle_keep_alive (h_length header) c)
     else if h_type header = REPORT then Inr (call onDebugReport (OnDebugReport payload) c)
     else if h_type header = MESSAGE_TEXT then handle_text env payload c
     else if h_type header = MESSAGE_STATUS then handle_status env payload c
     else if h_type header = LOCATION_REQUEST then handle_location_request env payload c
     else if h_type header = LOCATION_REPORT then handle_location_report env payload c
     else handle_default header payload c)"

definition ProcessPacket :: "'ep env \<Rightarrow> bytes \<Rightarrow> 'ep client \<Rightarrow> 'ep client cxx" where
  "ProcessPacket env packet c =
    andThen (DeserializeHeader (host_order env) packet) (\<lambda>headerOpt.
    case headerOpt of
      None \<Rightarrow> Inr c
    | Some header \<Rightarrow>
        if length packet < 18 + unat (h_length header) then Inr c
        else andThen (subspan packet 18 (unat (h_length header))) (\<lambda>payload.
          dispatch env header payload c))"

text \<open>The completion of a receive. Asio has written the datagram to \<open>receiveBuffer_\<close> and its
  sender to \<open>senderEndpoint_\<close>.\<close>

definition HandleReceive :: "'ep env \<Rightarrow> error_code option \<Rightarrow> nat \<Rightarrow> 'ep client \<Rightarrow> 'ep client cxx" where
  "HandleReceive env ec bytesTransferred c =
    (if c_state c = DISCONNECTED then Inr c
     else case ec of
       Some e \<Rightarrow>
         if \<not> aborted ec then
           let c = c\<lparr>c_lastError := SOCKET_IO\<rparr>;
               c = call onError (OnError SOCKET_IO (''Socket read error: '' @ ec_message e)) c
           in Inr (Disconnect env Io c)
         else Inr c
     | None \<Rightarrow>
         andThen
           (if bytesTransferred > 0 then
              if c_senderEndpoint c = c_serverEndpoint c then
                andThen (subspan (c_receiveBuffer c) 0 bytesTransferred) (\<lambda>packet.
                ProcessPacket env packet c)
              else Inr c
            else Inr c)
           (\<lambda>c. Inr (StartReceiveLoop c)))"

section \<open>Requests of the application\<close>

definition Subscribe :: "'ep env \<Rightarrow> u32 \<Rightarrow> 'ep client \<Rightarrow> 'ep client" where
  "Subscribe env talkgroup c =
    (if c_state c \<noteq> CONNECTED then c
     else
       let data = \<lparr>sub_type = SESSION_TYPE_GROUP_VOICE, sub_number = talkgroup\<rparr>;
           payload = SerializeSubscription (host_order env) data
       in TransmitRaw env SUBSCRIPTION NONE payload c)"

definition Unsubscribe :: "'ep env \<Rightarrow> u32 \<Rightarrow> 'ep client \<Rightarrow> 'ep client" where
  "Unsubscribe env talkgroup c =
    (if c_state c \<noteq> CONNECTED then c
     else
       let data = \<lparr>sub_type = SESSION_TYPE_GROUP_VOICE, sub_number = talkgroup\<rparr>;
           payload = SerializeSubscription (host_order env) data
       in TransmitRaw env CANCELLING NONE payload c)"

text \<open>The 12 bytes of the link control header.\<close>

definition voice_header :: "u32 \<Rightarrow> u32 \<Rightarrow> bool \<Rightarrow> bytes" where
  "voice_header source destination forGroup =
    (let header = replicate 12 0;
         header = header[0 := if forGroup then 0x00 else 0x03];
         header = header[1 := 0x00];
         header = header[2 := 0x00];
         header = header[3 := ucast (drop_bit 16 destination AND 0xFF)];
         header = header[4 := ucast (drop_bit 8 destination AND 0xFF)];
         header = header[5 := ucast (destination AND 0xFF)];
         header = header[6 := ucast (drop_bit 16 source AND 0xFF)];
         header = header[7 := ucast (drop_bit 8 source AND 0xFF)];
         header = header[8 := ucast (source AND 0xFF)];
         header = header[9 := 0x00];
         header = header[10 := 0x00];
         header = header[11 := 0x00]
     in header)"

definition StartVoiceCall :: "'ep env \<Rightarrow> u32 \<Rightarrow> u32 \<Rightarrow> bool \<Rightarrow> 'ep client \<Rightarrow> 'ep client" where
  "StartVoiceCall env source destination forGroup c =
    (if c_state c \<noteq> CONNECTED then c
     else
       let c = c\<lparr>c_inCall := True, c_realTimeSeq := 0\<rparr>;
           header = voice_header source destination forGroup;
           c = TransmitRaw env (DMR_DATA_BASE + 1) REAL_TIME_1 header c;
           c = TransmitRaw env (DMR_DATA_BASE + 1) REAL_TIME_1 header c
       in TransmitRaw env (DMR_DATA_BASE + 1) REAL_TIME_1 header c)"

definition SendAudioFrame :: "'ep env \<Rightarrow> bytes \<Rightarrow> 'ep client \<Rightarrow> 'ep client" where
  "SendAudioFrame env ambe c =
    (if c_state c \<noteq> CONNECTED \<or> \<not> c_inCall c then c
     else TransmitRaw env DMR_AUDIO_FRAME REAL_TIME_1 ambe c)"

definition EndVoiceCall :: "'ep env \<Rightarrow> 'ep client \<Rightarrow> 'ep client" where
  "EndVoiceCall env c =
    (if c_state c \<noteq> CONNECTED \<or> \<not> c_inCall c then c
     else (TransmitRaw env (DMR_DATA_BASE + 2) REAL_TIME_1 [] c)\<lparr>c_inCall := False\<rparr>)"

definition SendTextMessage :: "'ep env \<Rightarrow> u32 \<Rightarrow> bool \<Rightarrow> bytes \<Rightarrow> 'ep client \<Rightarrow> 'ep client cxx" where
  "SendTextMessage env destination forGroup txt c =
    (if c_state c \<noteq> CONNECTED then Inr c
     else
       let data = \<lparr>text_sourceId = c_dmrId c, text_destinationId = destination,
                   text_isGroup = forGroup, text_text = txt\<rparr>
       in andThen (SerializeTextMessage (host_order env) data) (\<lambda>payload.
          Inr (TransmitRaw env MESSAGE_TEXT NONE payload c)))"

definition SendLocationReport :: "'ep env \<Rightarrow> bytes \<Rightarrow> 'ep client \<Rightarrow> 'ep client" where
  "SendLocationReport env nmeaSentence c =
    (if c_state c \<noteq> CONNECTED then c
     else
       let data = \<lparr>loc_format = 0, loc_nmea = nmeaSentence\<rparr>;
           payload = SerializeLocationReport (host_order env) data
       in TransmitRaw env LOCATION_REPORT NONE payload c)"

text \<open>The destructor.\<close>

definition destroy :: "'ep env \<Rightarrow> 'ep client \<Rightarrow> 'ep client" where
  "destroy env c = Disconnect env App c"

end
