(* ===== verification/Sha256_Spec.thy ===== *)
theory Sha256_Spec
  imports Sha256
begin

text \<open>
  SHA-256 as FIPS 180-4 defines it: the padded message, cut into blocks, folded over the
  compression function. It shares with the code's model only the type of a state: the constants
  are the fractional bits of the roots of primes that the standard says they are,
  rotations are the word library's, the message schedule is a recursion on its index, and
  there is no buffer. \<open>Sha256_Correct\<close> proves the code computes it.
\<close>

text \<open>Words of the message and bytes of the digest are big-endian.\<close>

definition be_word :: "bytes \<Rightarrow> u32" where
  "be_word bs = lsb_word (rev bs)"

definition be_bytes :: "'a::len word \<Rightarrow> bytes" where
  "be_bytes w = rev (lsb_bytes w)"

text \<open>FIPS 180-4, section 4.1.2.\<close>

definition Ch :: "u32 \<Rightarrow> u32 \<Rightarrow> u32 \<Rightarrow> u32" where
  "Ch x y z = (x AND y) XOR (NOT x AND z)"

definition Maj :: "u32 \<Rightarrow> u32 \<Rightarrow> u32 \<Rightarrow> u32" where
  "Maj x y z = (x AND y) XOR (x AND z) XOR (y AND z)"

definition Sigma0 :: "u32 \<Rightarrow> u32" where
  "Sigma0 x = word_rotr 2 x XOR word_rotr 13 x XOR word_rotr 22 x"

definition Sigma1 :: "u32 \<Rightarrow> u32" where
  "Sigma1 x = word_rotr 6 x XOR word_rotr 11 x XOR word_rotr 25 x"

definition sigma0 :: "u32 \<Rightarrow> u32" where
  "sigma0 x = word_rotr 7 x XOR word_rotr 18 x XOR drop_bit 3 x"

definition sigma1 :: "u32 \<Rightarrow> u32" where
  "sigma1 x = word_rotr 17 x XOR word_rotr 19 x XOR drop_bit 10 x"

text \<open>Section 4.2.2: the constants are the first 32 bits of the fractional parts of the cube roots
  of the first 64 primes. \<open>root_floor k n\<close> is the \<open>k\<close>-th root of \<open>n\<close>, rounded down.\<close>

definition root_floor :: "nat \<Rightarrow> nat \<Rightarrow> nat" where
  "root_floor k n = (GREATEST m. m ^ k \<le> n)"

definition first_primes :: "nat list" where
  "first_primes = [
     2, 3, 5, 7, 11, 13, 17, 19, 23, 29, 31, 37, 41, 43, 47, 53,
     59, 61, 67, 71, 73, 79, 83, 89, 97, 101, 103, 107, 109, 113, 127, 131,
     137, 139, 149, 151, 157, 163, 167, 173, 179, 181, 191, 193, 197, 199, 211, 223,
     227, 229, 233, 239, 241, 251, 257, 263, 269, 271, 277, 281, 283, 293, 307, 311]"

definition round_constant :: "nat \<Rightarrow> u32" where
  "round_constant t = of_nat (root_floor 3 (first_primes ! t * 2 ^ 96))"

text \<open>Section 6.2.2: the message schedule by recursion on its index, the rounds, the new hash.\<close>

function sched :: "bytes \<Rightarrow> nat \<Rightarrow> u32" where
  "sched block t =
    (if t < 16 then be_word (take 4 (drop (4 * t) block))
     else sigma1 (sched block (t - 2)) + sched block (t - 7) +
          sigma0 (sched block (t - 15)) + sched block (t - 16))"
  by pat_completeness auto
termination by (relation "measure snd") auto

declare sched.simps [simp del]

definition round_spec :: "bytes \<Rightarrow> nat \<Rightarrow> sha_state \<Rightarrow> sha_state" where
  "round_spec block t = (\<lambda>(a, b, c, d, e, f, g, h).
    let T1 = h + Sigma1 e + Ch e f g + round_constant t + sched block t;
        T2 = Sigma0 a + Maj a b c
    in (T1 + T2, a, b, c, d + T1, e, f, g))"

definition compress :: "sha_state \<Rightarrow> bytes \<Rightarrow> sha_state" where
  "compress H block =
    (case (fold (round_spec block) [0..<64] H, H) of
       ((a, b, c, d, e, f, g, h), (h0, h1, h2, h3, h4, h5, h6, h7)) \<Rightarrow>
         (a + h0, b + h1, c + h2, d + h3, e + h4, f + h5, g + h6, h + h7))"

text \<open>The iteration over the blocks of a padded message.\<close>

function digest_blocks :: "sha_state \<Rightarrow> bytes \<Rightarrow> sha_state" where
  "digest_blocks H bs =
    (if length bs < 64 then H else digest_blocks (compress H (take 64 bs)) (drop 64 bs))"
  by pat_completeness auto
termination by (relation "measure (\<lambda>(_, bs). length bs)") auto

declare digest_blocks.simps [simp del]

text \<open>Section 5.1.1: a one bit, the fewest zeros that fill the block, the length in bits.\<close>

definition padding :: "nat \<Rightarrow> bytes" where
  "padding n = 0x80 # replicate ((119 - n mod 64) mod 64) 0 @ be_bytes (of_nat (8 * n) :: u64)"

text \<open>Section 5.3.3: the first hash, from the square roots of the first eight primes.\<close>

definition H_init :: "nat \<Rightarrow> u32" where
  "H_init i = of_nat (root_floor 2 (first_primes ! i * 2 ^ 64))"

definition H0 :: sha_state where
  "H0 = (H_init 0, H_init 1, H_init 2, H_init 3, H_init 4, H_init 5, H_init 6, H_init 7)"

definition state_bytes :: "sha_state \<Rightarrow> bytes" where
  "state_bytes = (\<lambda>(s0, s1, s2, s3, s4, s5, s6, s7).
    concat (map be_bytes [s0, s1, s2, s3, s4, s5, s6, s7]))"

definition sha256 :: "bytes \<Rightarrow> bytes" where
  "sha256 msg = state_bytes (digest_blocks H0 (msg @ padding (length msg)))"

end
