(* ===== verification/Sha256_Correct.thy ===== *)
theory Sha256_Correct
  imports Sha256_Spec
begin

text \<open>
  The code of \<open>Sha256\<close> computes the function of \<open>Sha256_Spec\<close>. One lemma per loop shows
  that it only touches written cells and what it leaves in them; the invariant \<open>buffers\<close>
  relates the context to the input consumed so far; the two branches of \<open>Sha256Final\<close> are
  the two cases of the padding.
\<close>

section \<open>Padding\<close>

lemma zeros_count:
  fixes r :: nat
  shows "r < 56 \<Longrightarrow> (119 - r) mod 64 = 55 - r" "56 \<le> r \<Longrightarrow> r < 64 \<Longrightarrow> (119 - r) mod 64 = 119 - r"
proof -
  assume "r < 56"
  then have "119 - r = 64 + (55 - r)" "55 - r < 64" by simp_all
  then show "(119 - r) mod 64 = 55 - r" by (simp only: mod_add_self1 mod_less)
next
  assume "56 \<le> r"
  then have "119 - r < 64" by simp
  then show "(119 - r) mod 64 = 119 - r" by (rule mod_less)
qed

lemma length_padding: 
  "length (padding n) = (if n mod 64 < 56 then 64 - n mod 64 else 128 - n mod 64)"
proof -
  have eq: "length (padding n) = Suc ((119 - n mod 64) mod 64 + 8)"
    by (simp add: padding_def be_bytes_def)
  have "Suc ((119 - r) mod 64 + 8) = (if r < 56 then 64 - r else 128 - r)" if "r < 64" for r :: nat
    using that zeros_count [of r] by (cases "r < 56") auto
  from this [of "n mod 64"] show ?thesis unfolding eq by simp
qed

section \<open>The compression function\<close>

lemma ROTRIGHT_rotr:
  assumes "0 < b" "b < 32"
  shows "ROTRIGHT a b = word_rotr b a"
proof (rule bit_word_eqI)
  fix n assume n: "n < LENGTH(32)"
  show "bit (ROTRIGHT a b) n \<longleftrightarrow> bit (word_rotr b a) n"
  proof (cases "n + b < 32")
    case True
    with n assms show ?thesis by (auto simp: ROTRIGHT_def bit_simps ac_simps)
  next
    case False
    then have "(n + b) mod 32 = n - (32 - b)" using n assms by (simp add: mod_if)
    moreover have "\<not> bit a (n + b)" using False bit_imp_le_length [of a "n + b"] by auto
    ultimately show ?thesis
      using n assms False by (auto simp: ROTRIGHT_def bit_simps ac_simps)
  qed
qed

lemma sha_functions:
  "EP0 = Sigma0" "EP1 = Sigma1" "SIG0 = sigma0" "SIG1 = sigma1" "CH = Ch" "MAJ = Maj"
  by (intro ext, simp add: EP0_def EP1_def SIG0_def SIG1_def CH_def MAJ_def Sigma0_def Sigma1_def
      sigma0_def sigma1_def Ch_def Maj_def ROTRIGHT_rotr; fail)+

lemma be_word_shifts:
  "push_bit 24 (ucast b0) OR push_bit 16 (ucast b1) OR push_bit 8 (ucast b2) OR ucast b3 =
    be_word [b0, b1, b2, b3]"
  by (simp add: be_word_def push_bit_or ac_simps)


text \<open>The array of the schedule after \<open>n\<close> steps.\<close>

definition filled :: "bytes \<Rightarrow> nat \<Rightarrow> u32 cells" where
  "filled block n = map (\<lambda>t. Some (sched block t)) [0..<n] @ fresh (64 - n)"

lemma length_filled [simp]: "n \<le> 64 \<Longrightarrow> length (filled block n) = 64"
  by (simp add: filled_def)

lemma filled_nth: "t < n \<Longrightarrow> filled block n ! t = Some (sched block t)"
  by (simp add: filled_def nth_append)

lemma filled_store: "n < 64 \<Longrightarrow> store_cell (filled block n) n (sched block n) = Inr (filled block (Suc n))"
proof -
  assume n: "n < 64"
  then have "fresh (64 - n) = None # (fresh (64 - Suc n) :: u32 cells)"
    by (simp add: fresh_def Suc_diff_Suc flip: replicate_Suc)
  with n show ?thesis
    by (simp add: store_cell_ok) (simp add: filled_def list_update_append)
qed

lemma take4: 
  assumes "k + 4 \<le> length xs"
  shows "take 4 (drop k xs) = [xs ! k, xs ! (k + 1), xs ! (k + 2), xs ! (k + 3)]"
proof (rule nth_equalityI)
  fix i assume "i < length (take 4 (drop k xs))"
  then have "i = 0 \<or> i = 1 \<or> i = 2 \<or> i = 3" by auto
  with assms show "take 4 (drop k xs) ! i = [xs ! k, xs ! (k + 1), xs ! (k + 2), xs ! (k + 3)] ! i"
    by auto
qed (use assms in simp)

lemma load_word_step:
  assumes "length block = 64" "i < 16"
  shows "load_word (map Some block) i (filled block i) = Inr (filled block (Suc i))"
proof -
  have "sched block i = be_word [block ! (4 * i), block ! (4 * i + 1), block ! (4 * i + 2), block ! (4 * i + 3)]"
    using assms by (simp add: sched.simps [of block i] take4)
  moreover have "load_cell (map Some block) (4 * i + k) = Inr (block ! (4 * i + k))" if "k < 4" for k
    using that assms by (simp add: load_cell_ok)
  from this [of 0] this [of 1] this [of 2] this [of 3]
  have "load_word (map Some block) i m = store_cell m i
     (be_word [block ! (4 * i), block ! (4 * i + 1), block ! (4 * i + 2), block ! (4 * i + 3)])" for m
    by (simp add: load_word_def be_word_shifts)
  ultimately show ?thesis using filled_store [of i block] assms by simp
qed

lemma extend_word_step:
  assumes "16 \<le> i" "i < 64"
  shows "extend_word i (filled block i) = Inr (filled block (Suc i))"
proof -
  have "load_cell (filled block i) (i - k) = Inr (sched block (i - k))" if "0 < k" "k \<le> 16" for k
    using that assms by (simp add: load_cell_ok filled_nth)
  then have "extend_word i (filled block i) = store_cell (filled block i) i (sched block i)"
    using assms by (simp add: extend_word_def sha_functions sched.simps [of block i])
  then show ?thesis using assms by (simp add: filled_store)
qed

lemma schedule_loops:
  "length block = 64 \<Longrightarrow>
    for_each [0..<16] (load_word (map Some block)) (fresh 64) = Inr (filled block 16)"
  "for_each [16..<64] extend_word (filled block 16) = Inr (filled block 64)"
proof -
  have "filled block 0 = fresh 64" by (simp add: filled_def)
  then show "length block = 64 \<Longrightarrow>
      for_each [0..<16] (load_word (map Some block)) (fresh 64) = Inr (filled block 16)"
    using for_each_steps [of 0 16 "load_word (map Some block)" "filled block"] load_word_step
    by simp
  show "for_each [16..<64] extend_word (filled block 16) = Inr (filled block 64)"
    using for_each_steps [of 16 64 extend_word "filled block"] extend_word_step by simp
qed

text \<open>The table of the code holds the constants of the standard.\<close>

lemma root_floor_eqI: "m ^ k \<le> n \<Longrightarrow> n < (m + 1) ^ k \<Longrightarrow> root_floor k n = m"
  unfolding root_floor_def
  by (rule Greatest_equality, assumption)
    (metis Suc_eq_plus1 le_less_trans less_Suc_eq_le power_less_imp_less_base zero_le)

definition cube_roots :: "nat list" where
  "cube_roots = [
     0x1428A2F98, 0x171374491, 0x1B5C0FBCF, 0x1E9B5DBA5, 0x23956C25B, 0x259F111F1, 0x2923F82A4, 0x2AB1C5ED5,
     0x2D807AA98, 0x312835B01, 0x3243185BE, 0x3550C7DC3, 0x372BE5D74, 0x380DEB1FE, 0x39BDC06A7, 0x3C19BF174,
     0x3E49B69C1, 0x3EFBE4786, 0x40FC19DC6, 0x4240CA1CC, 0x42DE92C6F, 0x44A7484AA, 0x45CB0A9DC, 0x476F988DA,
     0x4983E5152, 0x4A831C66D, 0x4B00327C8, 0x4BF597FC7, 0x4C6E00BF3, 0x4D5A79147, 0x506CA6351, 0x514292967,
     0x527B70A85, 0x52E1B2138, 0x54D2C6DFC, 0x553380D13, 0x5650A7354, 0x5766A0ABB, 0x581C2C92E, 0x592722C85,
     0x5A2BFE8A1, 0x5A81A664B, 0x5C24B8B70, 0x5C76C51A3, 0x5D192E819, 0x5D6990624, 0x5F40E3585, 0x6106AA070,
     0x619A4C116, 0x61E376C08, 0x62748774C, 0x634B0BCB5, 0x6391C0CB3, 0x64ED8AA4A, 0x65B9CCA4F, 0x6682E6FF3,
     0x6748F82EE, 0x678A5636F, 0x684C87814, 0x68CC70208, 0x690BEFFFA, 0x6A4506CEB, 0x6BEF9A3F7, 0x6C67178F2]"

lemma cube_roots_ok:
  "list_all2 (\<lambda>m p. m ^ 3 \<le> p * 2 ^ 96 \<and> p * 2 ^ 96 < (m + 1) ^ 3) cube_roots first_primes"
  by (simp add: cube_roots_def first_primes_def)

lemma cube_roots_sha_k: "map of_nat cube_roots = sha_k"
  by (simp add: cube_roots_def sha_k_def)

lemma length_sha_k [simp]: "length sha_k = 64"
  by (simp add: sha_k_def)

lemma sha_k_standard: "t < 64 \<Longrightarrow> sha_k ! t = round_constant t"
proof -
  assume t: "t < 64"
  have len: "length cube_roots = 64" using length_sha_k cube_roots_sha_k by (metis length_map)
  with t cube_roots_ok have "root_floor 3 (first_primes ! t * 2 ^ 96) = cube_roots ! t"
    by (intro root_floor_eqI) (auto simp: list_all2_conv_all_nth)
  moreover have "sha_k ! t = of_nat (cube_roots ! t)" using t len by (simp flip: cube_roots_sha_k)
  ultimately show ?thesis by (simp add: round_constant_def)
qed

lemma H0_values: "H0 = (0x6A09E667, 0xBB67AE85, 0x3C6EF372, 0xA54FF53A,
    0x510E527F, 0x9B05688C, 0x1F83D9AB, 0x5BE0CD19)"
proof -
  have "root_floor 2 (2 * 2 ^ 64) = 0x16A09E667" "root_floor 2 (3 * 2 ^ 64) = 0x1BB67AE85"
    "root_floor 2 (5 * 2 ^ 64) = 0x23C6EF372" "root_floor 2 (7 * 2 ^ 64) = 0x2A54FF53A"
    "root_floor 2 (11 * 2 ^ 64) = 0x3510E527F" "root_floor 2 (13 * 2 ^ 64) = 0x39B05688C"
    "root_floor 2 (17 * 2 ^ 64) = 0x41F83D9AB" "root_floor 2 (19 * 2 ^ 64) = 0x45BE0CD19"
    by (simp_all add: root_floor_eqI)
  then show ?thesis by (simp add: H0_def H_init_def first_primes_def)
qed

lemma rounds_loop:
  "for_each [0..<64] (\<lambda>i s. andThen (load sha_k i) (\<lambda>ki.
      andThen (load_cell (filled block 64) i) (\<lambda>mi. Inr (sha_round ki mi s)))) s =
   Inr (fold (round_spec block) [0..<64] s)"
proof -
  have "andThen (load sha_k i) (\<lambda>ki. andThen (load_cell (filled block 64) i)
      (\<lambda>mi. Inr (sha_round ki mi s))) = Inr (round_spec block i s)" if "i < 64" for i s
    using that by (simp add: load_ok load_cell_ok filled_nth sha_round_def round_spec_def sha_functions sha_k_standard)
  then show ?thesis
    using for_each_fold [of "\<lambda>_. True" s "[0..<64]"] by auto
qed

lemma add_state_cases: "add_state H s =
    (case (s, H) of ((a, b, c, d, e, f, g, h), (h0, h1, h2, h3, h4, h5, h6, h7)) \<Rightarrow>
      (a + h0, b + h1, c + h2, d + h3, e + h4, f + h5, g + h6, h + h7))"
  by (simp add: add_state_def add.commute split: prod.split)

lemma Sha256Transform_compress:
  assumes "length block = 64"
  shows "Sha256Transform ctx (map Some block) =
    Inr (ctx\<lparr>ctx_state := compress (ctx_state ctx) block\<rparr>)"
  by (simp only: Sha256Transform_def schedule_loops assms rounds_loop andThen.simps compress_def add_state_cases)

section \<open>The buffer\<close>

lemma digest_blocks_append:
  "64 dvd length a \<Longrightarrow> digest_blocks H (a @ b) = digest_blocks (digest_blocks H a) b"
proof (induction H a rule: digest_blocks.induct)
  case (1 H a)
  show ?case
  proof (cases "length a < 64")
    case True
    with 1(2) have "a = []" by auto
    then show ?thesis by (simp add: digest_blocks.simps [of H "[]"])
  next
    case False
    then have "64 dvd length (drop 64 a)" using 1(2) by (simp add: dvd_diff_nat)
    with 1(1) False show ?thesis
      by (simp add: digest_blocks.simps [of H "a @ b"] digest_blocks.simps [of H a])
  qed
qed

lemma digest_blocks_one: "length b = 64 \<Longrightarrow> digest_blocks H b = compress H b"
  by (simp add: digest_blocks.simps [of H] digest_blocks.simps [of _ "[]"])

lemma digest_blocks_short: "length b < 64 \<Longrightarrow> digest_blocks H b = H"
  by (simp add: digest_blocks.simps)

text \<open>The context after the bytes \<open>msg\<close>.\<close>

definition buffers :: "Sha256Context \<Rightarrow> bytes \<Rightarrow> bytes \<Rightarrow> bool" where
  "buffers ctx done rest \<longleftrightarrow>
    64 dvd length done \<and> length rest < 64 \<and>
    length (ctx_data ctx) = 64 \<and> take (length rest) (ctx_data ctx) = map Some rest \<and>
    ctx_datalen ctx = of_nat (length rest) \<and>
    ctx_bitlen ctx = of_nat (8 * length done) \<and>
    ctx_state ctx = digest_blocks H0 done"

lemma unat_small: "n \<le> 64 \<Longrightarrow> unat (of_nat n :: u32) = n"
  by (simp add: unsigned_of_nat take_bit_nat_eq_self)

lemma take_store:
  assumes "take n xs = ys" "n < length xs"
  shows "take (Suc n) (xs[n := v]) = ys @ [v]"
  using assms by (auto simp: take_Suc_conv_app_nth)

lemma update_byte_buffers:
  assumes "buffers ctx done rest"
  shows "\<exists>ctx'. update_byte b ctx = Inr ctx' \<and>
    (if length rest = 63 then buffers ctx' (done @ rest @ [b]) [] else buffers ctx' done (rest @ [b]))"
proof -
  define n where "n = length rest"
  define d where "d = (ctx_data ctx)[n := Some b]"
  have n: "n < 64" and dl: "ctx_datalen ctx = of_nat n" using assms by (auto simp: buffers_def n_def)
  have len: "length (ctx_data ctx) = 64" using assms by (simp add: buffers_def)
  have un: "unat (of_nat n :: u32) = n" using n by (simp add: unat_small)
  have st: "store_cell (ctx_data ctx) (unat (ctx_datalen ctx)) b = Inr d"
    using n len un by (simp add: dl store_cell_ok d_def)
  have d: "take (Suc n) d = map Some (rest @ [b])" "length d = 64"
    using assms n len by (simp_all add: d_def buffers_def n_def take_store)
  have full: "(of_nat n + 1 = (64 :: u32)) \<longleftrightarrow> n = 63"
  proof -
    have "(of_nat n + 1 = (64 :: u32)) \<longleftrightarrow> unat (of_nat (Suc n) :: u32) = unat (64 :: u32)"
      by (simp only: word_unat_eq_iff [symmetric]) (simp add: add.commute)
    then show ?thesis using n by (simp only: unat_small) simp
  qed
  show ?thesis
  proof (cases "n = 63")
    case True
    then have dd: "d = map Some (rest @ [b])" using d by simp
    have "length (rest @ [b]) = 64" using True by (simp add: n_def)
    then show ?thesis
      using assms True st dd full Sha256Transform_compress [of "rest @ [b]"]
      by (auto simp: update_byte_def dl buffers_def n_def Let_def digest_blocks_append digest_blocks_one)
  next
    case False
    then show ?thesis
      using assms st d full n
      by (auto simp: update_byte_def dl buffers_def n_def Let_def)
  qed
qed


lemma Sha256Update_buffers:
  "buffers ctx done rest \<Longrightarrow> \<exists>ctx' done' rest'. Sha256Update ctx bs = Inr ctx' \<and>
    buffers ctx' done' rest' \<and> done' @ rest' = done @ rest @ bs"
  unfolding Sha256Update_def
proof (induction bs arbitrary: ctx "done" rest)
  case (Cons b bs)
  obtain ctx1 where 1: "update_byte b ctx = Inr ctx1"
    "if length rest = 63 then buffers ctx1 (done @ rest @ [b]) [] else buffers ctx1 done (rest @ [b])"
    using update_byte_buffers [OF Cons.prems] by blast
  show ?case
  proof (cases "length rest = 63")
    case True
    with 1 Cons.IH [of ctx1 "done @ rest @ [b]" "[]"] show ?thesis by auto
  next
    case False
    with 1 Cons.IH [of ctx1 "done" "rest @ [b]"] show ?thesis by auto
  qed
qed auto

section \<open>The end of the message\<close>

lemma pad_to_zeros:
  assumes "i < stop" "stop \<le> length d"
  shows "pad_to i stop d =
    Inr (take i d @ Some 0x80 # replicate (stop - Suc i) (Some 0) @ drop stop d)"
proof -
  define g where "g j = take i d @ Some 0x80 # replicate (j - Suc i) (Some 0) @ drop j d" for j
  have "store_cell d i 0x80 = Inr (g (Suc i))"
    using assms by (simp add: store_cell_ok g_def upd_conv_take_nth_drop)
  moreover have "for_each [Suc i..<stop] (\<lambda>i d. store_cell d i 0x00) (g (Suc i)) = Inr (g stop)"
  proof (rule for_each_steps)
    fix j assume j: "Suc i \<le> j" "j < stop"
    have len: "length (g j) = length d" using j assms by (simp add: g_def)
    define P where "P = take i d @ Some 0x80 # replicate (j - Suc i) (Some 0)"
    have P: "length P = j" using j assms by (simp add: P_def)
    have "g j = P @ d ! j # drop (Suc j) d"
      using j assms by (simp add: g_def P_def Cons_nth_drop_Suc)
    moreover have "P @ [Some 0] = take i d @ Some 0x80 # replicate (Suc j - Suc i) (Some 0)"
    proof -
      have "j - i = Suc (j - Suc i)" using j by simp
      then show ?thesis by (simp add: P_def replicate_append_same)
    qed
    ultimately have "(g j)[j := Some 0] = g (Suc j)"
      using list_update_length [of P "d ! j" "drop (Suc j) d" "Some 0"] P by (simp add: g_def)
    then show "store_cell (g j) j 0x00 = Inr (g (Suc j))"
      using j assms len by (simp add: store_cell_ok)
  qed (use assms in simp)
  ultimately show ?thesis by (simp add: pad_to_def g_def)
qed

lemma memset_zeros:
  assumes "n \<le> length d"
  shows "for_each [0..<n] (\<lambda>i d. store_cell d i 0) d = Inr (replicate n (Some 0) @ drop n d)"
proof -
  have "for_each [0..<n] (\<lambda>i d. store_cell d i 0) (replicate 0 (Some 0) @ drop 0 d) =
      Inr (replicate n (Some 0) @ drop n d)"
  proof (rule for_each_steps [where g = "\<lambda>j. replicate j (Some 0) @ drop j d"])
    fix j assume j: "0 \<le> j" "j < n"
    then have drop: "drop j d = d ! j # drop (Suc j) d" using assms by (simp add: Cons_nth_drop_Suc)
    with j assms show "store_cell (replicate j (Some 0) @ drop j d) j 0 =
        Inr (replicate (Suc j) (Some 0) @ drop (Suc j) d)"
      by (simp add: store_cell_ok list_update_append replicate_app_Cons_same drop)
  qed simp
  then show ?thesis by simp
qed

lemma store_bitlen_be:
  assumes "length d = 64"
  shows "store_bitlen n d = Inr (take 56 d @ map Some (be_bytes n))"
proof -
  define g where "g j = take (64 - j) d @ map Some (rev (take j (lsb_bytes n)))" for j
  have "for_each [0..<8] (\<lambda>j d. store_cell d (63 - j) (ucast (drop_bit (8 * j) n))) (g 0) = Inr (g 8)"
  proof (rule for_each_steps)
    fix j :: nat assume j: "0 \<le> j" "j < 8"
    then have "take (64 - j) d = take (63 - j) d @ [d ! (63 - j)]"
    proof -
      have "Suc (63 - j) = 64 - j" using j by simp
      with take_Suc_conv_app_nth [of "63 - j" d] assms show ?thesis by simp
    qed
    moreover have "take (Suc j) (lsb_bytes n) = take j (lsb_bytes n) @ [ucast (drop_bit (8 * j) n)]"
      using j by (simp add: take_Suc_conv_app_nth) (simp add: lsb_bytes_def)
    ultimately show "store_cell (g j) (63 - j) (ucast (drop_bit (8 * j) n)) = Inr (g (Suc j))"
      using j assms by (simp add: store_cell_ok g_def list_update_append)
  qed simp
  then show ?thesis using assms by (simp add: store_bitlen_def g_def be_bytes_def)
qed

lemma be_bytes32: 
  "be_bytes (w :: u32) = [ucast (drop_bit 24 w), ucast (drop_bit 16 w), ucast (drop_bit 8 w), ucast w]"
  by (simp add: be_bytes_def lsb_bytes_def upt_rec)

lemma ucast_and_ff: "ucast (w AND 0xFF :: u32) = (ucast w :: u8)"
proof (rule bit_word_eqI)
  fix n assume "n < LENGTH(8)"
  moreover have "bit (255 :: u32) n" if "n < 8"
  proof -
    have "\<forall>n<8. bit (255 :: u32) n" unfolding all_less_list upt_8 by simp
    with that show ?thesis by blast
  qed
  ultimately show "bit (ucast (w AND 0xFF :: u32) :: u8) n \<longleftrightarrow> bit (ucast w :: u8) n"
    by (simp add: bit_simps)
qed

lemma hash_bytes_digest:
  "for_each [0..<4] (hash_bytes s) (fresh 32) = Inr (map Some (state_bytes s))"
proof -
  have f: "fresh 32 = [None, None, None, None, None, None, None, None, None, None, None, None, None,
     None, None, None, None, None, None, None, None, None, None, None, None, None, None, None, None, 
     None, None, None :: u8 option]"
    by (simp add: fresh_def numeral_eq_Suc)
  have u: "[0..<4] = [0, 1, 2, 3 :: nat]" by (simp add: upt_rec)
  obtain s0 s1 s2 s3 s4 s5 s6 s7 where s: "s = (s0, s1, s2, s3, s4, s5, s6, s7)"
    by (metis surj_pair)
  show ?thesis
    unfolding f u s by (simp add: hash_bytes_def state_bytes_def be_bytes32 store_cell_ok ucast_and_ff)
qed


lemma Sha256Final_digest:
  assumes "buffers ctx done rest"
  shows "Sha256Final ctx (fresh 32) =
    Inr (map Some (state_bytes (digest_blocks H0 (done @ rest @ padding (length done + length rest)))))"
proof -
  define n where "n = length rest"
  define bl where "bl = (of_nat (8 * (length done + n)) :: u64)"
  have n: "n < 64" "n < 2 ^ 32" and len: "length (ctx_data ctx) = 64" 
    and tk: "take n (ctx_data ctx) = map Some rest"
    and dvd: "64 dvd length done" and st: "ctx_state ctx = digest_blocks H0 done"
    and dl: "ctx_datalen ctx = of_nat n"
    using assms by (auto simp: buffers_def n_def)
  have un: "unat (of_nat n :: u32) = n" using n by (simp add: unat_small)
  have lt: "(of_nat n :: u32) < 56 \<longleftrightarrow> n < 56" by (simp add: word_less_nat_alt un)
  have bits: "ctx_bitlen ctx + ucast (of_nat n * 8 :: u32) = bl"
  proof -
    have "of_nat n * 8 = (of_nat (8 * n) :: u32)" by simp
    moreover have "ucast (of_nat (8 * n) :: u32) = (of_nat (8 * n) :: u64)"
      using n by (simp only: unsigned_of_nat) (simp add: take_bit_nat_eq_self)
    ultimately have "ucast (of_nat n * 8 :: u32) = (of_nat (8 * n) :: u64)" by (simp only:)
    with assms show ?thesis by (simp add: buffers_def bl_def algebra_simps)
  qed
  have pad: "padding (length done + n) = 0x80 # replicate ((119 - n) mod 64) 0 @ be_bytes bl"
  proof -
    have "(length done + n) mod 64 = n" using dvd n by auto
    then show ?thesis by (simp add: padding_def bl_def)
  qed
  show ?thesis
  proof (cases "n < 56")
    case True
    define block where "block = rest @ 0x80 # replicate (55 - n) 0 @ be_bytes bl"
    have block: "length block = 64" using True by (simp add: block_def be_bytes_def flip: n_def)
    define X where "X = rest @ 0x80 # replicate (55 - n) 0"
    define d where "d = map Some X @ drop 56 (ctx_data ctx)"
    have X: "length X = 56" using True by (simp add: X_def flip: n_def)
    have pt: "pad_to n 56 (ctx_data ctx) = Inr d"
      using True len pad_to_zeros [of n 56 "ctx_data ctx"] tk by (simp add: d_def X_def)
    have d: "length d = 64" "take 56 d = map Some X" using X len by (simp_all add: d_def)
    have "take 56 d @ map Some (be_bytes bl) = map Some block" using d by (simp add: block_def X_def)
    with store_bitlen_be [of d bl] d have "store_bitlen bl d = Inr (map Some block)" by simp
    moreover have "done @ rest @ padding (length done + n) = done @ block"
      using True by (simp add: pad zeros_count block_def)
    ultimately show ?thesis
      using True d block st dvd
      by (simp add: Sha256Final_def dl lt un pt bits Let_def Sha256Transform_compress hash_bytes_digest
          digest_blocks_append digest_blocks_one flip: n_def)
  next
    case False
    define b1 where "b1 = rest @ 0x80 # replicate (63 - n) 0"
    define b2 where "b2 = replicate 56 0 @ be_bytes bl"
    have b: "length b1 = 64" "length b2 = 64" using n by (auto simp: b1_def b2_def be_bytes_def simp flip: n_def)
    have d: "pad_to n 64 (ctx_data ctx) = Inr (map Some b1)"
      using n len pad_to_zeros [of n 64 "ctx_data ctx"] tk by (simp add: b1_def)
    have ms: "for_each [0..<56] (\<lambda>i d. store_cell d i 0) (map Some b1) =
        Inr (replicate 56 (Some 0) @ drop 56 (map Some b1))"
      by (rule memset_zeros) (simp add: b)
    have sb: "store_bitlen bl (replicate 56 (Some 0) @ drop 56 (map Some b1)) = Inr (map Some b2)"
      using store_bitlen_be [of "replicate 56 (Some 0) @ drop 56 (map Some b1)" bl] b 
      by (simp add: b2_def)
    have "done @ rest @ padding (length done + n) = done @ b1 @ b2"
    proof -
      have e: "119 - n = (63 - n) + 56" using n by simp
      have "replicate (119 - n) (0 :: u8) = replicate (63 - n) 0 @ replicate 56 0"
        unfolding e by (rule replicate_add)
      then show ?thesis using False n by (simp add: pad zeros_count b1_def b2_def)
    qed
    then show ?thesis
      using False b st dvd
      by (simp add: Sha256Final_def dl lt un d ms sb bits Let_def Sha256Transform_compress hash_bytes_digest
          digest_blocks_append digest_blocks_one flip: n_def del: upt_rec_numeral)
  qed
qed

lemma local_context_buffers: "buffers (Sha256Init local_context) [] []"
  by (simp add: buffers_def local_context_def Sha256Init_def H0_values digest_blocks_short)

lemma Sha256_digest: "Sha256 msg = Inr (sha256 msg)"
proof -
  obtain ctx' done' rest' where "Sha256Update (Sha256Init local_context) msg = Inr ctx'"
    "buffers ctx' done' rest'" and msg: "msg = done' @ rest'"
    using Sha256Update_buffers [OF local_context_buffers, of msg] by auto
  then show ?thesis
    using Sha256Final_digest [of ctx' done' rest']
    by (simp add: Sha256_def sha256_def cells_value_map_Some msg)
qed

lemma length_sha256: "length (sha256 msg) = 32"
  by (simp add: sha256_def state_bytes_def be_bytes_def split: prod.split)

lemma buffers_split:
  assumes "buffers ctx done rest"
  shows "done = take (64 * (length (done @ rest) div 64)) (done @ rest)"
    and "rest = drop (64 * (length (done @ rest) div 64)) (done @ rest)"
proof -
  obtain q where "length done = 64 * q" "length rest < 64"
    using assms by (auto simp: buffers_def)
  then have "64 * (length (done @ rest) div 64) = length done" by simp
  then show "done = take (64 * (length (done @ rest) div 64)) (done @ rest)"
    "rest = drop (64 * (length (done @ rest) div 64)) (done @ rest)" by simp_all
qed

section \<open>Properties\<close>

text \<open>C8. \<open>Sha256\<close> computes SHA-256 as FIPS 180-4 defines it, on every input: it returns the
  32 bytes of the digest of the padded message, reads no indeterminate byte of its local arrays
  and never leaves them.\<close>

theorem Sha256_correct: "Sha256 msg = Inr (sha256 msg) \<and> length (sha256 msg) = 32"
  by (simp add: Sha256_digest length_sha256)

text \<open>The buffering invariant: after any input, the context has hashed the whole blocks of
  the input, holds the bytes after the last whole block at the start of \<open>data\<close> and their
  number, below 64, in \<open>datalen\<close>, and has counted the hashed bits.\<close>

lemma Sha256Update_invariant:
  "\<exists>ctx. Sha256Update (Sha256Init local_context) msg = Inr ctx \<and>
    (let n = 64 * (length msg div 64) in
      unat (ctx_datalen ctx) = length msg mod 64 \<and>
      take (length msg mod 64) (ctx_data ctx) = map Some (drop n msg) \<and>
      ctx_bitlen ctx = of_nat (8 * n) \<and>
      ctx_state ctx = digest_blocks H0 (take n msg))"
proof -
  obtain ctx done' rest' where u: "Sha256Update (Sha256Init local_context) msg = Inr ctx"
    and b: "buffers ctx done' rest'" and msg: "done' @ rest' = msg"
    using Sha256Update_buffers [OF local_context_buffers, of msg] by auto
  note split = buffers_split [OF b, unfolded msg]
  have len: "length rest' = length msg mod 64"
    by (subst split(2)) (simp add: minus_mult_div_eq_mod)
  have "length done' = 64 * (length msg div 64)"
    by (subst split(1)) simp
  moreover have "unat (ctx_datalen ctx) = length msg mod 64"
    using b len by (simp add: buffers_def unat_small)
  ultimately show ?thesis
    using b u len split by (auto simp: buffers_def Let_def)
qed

end
