(* ===== verification/Client_Wire.thy ===== *)
theory Client_Wire
  imports Client Sha256_Correct
begin

text \<open>
  The client and its wire: what each helper of the client leaves alone (the frame lemmas), which
  datagrams it sends, and that what it sends is what a receiver of the protocol parses.
\<close>

section \<open>Frame lemmas\<close>

text \<open>Appending an action changes nothing else; a hook call only appends an action.\<close>

lemma act_frame [simp]:
  "c_dmrId (act a c) = c_dmrId c" "c_description (act a c) = c_description c"
  "c_password (act a c) = c_password c" "c_state (act a c) = c_state c"
  "c_connectionMutex (act a c) = c_connectionMutex c" "c_writeMutex (act a c) = c_writeMutex c"
  "c_lastError (act a c) = c_lastError c" "c_routineSeq (act a c) = c_routineSeq c"
  "c_realTimeSeq (act a c) = c_realTimeSeq c" "c_inCall (act a c) = c_inCall c"
  "socket_open (act a c) = socket_open c" "c_serverEndpoint (act a c) = c_serverEndpoint c"
  "ioThread_joinable (act a c) = ioThread_joinable c"
  "c_receiveBuffer (act a c) = c_receiveBuffer c" "c_senderEndpoint (act a c) = c_senderEndpoint c"
  "hooks (act a c) = hooks c" "sends (act a c) = sends c"
  "actions (act a c) = actions c @ [a]"
  by (simp_all add: act_def)

lemma call_frame [simp]:
  "c_dmrId (call h cb c) = c_dmrId c" "c_description (call h cb c) = c_description c"
  "c_password (call h cb c) = c_password c" "c_state (call h cb c) = c_state c"
  "c_connectionMutex (call h cb c) = c_connectionMutex c" "c_writeMutex (call h cb c) = c_writeMutex c"
  "c_lastError (call h cb c) = c_lastError c" "c_routineSeq (call h cb c) = c_routineSeq c"
  "c_realTimeSeq (call h cb c) = c_realTimeSeq c" "c_inCall (call h cb c) = c_inCall c"
  "socket_open (call h cb c) = socket_open c" "c_serverEndpoint (call h cb c) = c_serverEndpoint c"
  "ioThread_joinable (call h cb c) = ioThread_joinable c"
  "c_receiveBuffer (call h cb c) = c_receiveBuffer c" "c_senderEndpoint (call h cb c) = c_senderEndpoint c"
  "hooks (call h cb c) = hooks c" "sends (call h cb c) = sends c"
  by (simp_all add: call_def)

definition called :: "hook \<Rightarrow> callback \<Rightarrow> 'ep client \<Rightarrow> 'ep action list" where
  "called h cb c = (if hooks c h then [Called cb (c_connectionMutex c) (c_writeMutex c)] else [])"

lemma actions_call [simp]: "actions (call h cb c) = actions c @ called h cb c"
  by (simp add: call_def called_def)

lemma TransmitRaw_frame [simp]:
  "c_dmrId (TransmitRaw env t f p c) = c_dmrId c"
  "c_description (TransmitRaw env t f p c) = c_description c"
  "c_password (TransmitRaw env t f p c) = c_password c"
  "c_state (TransmitRaw env t f p c) = c_state c"
  "c_connectionMutex (TransmitRaw env t f p c) = c_connectionMutex c"
  "c_inCall (TransmitRaw env t f p c) = c_inCall c"
  "socket_open (TransmitRaw env t f p c) = socket_open c"
  "c_serverEndpoint (TransmitRaw env t f p c) = c_serverEndpoint c"
  "ioThread_joinable (TransmitRaw env t f p c) = ioThread_joinable c"
  "c_receiveBuffer (TransmitRaw env t f p c) = c_receiveBuffer c"
  "c_senderEndpoint (TransmitRaw env t f p c) = c_senderEndpoint c"
  "hooks (TransmitRaw env t f p c) = hooks c"
  by (simp_all add: TransmitRaw_def Let_def split: option.splits)

text \<open>The rest of \<open>TransmitRaw\<close>: the counters, the mutex, the error, the datagram.\<close>

definition next_header :: "u16 \<Rightarrow> u16 \<Rightarrow> bytes \<Rightarrow> 'ep client \<Rightarrow> Header" where
  "next_header t f p c =
    \<lparr>h_type = t, h_flags = f,
     h_number = (if f AND REAL_TIME_1 \<noteq> 0 then c_realTimeSeq c else c_routineSeq c),
     h_length = of_nat (length p)\<rparr>"

definition next_packet :: "'ep env \<Rightarrow> u16 \<Rightarrow> u16 \<Rightarrow> bytes \<Rightarrow> 'ep client \<Rightarrow> bytes" where
  "next_packet env t f p c = packet_bytes (host_order env) (next_header t f p c) p"

definition send_result :: "'ep env \<Rightarrow> u16 \<Rightarrow> u16 \<Rightarrow> bytes \<Rightarrow> 'ep client \<Rightarrow> error_code option" where
  "send_result env t f p c = send_to env (sends c) (next_packet env t f p c) (c_serverEndpoint c)"

lemma TransmitRaw_closed: "\<not> socket_open c \<Longrightarrow> TransmitRaw env t f p c = c"
  by (simp add: TransmitRaw_def)

lemma TransmitRaw_open:
  assumes "socket_open c"
  shows "c_writeMutex (TransmitRaw env t f p c) = False"
    and "c_lastError (TransmitRaw env t f p c) =
      (if send_result env t f p c = None then c_lastError c else SOCKET_IO)"
    and "c_routineSeq (TransmitRaw env t f p c) =
      (if f AND REAL_TIME_1 \<noteq> 0 then c_routineSeq c else c_routineSeq c + 1)"
    and "c_realTimeSeq (TransmitRaw env t f p c) =
      (if f AND REAL_TIME_1 \<noteq> 0 then c_realTimeSeq c + 1 else c_realTimeSeq c)"
    and "sends (TransmitRaw env t f p c) = Suc (sends c)"
    and "actions (TransmitRaw env t f p c) = actions c @
      SendTo (next_packet env t f p c) (c_serverEndpoint c) #
      (case send_result env t f p c of
         None \<Rightarrow> []
       | Some e \<Rightarrow> if hooks c onError then
           [Called (OnError SOCKET_IO (''Socket write error: '' @ ec_message e)) (c_connectionMutex c) True]
         else [])"
  using assms
  by (simp_all add: TransmitRaw_def Let_def next_packet_def next_header_def send_result_def called_def
      split: option.splits)

section \<open>Datagrams\<close>

text \<open>What a list of actions puts on the wire: the datagrams and their destinations.\<close>

fun datagrams :: "'ep action list \<Rightarrow> (bytes \<times> 'ep) list" where
  "datagrams [] = []"
| "datagrams (SendTo p ep # as) = (p, ep) # datagrams as"
| "datagrams (_ # as) = datagrams as"

lemma datagrams_append [simp]: "datagrams (as @ bs) = datagrams as @ datagrams bs"
  by (induction as rule: datagrams.induct) simp_all

lemma datagrams_called [simp]: "datagrams (called h cb c) = []"
  by (simp add: called_def)

lemma datagrams_TransmitRaw [simp]:
  "datagrams (actions (TransmitRaw env t f p c)) = datagrams (actions c) @
     (if socket_open c then [(next_packet env t f p c, c_serverEndpoint c)] else [])"
  by (auto simp: TransmitRaw_open TransmitRaw_closed split: option.splits)

section \<open>Packets\<close>

text \<open>How \<open>ProcessPacket\<close> takes a datagram apart.\<close>

definition split_packet :: "endian \<Rightarrow> bytes \<Rightarrow> (Header \<times> bytes) option" where
  "split_packet host packet =
    (case parsed (DeserializeHeader host packet) of
       None \<Rightarrow> None
     | Some h \<Rightarrow>
         if length packet < 18 + unat (h_length h) then None
         else Some (h, take (unat (h_length h)) (drop 18 packet)))"

interpretation packet: framing "SerializeHeader host" "DeserializeHeader host'" 18
  "\<lambda>h. unat (h_length h)" "split_packet host'" for host host'
  by unfold_locales (simp add: split_packet_def)

lemma length_packet_bytes [simp]: "length (packet_bytes host h p) = 18 + length p"
  by (simp add: packet_bytes_def header.length_encode)

lemma packet_bytes_nonempty [simp]: "packet_bytes host h p \<noteq> []"
  by (simp flip: length_greater_0_conv)

lemma length_next_packet: "length (next_packet env t f p c) = 18 + length p"
  by (simp add: next_packet_def)

lemma ProcessPacket_split:
  "ProcessPacket env packet c =
    (case split_packet (host_order env) packet of
       None \<Rightarrow> Inr c | Some (h, payload) \<Rightarrow> dispatch env h payload c)"
  using decoders_return(1) [of "host_order env" packet]
  by (auto simp: ProcessPacket_def split_packet_def subspan_def split: option.splits)

lemma split_packet_bytes:
  assumes "unat (h_length h) = length p"
  shows "split_packet host' (packet_bytes host h p) = Some (h, p)"
  using packet.split_frame_append [of p h host' host "[]"] assms by (simp add: packet_bytes_def)

lemma unat_length_u16: "n < 65536 \<Longrightarrow> unat (of_nat n :: u16) = n"
  by (simp add: unsigned_of_nat take_bit_nat_eq_self)

lemma split_next_packet:
  "length p < 65536 \<Longrightarrow> split_packet host' (next_packet env t f p c) = Some (next_header t f p c, p)"
  by (simp add: next_packet_def split_packet_bytes next_header_def unat_length_u16)

lemma ProcessPacket_next:
  "length p < 65536 \<Longrightarrow> ProcessPacket env' (next_packet env t f p c) c' = dispatch env' (next_header t f p c) p c'"
  by (simp add: ProcessPacket_split split_next_packet)

lemma next_header_type [simp]: "h_type (next_header t f p c) = t"
  by (simp add: next_header_def)

section \<open>The voice header\<close>

lemma id24_bytes:
  "id24 (ucast (drop_bit 16 v AND 0xFF)) (ucast (drop_bit 8 v AND 0xFF)) (ucast (v AND 0xFF)) =
    take_bit 24 v"
proof (rule bit_word_eqI)
  fix n assume "n < LENGTH(32)"
  moreover have "\<forall>n<32. bit (id24 (ucast (drop_bit 16 v AND 0xFF)) (ucast (drop_bit 8 v AND 0xFF))
      (ucast (v AND 0xFF))) n = bit (take_bit 24 v) n"
    by (simp add: all_less_list upt_32 id24_def bit_simps)
  ultimately show "bit (id24 (ucast (drop_bit 16 v AND 0xFF)) (ucast (drop_bit 8 v AND 0xFF))
      (ucast (v AND 0xFF))) n = bit (take_bit 24 v) n"
    by simp
qed

lemma voice_header_bytes:
  "voice_header src dest g =
    [if g then 0 else 3, 0, 0,
     ucast (drop_bit 16 dest AND 0xFF), ucast (drop_bit 8 dest AND 0xFF), ucast (dest AND 0xFF),
     ucast (drop_bit 16 src AND 0xFF), ucast (drop_bit 8 src AND 0xFF), ucast (src AND 0xFF),
     0, 0, 0]"
  by (simp add: voice_header_def Let_def numeral_eq_Suc)

lemma handle_voice_header_total:
  "handle_voice_header p c = Inr
    (if length p \<ge> 12 then
       call onVoiceHeader (OnVoiceHeader (id24 (p ! 6) (p ! 7) (p ! 8)) (id24 (p ! 3) (p ! 4) (p ! 5))
         (p ! 0 AND 0x3F \<noteq> 3)) c
     else c)"
proof -
  have "load p 0 = Inr (p ! 0)" if "12 \<le> length p"
    using that by (intro load_ok) linarith
  then show ?thesis by (simp add: handle_voice_header_def load_ok call_def)
qed

lemma handle_voice_header_sent:
  "handle_voice_header (voice_header src dest g) c =
    Inr (call onVoiceHeader (OnVoiceHeader (take_bit 24 src) (take_bit 24 dest) g) c)"
  by (simp add: handle_voice_header_total voice_header_bytes id24_bytes)

section \<open>Every packet is handled\<close>

text \<open>The switch as a total function: no branch of it stops the program.\<close>

definition dispatched :: "'ep env \<Rightarrow> Header \<Rightarrow> bytes \<Rightarrow> 'ep client \<Rightarrow> 'ep client" where
  "dispatched env h p c = projr (dispatch env h p c)"

lemma handle_challenge_total:
  "handle_challenge env p c = Inr
    (if c_state c = CONNECTING then
       TransmitRaw env AUTHENTICATION NONE (sha256 (p @ c_password c)) (c\<lparr>c_state := AUTHENTICATING\<rparr>)
     else c)"
  by (simp add: handle_challenge_def Sha256_digest)

lemma handle_text_total:
  "handle_text env p c = Inr
    (case parsed (text_fields (host_order env) p) of
       None \<Rightarrow> c
     | Some (d, us) \<Rightarrow> call onTextMessage (OnTextMessage
         \<lparr>sourceId = text_sourceId d, destinationId = text_destinationId d,
          isGroup = text_isGroup d, message_text = utf8_text (utf16_points us)\<rparr>) c)"
  by (simp add: handle_text_def DeserializeTextMessage_returns split: option.splits prod.splits)

lemma handle_reports_total:
  "handle_status env p c = Inr
    (case parsed (DeserializeTextMessageStatus (host_order env) p) of
       None \<Rightarrow> c
     | Some s \<Rightarrow> call onTextMessageStatus
         (OnTextMessageStatus (status_sourceId s) (status_destinationId s) (status_status s)) c)"
  "handle_location_request env p c = Inr
    (case parsed (DeserializeLocationRequest (host_order env) p) of
       None \<Rightarrow> c
     | Some r \<Rightarrow> call onLocationRequest (OnLocationRequest (req_type r) (req_interval r)) c)"
  "handle_location_report env p c = Inr
    (case parsed (DeserializeLocationReport (host_order env) p) of
       None \<Rightarrow> c
     | Some r \<Rightarrow> call onLocationReport
         (OnLocationReport \<lparr>gps_format = loc_format r, gps_nmea = loc_nmea r\<rparr>) c)"
  using decoders_return(4-6) [of "host_order env" p]
  by (auto simp: handle_status_def handle_location_request_def handle_location_report_def split: option.split)

lemma dispatch_total: "dispatch env h p c = Inr (dispatched env h p c)"
  by (simp add: dispatched_def dispatch_def handle_challenge_total handle_text_total handle_reports_total
      handle_default_def handle_voice_header_total Let_def)

end
