(* ===== verification/Machine.thy ===== *)
theory Machine
  imports Cxx
begin

text \<open>
  The contracts of a program that handles events one at a time: \<open>exec e s\<close> handles \<open>e\<close> in
  state \<open>s\<close>, and a run handles a list of events. What a run keeps follows from what one event
  keeps, and a condition that holds after a run but not before it was entered by some event,
  for the last time.
\<close>

locale machine =
  fixes exec :: "'e \<Rightarrow> 's \<Rightarrow> 's cxx"
    and run :: "'e list \<Rightarrow> 's \<Rightarrow> 's cxx"
  assumes run_exec: "run es s = for_each es exec s"
begin

lemma run_Cons: "run (e # es) s = andThen (exec e s) (run es)"
  by (cases "exec e s") (simp_all add: run_exec)

lemma run_append: "run (es @ fs) s = andThen (run es s) (run fs)"
  by (cases "run es s") (simp_all add: run_exec for_each_append)

text \<open>The last event after which \<open>P\<close> holds for good.\<close>

lemma last_entry:
  assumes "run es s = Inr s'" "\<not> P s" "P s'"
  obtains pre e post s1 s2 where "es = pre @ e # post" "run pre s = Inr s1" "exec e s1 = Inr s2"
    "\<not> P s1" "P s2" "run post s2 = Inr s'"
    "\<And>mid rest s3. post = mid @ rest \<Longrightarrow> run mid s2 = Inr s3 \<Longrightarrow> P s3"
proof -
  define entry where "entry es s' pre e post s1 s2 \<longleftrightarrow> es = pre @ e # post \<and> run pre s = Inr s1 \<and>
    exec e s1 = Inr s2 \<and> \<not> P s1 \<and> P s2 \<and> run post s2 = Inr s' \<and>
    (\<forall>mid rest s3. post = mid @ rest \<longrightarrow> run mid s2 = Inr s3 \<longrightarrow> P s3)"
    for es s' pre e post s1 s2
  have "\<exists>pre e post s1 s2. entry es s' pre e post s1 s2"
    using assms(1,3)
  proof (induction es arbitrary: s' rule: rev_induct)
    case Nil
    with assms(2) show ?case by (simp add: run_exec)
  next
    case (snoc e es)
    then obtain s1 where s1: "run es s = Inr s1" "exec e s1 = Inr s'"
      by (auto simp: run_exec for_each_append andThen_eq_Inr)
    show ?case
    proof (cases "P s1")
      case True
      from snoc.IH [OF s1(1) True] obtain pre e' post t1 t2 where IH: "entry es s1 pre e' post t1 t2"
        by blast
      then have P: "\<And>mid rest s3. post = mid @ rest \<Longrightarrow> run mid t2 = Inr s3 \<Longrightarrow> P s3"
        unfolding entry_def by blast
      have run: "run (post @ [e]) t2 = Inr s'"
        using IH s1(2) by (simp add: entry_def run_exec for_each_append)
      have "P s3" if "post @ [e] = mid @ rest" "run mid t2 = Inr s3" for mid rest s3
        using that P [of mid _ s3] run snoc.prems(2) by (cases rest rule: rev_cases) auto
      then have "entry (es @ [e]) s' pre e' (post @ [e]) t1 t2"
        using IH run by (simp add: entry_def)
      then show ?thesis by blast
    next
      case False
      then have "entry (es @ [e]) s' es e [] s1 s'"
        using s1 snoc.prems(2) by (simp add: entry_def run_exec)
      then show ?thesis by blast
    qed
  qed
  then obtain pre e post s1 s2 where "entry es s' pre e post s1 s2" by blast
  then show thesis unfolding entry_def by (elim conjE) (rule that; blast)
qed

end

text \<open>A machine with an invariant, under which it is never stopped by undefined behaviour.\<close>

locale safe_machine = machine exec run
  for exec :: "'e \<Rightarrow> 's \<Rightarrow> 's cxx" and run :: "'e list \<Rightarrow> 's \<Rightarrow> 's cxx" +
  fixes inv :: "'s \<Rightarrow> bool"
  assumes exec_inv: "inv s \<Longrightarrow> exec e s = Inr s' \<Longrightarrow> inv s'"
    and exec_no_UB: "inv s \<Longrightarrow> exec e s \<noteq> Inl UB"
begin

lemma run_inv: "run es s = Inr s' \<Longrightarrow> inv s \<Longrightarrow> inv s'"
  by (induction es arbitrary: s) (auto simp: run_exec andThen_eq_Inr dest: exec_inv)

lemma run_no_UB: "inv s \<Longrightarrow> run es s \<noteq> Inl UB"
  by (induction es arbitrary: s) (auto simp: run_exec andThen_eq_Inl exec_no_UB dest: exec_inv)

end

end
