(* ===== verification/Client_Steps.thy ===== *)
theory Client_Steps
  imports Client_Wire Machine
begin

text \<open>
  The client as a machine. An event is a call of the application or the completion of one of
  Asio's operations; \<open>exec\<close> runs its definition of \<open>Client\<close>. The theory holds the session
  automaton the events implement, what never happens (undefined behaviour, a second way to
  \<open>std::terminate\<close>), and the invariant of every run from a new client.
\<close>

section \<open>Events\<close>

datatype 'ep event =
  ConnectCalled "startup_point \<Rightarrow> string option" bytes u16 bytes u32
| DisconnectCalled thread
| SubscribeCalled u32
| UnsubscribeCalled u32
| StartVoiceCallCalled u32 u32 bool
| SendAudioFrameCalled bytes
| EndVoiceCallCalled
| SendTextMessageCalled u32 bool bytes
| SendLocationReportCalled bytes
| Received "error_code option" bytes 'ep
| Resolved "error_code option" "'ep list" "error_code option" "error_code option"
| ConnectTimeout "error_code option"
| KeepAliveTick "error_code option"

text \<open>The completions of Asio's operations, which run on the background thread.\<close>

fun completion :: "'ep event \<Rightarrow> bool" where
  "completion (Received ec data sender) = True"
| "completion (Resolved ec endpoints openEc bindEc) = True"
| "completion (ConnectTimeout ec) = True"
| "completion (KeepAliveTick ec) = True"
| "completion _ = False"

text \<open>A datagram arrives: as much of it as fits is in the buffer, and its sender is known.\<close>

definition arrive :: "bytes \<Rightarrow> 'ep \<Rightarrow> 'ep client \<Rightarrow> 'ep client" where
  "arrive data sender c =
    c\<lparr>c_receiveBuffer := take (length (c_receiveBuffer c)) data @ drop (length data) (c_receiveBuffer c),
      c_senderEndpoint := sender\<rparr>"

definition fits :: "'ep client \<Rightarrow> bytes \<Rightarrow> bytes" where
  "fits c data = take (length (c_receiveBuffer c)) data"

fun exec :: "'ep env \<Rightarrow> 'ep event \<Rightarrow> 'ep client \<Rightarrow> 'ep client cxx" where
  "exec env (ConnectCalled throws host port password timeoutMs) c =
     andThen (Connect throws host port password timeoutMs c) (\<lambda>(_, c). Inr c)"
| "exec env (DisconnectCalled this_thread) c = Inr (Disconnect env this_thread c)"
| "exec env (SubscribeCalled tg) c = Inr (Subscribe env tg c)"
| "exec env (UnsubscribeCalled tg) c = Inr (Unsubscribe env tg c)"
| "exec env (StartVoiceCallCalled src dest g) c = Inr (StartVoiceCall env src dest g c)"
| "exec env (SendAudioFrameCalled ambe) c = Inr (SendAudioFrame env ambe c)"
| "exec env EndVoiceCallCalled c = Inr (EndVoiceCall env c)"
| "exec env (SendTextMessageCalled dest g msg) c = SendTextMessage env dest g msg c"
| "exec env (SendLocationReportCalled nmea) c = Inr (SendLocationReport env nmea c)"
| "exec env (Received ec data sender) c =
     HandleReceive env ec (length (fits c data)) (arrive data sender c)"
| "exec env (Resolved ec endpoints openEc bindEc) c = Inr (on_resolve env ec endpoints openEc bindEc c)"
| "exec env (ConnectTimeout ec) c = Inr (on_connect_timeout env ec c)"
| "exec env (KeepAliveTick ec) c = Inr (on_keep_alive env ec c)"

definition run :: "'ep env \<Rightarrow> 'ep event list \<Rightarrow> 'ep client \<Rightarrow> 'ep client cxx" where
  "run env es c = for_each es (exec env) c"

lemma run_simps [simp]:
  "run env [] c = Inr c"
  "run env (e # es) c = andThen (exec env e c) (run env es)"
  "run env (es @ fs) c = andThen (run env es c) (run env fs)"
  by (simp_all add: run_def [abs_def] for_each_append)

interpretation client: machine "exec env" "run env" for env
  by unfold_locales (simp add: run_def)

inductive reachable :: "'ep env \<Rightarrow> 'ep client \<Rightarrow> bool" for env where
  start: "reachable env (new_client dmrId description ep hks)"
| event: "reachable env c \<Longrightarrow> exec env e c = Inr c' \<Longrightarrow> reachable env c'"

inductive_cases reachable_cases: "reachable env c"

section \<open>The handlers, branch by branch\<close>

lemma arrive_frame [simp]:
  "c_dmrId (arrive d s c) = c_dmrId c" "c_description (arrive d s c) = c_description c"
  "c_password (arrive d s c) = c_password c" "c_state (arrive d s c) = c_state c"
  "c_connectionMutex (arrive d s c) = c_connectionMutex c" "c_writeMutex (arrive d s c) = c_writeMutex c"
  "c_lastError (arrive d s c) = c_lastError c" "c_routineSeq (arrive d s c) = c_routineSeq c"
  "c_realTimeSeq (arrive d s c) = c_realTimeSeq c" "c_inCall (arrive d s c) = c_inCall c"
  "socket_open (arrive d s c) = socket_open c" "c_serverEndpoint (arrive d s c) = c_serverEndpoint c"
  "ioThread_joinable (arrive d s c) = ioThread_joinable c" "c_senderEndpoint (arrive d s c) = s"
  "hooks (arrive d s c) = hooks c" "sends (arrive d s c) = sends c" "actions (arrive d s c) = actions c"
  "length (c_receiveBuffer (arrive d s c)) = length (c_receiveBuffer c)"
  by (auto simp: arrive_def)

lemma subspan_arrive:
  "subspan (c_receiveBuffer (arrive data sender c)) 0 (length (fits c data)) = Inr (fits c data)"
  by (cases "length data \<le> length (c_receiveBuffer c)") (simp_all add: arrive_def subspan_def fits_def)

definition processed :: "'ep env \<Rightarrow> bytes \<Rightarrow> 'ep client \<Rightarrow> 'ep client" where
  "processed env packet c =
    (case split_packet (host_order env) packet of
       None \<Rightarrow> c | Some (h, payload) \<Rightarrow> dispatched env h payload c)"

lemma ProcessPacket_total: "ProcessPacket env packet c = Inr (processed env packet c)"
  by (simp add: ProcessPacket_split processed_def dispatch_total split: option.splits prod.splits)

lemma exec_Received:
  "exec env (Received ec data sender) c =
    Inr (let c1 = arrive data sender c in
         if c_state c = DISCONNECTED then c1
         else case ec of
           Some e \<Rightarrow>
             if ec_aborted e then c1
             else Disconnect env Io (call onError
               (OnError SOCKET_IO (''Socket read error: '' @ ec_message e)) (c1\<lparr>c_lastError := SOCKET_IO\<rparr>))
         | None \<Rightarrow>
             StartReceiveLoop
               (if fits c data \<noteq> [] \<and> sender = c_serverEndpoint c
                then processed env (fits c data) c1 else c1))"
  by (simp add: HandleReceive_def Let_def aborted_def ProcessPacket_total subspan_arrive
      split: option.splits)

lemma processed_Nil [simp]: "processed env [] c = c"
  by (simp add: processed_def split_packet_def DeserializeHeader_def)

text \<open>The dispatch of a packet, by its type.\<close>

lemma dispatched_simps:
  "h_type h = CHALLENGE \<Longrightarrow> dispatched env h p c =
     (if c_state c = CONNECTING then
        TransmitRaw env AUTHENTICATION NONE (sha256 (p @ c_password c)) (c\<lparr>c_state := AUTHENTICATING\<rparr>)
      else c)"
  "h_type h = KEEP_ALIVE \<Longrightarrow> dispatched env h p c = handle_keep_alive (h_length h) c"
  by (simp_all add: dispatched_def dispatch_def handle_challenge_total message_type_defs)

text \<open>Every other packet can only call a hook.\<close>

definition hook_only :: "'ep client \<Rightarrow> 'ep client \<Rightarrow> bool" where
  "hook_only c c' \<longleftrightarrow> c' = c \<or> (\<exists>hk cb. c' = call hk cb c)"

lemma hook_only_intros:
  "hook_only c c" "hook_only c (call hk cb c)"
  by (auto simp: hook_only_def)

lemma hook_only_handlers:
  "hook_only c (projr (handle_text env p c))" "hook_only c (projr (handle_status env p c))"
  "hook_only c (projr (handle_location_request env p c))"
  "hook_only c (projr (handle_location_report env p c))"
  "hook_only c (projr (handle_voice_header p c))" "hook_only c (projr (handle_default h p c))"
  by (simp_all add: handle_text_total handle_reports_total handle_voice_header_total handle_default_def Let_def hook_only_intros
      split: option.split prod.split)

lemma dispatched_other:
  assumes "h_type h \<noteq> CHALLENGE" "h_type h \<noteq> KEEP_ALIVE"
  shows "hook_only c (dispatched env h p c)"
  using assms by (simp add: dispatched_def dispatch_def hook_only_intros hook_only_handlers)

text \<open>Disconnecting.\<close>

lemma Disconnect_frame [simp]:
  "c_dmrId (Disconnect env t c) = c_dmrId c" "c_description (Disconnect env t c) = c_description c"
  "c_password (Disconnect env t c) = c_password c" "c_state (Disconnect env t c) = DISCONNECTED"
  "c_connectionMutex (Disconnect env t c) = c_connectionMutex c"
  "c_realTimeSeq (Disconnect env t c) = c_realTimeSeq c" "c_inCall (Disconnect env t c) = c_inCall c"
  "socket_open (Disconnect env t c) = (c_state c = DISCONNECTED \<and> socket_open c)"
  "c_serverEndpoint (Disconnect env t c) = c_serverEndpoint c"
  "ioThread_joinable (Disconnect env t c) = (ioThread_joinable c \<and> t = Io)"
  "c_receiveBuffer (Disconnect env t c) = c_receiveBuffer c"
  "c_senderEndpoint (Disconnect env t c) = c_senderEndpoint c" "hooks (Disconnect env t c) = hooks c"
  by (auto simp: Disconnect_def Let_def StopKeepAliveTimer_def TransmitRaw_open(4) flag_defs)

lemma lastError_Disconnect:
  "c_lastError c = SOCKET_IO \<Longrightarrow> c_lastError (Disconnect env t c) = SOCKET_IO"
  by (simp add: Disconnect_def Let_def StopKeepAliveTimer_def TransmitRaw_open)

section \<open>The session automaton\<close>

text \<open>
  When the state of the session changes, and to which state. The rules are the contract of
  the handshake: who starts it, which datagram from whom moves it on, and what ends it.
\<close>

inductive advances :: "'ep env \<Rightarrow> 'ep client \<Rightarrow> 'ep event \<Rightarrow> State \<Rightarrow> bool" for env c where
  start: "c_state c = DISCONNECTED \<Longrightarrow> throws ThreadStart = None \<Longrightarrow> throws TimerStart = None \<Longrightarrow>
    throws ResolveStart = None \<Longrightarrow> advances env c (ConnectCalled throws host port pw ms) CONNECTING"
| challenge: "c_state c = CONNECTING \<Longrightarrow> sender = c_serverEndpoint c \<Longrightarrow>
    split_packet (host_order env) (fits c data) = Some (h, p) \<Longrightarrow> h_type h = CHALLENGE \<Longrightarrow>
    advances env c (Received None data sender) AUTHENTICATING"
| accept: "c_state c = AUTHENTICATING \<Longrightarrow> sender = c_serverEndpoint c \<Longrightarrow>
    split_packet (host_order env) (fits c data) = Some (h, p) \<Longrightarrow> h_type h = KEEP_ALIVE \<Longrightarrow>
    h_length h = 0 \<Longrightarrow> advances env c (Received None data sender) CONNECTED"
| receive_error: "c_state c \<noteq> DISCONNECTED \<Longrightarrow> \<not> ec_aborted e \<Longrightarrow>
    advances env c (Received (Some e) data sender) DISCONNECTED"
| resolve_error: "c_state c = CONNECTING \<Longrightarrow>
    ec \<noteq> None \<or> endpoints = [] \<or> openEc \<noteq> None \<or> bindEc \<noteq> None \<Longrightarrow>
    advances env c (Resolved ec endpoints openEc bindEc) DISCONNECTED"
| timeout: "c_state c = CONNECTING \<or> c_state c = AUTHENTICATING \<Longrightarrow> \<not> aborted ec \<Longrightarrow>
    advances env c (ConnectTimeout ec) DISCONNECTED"
| disconnect: "c_state c \<noteq> DISCONNECTED \<Longrightarrow> advances env c (DisconnectCalled t) DISCONNECTED"

inductive_simps advances_simps:
  "advances env c (ConnectCalled throws host port pw ms) s"
  "advances env c (DisconnectCalled t) s"
  "advances env c (SubscribeCalled tg) s"
  "advances env c (UnsubscribeCalled tg) s"
  "advances env c (StartVoiceCallCalled src dest g) s"
  "advances env c (SendAudioFrameCalled ambe) s"
  "advances env c EndVoiceCallCalled s"
  "advances env c (SendTextMessageCalled dest g msg) s"
  "advances env c (SendLocationReportCalled nmea) s"
  "advances env c (Received ec data sender) s"
  "advances env c (Resolved ec endpoints openEc bindEc) s"
  "advances env c (ConnectTimeout ec) s"
  "advances env c (KeepAliveTick ec) s"

inductive_cases advances_cases: "advances env c e s"

text \<open>The state after each operation.\<close>

lemma timers_state [simp]:
  "c_state (StartKeepAliveTimer c) = c_state c" "c_state (StartReceiveLoop c) = c_state c"
  "c_state (SendKeepAlive env c) = c_state c" "c_state (on_keep_alive env ec c) = c_state c"
  by (simp_all add: StartKeepAliveTimer_def StartReceiveLoop_def SendKeepAlive_def on_keep_alive_def
      Let_def)

lemma requests_state [simp]:
  "c_state (Subscribe env tg c) = c_state c" "c_state (Unsubscribe env tg c) = c_state c"
  "c_state (StartVoiceCall env src dest g c) = c_state c"
  "c_state (SendAudioFrame env ambe c) = c_state c" "c_state (EndVoiceCall env c) = c_state c"
  "c_state (SendLocationReport env nmea c) = c_state c"
  by (auto simp: Subscribe_def Unsubscribe_def StartVoiceCall_def SendAudioFrame_def EndVoiceCall_def
      SendLocationReport_def Let_def)

lemma SendTextMessage_state: "SendTextMessage env d g msg c = Inr c' \<Longrightarrow> c_state c' = c_state c"
  by (auto simp: SendTextMessage_def Let_def andThen_eq_Inr split: if_splits)

lemma resolve_failed_state [simp]: "c_state (resolve_failed env err msg c) = DISCONNECTED"
  by (simp add: resolve_failed_def Let_def)

lemma on_resolve_state:
  "c_state (on_resolve env ec eps openEc bindEc c) =
    (if c_state c = CONNECTING \<and> (ec \<noteq> None \<or> eps = [] \<or> openEc \<noteq> None \<or> bindEc \<noteq> None)
     then DISCONNECTED else c_state c)"
  by (simp add: on_resolve_def Let_def split: option.split list.split)

lemma on_connect_timeout_state:
  "c_state (on_connect_timeout env ec c) =
    (if (c_state c = CONNECTING \<or> c_state c = AUTHENTICATING) \<and> \<not> aborted ec
     then DISCONNECTED else c_state c)"
  by (simp add: on_connect_timeout_def Let_def)

lemma handle_keep_alive_state:
  "c_state (handle_keep_alive n c) =
    (if n = 0 \<and> c_state c = AUTHENTICATING then CONNECTED else c_state c)"
  by (simp add: handle_keep_alive_def Let_def)

lemma hook_only_state: "hook_only c c' \<Longrightarrow> c_state c' = c_state c"
  by (auto simp: hook_only_def)

lemma dispatched_state:
  "c_state (dispatched env h p c) =
    (if h_type h = CHALLENGE \<and> c_state c = CONNECTING then AUTHENTICATING
     else if h_type h = KEEP_ALIVE \<and> h_length h = 0 \<and> c_state c = AUTHENTICATING then CONNECTED
     else c_state c)"
proof -
  consider "h_type h = CHALLENGE" | "h_type h = KEEP_ALIVE"
    | "h_type h \<noteq> CHALLENGE" "h_type h \<noteq> KEEP_ALIVE" by blast
  then show ?thesis
  proof cases
    case 1
    then show ?thesis by (simp add: dispatched_simps) (simp add: message_type_defs)
  next
    case 2
    then show ?thesis
      by (simp add: dispatched_simps handle_keep_alive_state) (simp add: message_type_defs)
  next
    case 3
    then show ?thesis using hook_only_state [OF dispatched_other] by simp
  qed
qed

lemma Connect_state:
  "Connect throws host port pw ms c = Inr (r, c') \<Longrightarrow>
    c_state c' = (if c_state c = DISCONNECTED \<and> throws ThreadStart = None \<and>
      throws TimerStart = None \<and> throws ResolveStart = None then CONNECTING else c_state c)"
  by (auto simp: Connect_def startup_failed_def Let_def split: if_splits option.splits)

lemma processed_state:
  "c_state (processed env packet c) = s \<and> s \<noteq> c_state c \<longleftrightarrow>
    (\<exists>h p. split_packet (host_order env) packet = Some (h, p) \<and>
      (h_type h = CHALLENGE \<and> c_state c = CONNECTING \<and> s = AUTHENTICATING \<or>
       h_type h = KEEP_ALIVE \<and> h_length h = 0 \<and> c_state c = AUTHENTICATING \<and> s = CONNECTED))"
  by (auto simp: processed_def dispatched_state split: option.splits)

lemma split_packet_Nil [simp]: "split_packet host [] = None"
  by (simp add: split_packet_def DeserializeHeader_def)

lemma session_steps:
  assumes "exec env e c = Inr c'"
  shows "advances env c e s \<longleftrightarrow> c_state c' = s \<and> s \<noteq> c_state c"
proof (cases e)
  case (ConnectCalled throws host port pw ms)
  with assms obtain r where "Connect throws host port pw ms c = Inr (r, c')"
    by (auto simp: andThen_eq_Inr)
  from Connect_state [OF this] ConnectCalled show ?thesis by (auto simp: advances_simps)
next
  case (Received ec data sender)
  then show ?thesis
  proof (cases ec)
    case None
    show ?thesis
    proof (cases "fits c data \<noteq> [] \<and> sender = c_serverEndpoint c \<and> c_state c \<noteq> DISCONNECTED")
      case True
      with assms Received None
      have "c_state c' = c_state (processed env (fits c data) (arrive data sender c))"
        by (auto simp: exec_Received Let_def simp del: exec.simps)
      with True Received None show ?thesis
        using processed_state [of env "fits c data" "arrive data sender c" s]
        by (auto simp: advances_simps)
    next
      case False
      with assms Received None have "c_state c' = c_state c"
        by (auto simp: exec_Received Let_def simp del: exec.simps split: if_splits)
      with False Received None show ?thesis by (auto simp: advances_simps)
    qed
  next
    case (Some err)
    with assms Received show ?thesis
      by (auto simp: exec_Received Let_def advances_simps simp del: exec.simps split: if_splits)
  qed
next
  case (Resolved ec eps openEc bindEc)
  with assms show ?thesis by (auto simp: on_resolve_state advances_simps split: if_splits)
next
  case (ConnectTimeout ec)
  with assms show ?thesis by (auto simp: on_connect_timeout_state advances_simps split: if_splits)
next
  case (SendTextMessageCalled dest g msg)
  with assms show ?thesis by (auto simp: advances_simps dest: SendTextMessage_state)
qed (use assms in \<open>auto simp: advances_simps\<close>)

section \<open>Progress\<close>

text \<open>The states in the order of their enumeration, as integers.\<close>

fun state_code :: "State \<Rightarrow> nat" where
  "state_code DISCONNECTED = 0"
| "state_code CONNECTING = 1"
| "state_code AUTHENTICATING = 2"
| "state_code CONNECTED = 3"

lemma state_code_inject: "state_code s = state_code t \<Longrightarrow> s = t"
  by (cases s; cases t) simp_all

instantiation State :: linorder
begin

definition less_eq_State :: "State \<Rightarrow> State \<Rightarrow> bool" where
  "less_eq_State s t \<longleftrightarrow> state_code s \<le> state_code t"

definition less_State :: "State \<Rightarrow> State \<Rightarrow> bool" where
  "less_State s t \<longleftrightarrow> state_code s < state_code t"

instance
  by standard (auto simp: less_eq_State_def less_State_def intro: state_code_inject)

end

text \<open>A session moves up, or ends.\<close>

lemma advances_up: "advances env c e s \<Longrightarrow> s = DISCONNECTED \<or> c_state c < s"
  by (elim advances_cases) (auto simp: less_State_def)

lemma exec_up: "exec env e c = Inr c' \<Longrightarrow> c_state c' = DISCONNECTED \<or> c_state c \<le> c_state c'"
  using session_steps [of env e c c' "c_state c'"] advances_up [of env c e "c_state c'"]
  by (cases "c_state c' = c_state c") auto

section \<open>What stops the program\<close>

lemma SendTextMessage_total:
  "\<exists>p. SendTextMessage env dest g msg c =
    Inr (if c_state c = CONNECTED then TransmitRaw env MESSAGE_TEXT NONE p c else c)"
proof -
  obtain p where "SerializeTextMessage (host_order env) \<lparr>text_sourceId = c_dmrId c,
      text_destinationId = dest, text_isGroup = g, text_text = msg\<rparr> = Inr p"
    using SerializeTextMessage_returns by blast
  then show ?thesis by (auto simp: SendTextMessage_def)
qed

lemma Connect_aborts:
  "Connect throws host port pw ms c = Inl a \<longleftrightarrow>
    a = Terminate \<and> c_state c = DISCONNECTED \<and> throws ThreadStart = None \<and> ioThread_joinable c"
  by (auto simp: Connect_def Let_def split: option.splits)

lemma exec_aborts:
  "exec env e c = Inl a \<longleftrightarrow> a = Terminate \<and> c_state c = DISCONNECTED \<and> ioThread_joinable c \<and>
    (\<exists>throws host port pw ms. e = ConnectCalled throws host port pw ms \<and> throws ThreadStart = None)"
proof (cases e)
  case (ConnectCalled throws host port pw ms)
  then show ?thesis by (auto simp: andThen_eq_Inl Connect_aborts)
next
  case (SendTextMessageCalled dest g msg)
  then show ?thesis using SendTextMessage_total [of env dest g msg c] by auto
next
  case (Received ec data sender)
  then show ?thesis by (simp add: exec_Received del: exec.simps)
qed simp_all

text \<open>A completion never stops the program, and it leaves the thread to be joined.\<close>

lemma completion_returns: "completion e \<Longrightarrow> \<exists>c'. exec env e c = Inr c'"
  by (cases "exec env e c") (auto simp: exec_aborts)

lemma completions_run: "list_all completion es \<Longrightarrow> \<exists>c'. run env es c = Inr c'"
proof (induction es arbitrary: c)
  case (Cons e es)
  then show ?case using completion_returns [of e env c] by auto
qed simp

end
