(* ===== verification/Client_Invariant.thy ===== *)
theory Client_Invariant
  imports Client_Steps
begin

text \<open>
  The invariant of the client: what holds between any two events of any run. Its first part
  (\<open>orderly\<close>) is about the record of what was sent and every helper keeps it, its second part
  (\<open>linked\<close>) ties the session's state to the socket, the thread and the mutex.
\<close>

section \<open>Numbering\<close>

text \<open>The actions since the session was started.\<close>

definition since_restart :: "'ep action list \<Rightarrow> 'ep action list" where
  "since_restart as = rev (takeWhile (\<lambda>a. a \<noteq> IoRestart) (rev as))"

text \<open>The numbers of the routine packets among some datagrams.\<close>

definition routine_numbers :: "endian \<Rightarrow> (bytes \<times> 'ep) list \<Rightarrow> u32 list" where
  "routine_numbers host ds =
    map h_number (filter (\<lambda>h. h_flags h AND REAL_TIME_1 = 0)
      (List.map_filter (\<lambda>(p, ep). parsed (DeserializeHeader host p)) ds))"

text \<open>They are counted from zero, at the width of the counter.\<close>

definition numbered :: "endian \<Rightarrow> 'ep action list \<Rightarrow> u32 \<Rightarrow> bool" where
  "numbered host as seq \<longleftrightarrow>
    (let ns = routine_numbers host (datagrams (since_restart as))
     in ns = map of_nat [0..<length ns] \<and> seq = of_nat (length ns))"

lemma since_restart_snoc [simp]:
  "since_restart (as @ [a]) = (if a = IoRestart then [] else since_restart as @ [a])"
  by (simp add: since_restart_def)

lemma routine_numbers_append [simp]:
  "routine_numbers host (ds @ ds') = routine_numbers host ds @ routine_numbers host ds'"
  by (simp add: routine_numbers_def map_filter_def)

lemma routine_numbers_Nil [simp]: "routine_numbers host [] = []"
  by (simp add: routine_numbers_def map_filter_def)

lemma routine_numbers_packet:
  "routine_numbers host [(packet_bytes host' h p, ep)] =
    (if h_flags h AND REAL_TIME_1 = 0 then [h_number h] else [])"
  by (simp add: routine_numbers_def map_filter_def packet_bytes_def header.decode_append)

definition plain :: "'ep action \<Rightarrow> bool" where
  "plain a \<longleftrightarrow> a \<noteq> IoRestart \<and> datagrams [a] = []"

lemma plain_actions [simp]:
  "plain (Called cb m w)" "plain NotifyAll" "plain IoStop" "plain ThreadStarted" "plain ThreadJoined"
  "plain (ConnectTimer t)" "plain CancelConnectTimer" "plain (KeepAliveTimer t)"
  "plain CancelKeepAliveTimer" "plain (Resolve h p)" "plain CancelResolver" "plain (OpenSocket ep)"
  "plain BindSocket" "plain CloseSocket" "plain ReceiveFrom"
  by (simp_all add: plain_def)

lemma numbered_plain [simp]: "plain a \<Longrightarrow> numbered host (as @ [a]) seq = numbered host as seq"
  by (simp add: numbered_def plain_def)

lemma numbered_restart [simp]: "numbered host (as @ [IoRestart]) 0"
  by (simp add: numbered_def)

lemma numbered_send:
  assumes "numbered host as seq" "h_flags h AND REAL_TIME_1 = 0 \<Longrightarrow> h_number h = seq"
  shows "numbered host (as @ [SendTo (packet_bytes host' h p) ep])
    (if h_flags h AND REAL_TIME_1 = 0 then seq + 1 else seq)"
  using assms by (simp add: numbered_def Let_def routine_numbers_packet)

section \<open>What every helper keeps\<close>

definition orderly :: "endian \<Rightarrow> 'ep client \<Rightarrow> bool" where
  "orderly host c \<longleftrightarrow>
    numbered host (actions c) (c_routineSeq c) \<and>
    sends c = length (datagrams (actions c)) \<and>
    \<not> c_writeMutex c \<and>
    c_lastError c \<in> {SUCCESS, SOCKET_IO, DNS_RESOLVE, RESPONSE_TIMEOUT} \<and>
    length (c_receiveBuffer c) = 1024"

lemma orderly_update [simp]:
  "orderly host (c\<lparr>c_state := s\<rparr>) = orderly host c"
  "orderly host (c\<lparr>c_password := pw\<rparr>) = orderly host c"
  "orderly host (c\<lparr>c_connectionMutex := b\<rparr>) = orderly host c"
  "orderly host (c\<lparr>c_realTimeSeq := n\<rparr>) = orderly host c"
  "orderly host (c\<lparr>c_inCall := b\<rparr>) = orderly host c"
  "orderly host (c\<lparr>socket_open := b\<rparr>) = orderly host c"
  "orderly host (c\<lparr>c_serverEndpoint := ep\<rparr>) = orderly host c"
  "orderly host (c\<lparr>ioThread_joinable := b\<rparr>) = orderly host c"
  "orderly host c \<Longrightarrow> orderly host (c\<lparr>c_lastError := SUCCESS\<rparr>)"
  "orderly host c \<Longrightarrow> orderly host (c\<lparr>c_lastError := SOCKET_IO\<rparr>)"
  "orderly host c \<Longrightarrow> orderly host (c\<lparr>c_lastError := DNS_RESOLVE\<rparr>)"
  "orderly host c \<Longrightarrow> orderly host (c\<lparr>c_lastError := RESPONSE_TIMEOUT\<rparr>)"
  by (simp_all add: orderly_def)

lemma orderly_arrive [simp]: "orderly host c \<Longrightarrow> orderly host (arrive data sender c)"
  by (simp add: orderly_def)

lemma orderly_act [simp]: "plain a \<Longrightarrow> orderly host (act a c) = orderly host c"
  by (auto simp: orderly_def plain_def numbered_plain)

lemma orderly_call [simp]: "orderly host (call h cb c) = orderly host c"
  by (simp add: call_def)

lemma orderly_TransmitRaw [simp]:
  assumes "orderly host c"
  shows "orderly host (TransmitRaw env t f p c)"
proof (cases "socket_open c")
  case True
  have "numbered host (actions c @ [SendTo (next_packet env t f p c) (c_serverEndpoint c)])
      (if f AND REAL_TIME_1 \<noteq> 0 then c_routineSeq c else c_routineSeq c + 1)"
    using numbered_send [of host "actions c" "c_routineSeq c" "next_header t f p c"] assms
    by (auto simp: next_packet_def next_header_def orderly_def)
  then have "numbered host ((actions c @ [SendTo (next_packet env t f p c) (c_serverEndpoint c)]) @ as)
      (if f AND REAL_TIME_1 \<noteq> 0 then c_routineSeq c else c_routineSeq c + 1)"
    if "list_all plain as" for as
    using that by (induction as rule: rev_induct) (simp_all flip: append_assoc)
  note * = this [of "_ :: 'a action list"]
  show ?thesis
    using assms True * [of "[]"] * [of "[Called cb m True]" for cb m]
    by (auto simp: orderly_def TransmitRaw_open split: option.splits)
qed (simp add: TransmitRaw_closed assms)

lemma orderly_helpers [simp]:
  assumes "orderly host c"
  shows "orderly host (SendKeepAlive env c)" "orderly host (StartKeepAliveTimer c)"
    "orderly host (StartReceiveLoop c)" "orderly host (Disconnect env t c)"
    "e \<in> {DNS_RESOLVE, SOCKET_IO} \<Longrightarrow> orderly host (resolve_failed env e msg c)"
  using assms
  by (auto simp: SendKeepAlive_def StartKeepAliveTimer_def StartReceiveLoop_def Disconnect_def
      StopKeepAliveTimer_def resolve_failed_def Let_def)

section \<open>Session, socket, thread, mutex\<close>

definition linked :: "'ep client \<Rightarrow> bool" where
  "linked c \<longleftrightarrow>
    (c_state c = DISCONNECTED \<longrightarrow> \<not> socket_open c) \<and>
    (c_state c \<noteq> DISCONNECTED \<longrightarrow> ioThread_joinable c) \<and>
    \<not> c_connectionMutex c"

lemma linked_cong:
  "c_state c' = c_state c \<Longrightarrow> socket_open c' = socket_open c \<Longrightarrow>
   ioThread_joinable c' = ioThread_joinable c \<Longrightarrow> c_connectionMutex c' = c_connectionMutex c \<Longrightarrow>
   linked c' = linked c"
  by (simp add: linked_def)

lemma linked_frame [simp]:
  "linked (act a c) = linked c" "linked (call h cb c) = linked c"
  "linked (TransmitRaw env t f p c) = linked c" "linked (arrive data sender c) = linked c"
  "linked (c\<lparr>c_lastError := e\<rparr>) = linked c" "linked (c\<lparr>c_inCall := b\<rparr>) = linked c"
  "linked (c\<lparr>c_realTimeSeq := n\<rparr>) = linked c" "linked (SendKeepAlive env c) = linked c"
  "linked (StartKeepAliveTimer c) = linked c" "linked (StartReceiveLoop c) = linked c"
  by (simp_all add: linked_def SendKeepAlive_def StartKeepAliveTimer_def StartReceiveLoop_def Let_def)

lemma linked_Disconnect [simp]: "linked c \<Longrightarrow> linked (Disconnect env t c)"
  by (simp add: linked_def)

text \<open>The handlers that hold the mutex give it back.\<close>

lemma helpers_frame [simp]:
  "socket_open (resolve_failed env e m c) = (c_state c = DISCONNECTED \<and> socket_open c)"
  "ioThread_joinable (resolve_failed env e m c) = ioThread_joinable c"
  "socket_open (SendKeepAlive env c) = socket_open c" "socket_open (StartReceiveLoop c) = socket_open c"
  "ioThread_joinable (SendKeepAlive env c) = ioThread_joinable c"
  "ioThread_joinable (StartReceiveLoop c) = ioThread_joinable c"
  by (simp_all add: resolve_failed_def SendKeepAlive_def StartReceiveLoop_def Let_def)

lemma linked_on_resolve: "linked c \<Longrightarrow> linked (on_resolve env ec eps openEc bindEc c)"
  by (auto simp: on_resolve_def linked_def Let_def split: option.splits list.splits)

lemma linked_on_connect_timeout: "linked c \<Longrightarrow> linked (on_connect_timeout env ec c)"
  by (auto simp: on_connect_timeout_def linked_def Let_def)

lemma linked_Connect:
  "linked c \<Longrightarrow> Connect throws host port pw ms c = Inr (r, c') \<Longrightarrow> linked c'"
  by (auto simp: Connect_def startup_failed_def linked_def Let_def split: if_splits option.splits)

lemma linked_handle_keep_alive: "linked c \<Longrightarrow> linked (handle_keep_alive n c)"
  by (auto simp: handle_keep_alive_def linked_def StartKeepAliveTimer_def Let_def)

lemma orderly_Connect:
  assumes "orderly host c" "Connect throws h port pw ms c = Inr (r, c')"
  shows "orderly host c'"
proof -
  have "orderly host (act IoRestart (c\<lparr>c_connectionMutex := b, c_password := pw, c_routineSeq := 0,
      c_realTimeSeq := 0, c_inCall := False, c_lastError := SUCCESS\<rparr>))" for b
    using assms(1) by (simp add: orderly_def)
  from orderly_update(8) [THEN iffD2, OF this] this assms show ?thesis
    by (auto simp: Connect_def startup_failed_def Let_def split: if_splits option.splits)
qed

lemma orderly_handlers:
  assumes "orderly host c"
  shows "orderly host (on_resolve env ec eps openEc bindEc c)"
    "orderly host (on_connect_timeout env ec c)" "orderly host (on_keep_alive env ec c)"
    "orderly host (handle_keep_alive n c)"
  using assms
  by (auto simp: on_resolve_def on_connect_timeout_def on_keep_alive_def handle_keep_alive_def Let_def
      split: option.splits list.splits)

lemma SendTextMessage_result:
  "SendTextMessage env d g msg c = Inr c' \<Longrightarrow>
    c' = c \<or> (\<exists>p. c' = TransmitRaw env MESSAGE_TEXT NONE p c)"
  using SendTextMessage_total [of env d g msg c] by (auto split: if_splits)

lemma orderly_requests:
  assumes "orderly host c"
  shows "orderly host (Subscribe env tg c)" "orderly host (Unsubscribe env tg c)"
    "orderly host (StartVoiceCall env src dest g c)" "orderly host (SendAudioFrame env ambe c)"
    "orderly host (EndVoiceCall env c)" "orderly host (SendLocationReport env nmea c)"
    "SendTextMessage env d g msg c = Inr c' \<Longrightarrow> orderly host c'"
  using assms SendTextMessage_result [of env d g msg c c']
  by (auto simp: Subscribe_def Unsubscribe_def StartVoiceCall_def SendAudioFrame_def EndVoiceCall_def
      SendLocationReport_def Let_def)

lemma linked_requests:
  assumes "linked c"
  shows "linked (Subscribe env tg c)" "linked (Unsubscribe env tg c)"
    "linked (StartVoiceCall env src dest g c)" "linked (SendAudioFrame env ambe c)"
    "linked (EndVoiceCall env c)" "linked (SendLocationReport env nmea c)"
    "SendTextMessage env d g msg c = Inr c' \<Longrightarrow> linked c'" "linked (on_keep_alive env ec c)"
  using assms SendTextMessage_result [of env d g msg c c']
  by (auto simp: Subscribe_def Unsubscribe_def StartVoiceCall_def SendAudioFrame_def EndVoiceCall_def
      SendLocationReport_def on_keep_alive_def Let_def)

text \<open>A completion neither starts nor joins the thread.\<close>

lemma joinable_processed: "ioThread_joinable (processed env packet c) = ioThread_joinable c"
proof (cases "split_packet (host_order env) packet")
  case (Some hp)
  then obtain h p where hp: "processed env packet c = dispatched env h p c"
    by (cases hp) (simp add: processed_def)
  consider "h_type h = CHALLENGE" | "h_type h = KEEP_ALIVE" | "hook_only c (dispatched env h p c)"
    using dispatched_other by blast
  then show ?thesis
    by cases (auto simp: hp dispatched_simps hook_only_def handle_keep_alive_def StartKeepAliveTimer_def Let_def)
qed (simp add: processed_def)

lemma joinable_completion:
  assumes "completion e" "exec env e c = Inr c'"
  shows "ioThread_joinable c' = ioThread_joinable c"
proof (cases e)
  case (Received ec data sender)
  with assms(2) show ?thesis
    by (auto simp: exec_Received Let_def joinable_processed simp del: exec.simps split: option.splits if_splits)
next
  case (Resolved ec eps openEc bindEc)
  with assms(2) show ?thesis by (auto simp: on_resolve_def Let_def split: option.splits list.splits if_splits)
qed (use assms in \<open>auto simp: on_connect_timeout_def on_keep_alive_def StartKeepAliveTimer_def Let_def split: if_splits\<close>)

lemma joinable_completions:
  "list_all completion es \<Longrightarrow> run env es c = Inr c' \<Longrightarrow> ioThread_joinable c' = ioThread_joinable c"
proof (induction es arbitrary: c)
  case (Cons e es)
  then show ?case using joinable_completion [of e env c] by (auto simp: andThen_eq_Inr simp del: exec.simps)
qed simp

section \<open>The invariant\<close>

definition client_inv :: "'ep env \<Rightarrow> 'ep client \<Rightarrow> bool" where
  "client_inv env c \<longleftrightarrow> orderly (host_order env) c \<and> linked c"

lemma client_inv_new: "client_inv env (new_client dmrId description ep hks)"
  by (simp add: client_inv_def orderly_def linked_def new_client_def numbered_def since_restart_def)

lemma client_inv_hook_only: "hook_only c c' \<Longrightarrow> client_inv env c' = client_inv env c"
  by (auto simp: hook_only_def client_inv_def)

lemma client_inv_processed:
  assumes "client_inv env c"
  shows "client_inv env (processed env packet c)"
proof (cases "split_packet (host_order env) packet")
  case (Some hp)
  then obtain h p where hp: "processed env packet c = dispatched env h p c"
    by (cases hp) (simp add: processed_def)
  consider "h_type h = CHALLENGE" | "h_type h = KEEP_ALIVE"
    | "h_type h \<noteq> CHALLENGE" "h_type h \<noteq> KEEP_ALIVE" by blast
  then show ?thesis
  proof cases
    case 1
    with assms show ?thesis by (auto simp: hp dispatched_simps client_inv_def linked_def)
  next
    case 2
    with assms show ?thesis
      by (simp add: hp dispatched_simps client_inv_def orderly_handlers linked_handle_keep_alive)
  next
    case 3
    with assms show ?thesis using client_inv_hook_only [OF dispatched_other [of h c env p]] by (simp add: hp)
  qed
qed (simp add: processed_def assms)

lemma client_inv_exec:
  assumes "client_inv env c" "exec env e c = Inr c'"
  shows "client_inv env c'"
proof (cases e)
  case (ConnectCalled throws host port pw ms)
  with assms show ?thesis
    by (auto simp: client_inv_def andThen_eq_Inr dest: orderly_Connect linked_Connect)
next
  case (Received ec data sender)
  have "client_inv env (arrive data sender c)" using assms(1) by (simp add: client_inv_def)
  from this client_inv_processed [OF this] assms(2) Received show ?thesis
    by (auto simp: exec_Received Let_def client_inv_def simp del: exec.simps split: if_splits option.splits)
next
  case (SendTextMessageCalled dest g msg)
  with assms show ?thesis by (auto simp: client_inv_def dest: orderly_requests linked_requests)
qed (use assms in \<open>auto simp: client_inv_def orderly_requests linked_requests orderly_handlers
  linked_on_resolve linked_on_connect_timeout\<close>)

interpretation client: safe_machine "exec env" "run env" "client_inv env" for env
proof
  show "client_inv env c \<Longrightarrow> exec env e c = Inr c' \<Longrightarrow> client_inv env c'" for e c c'
    by (rule client_inv_exec)
  show "exec env e c \<noteq> Inl UB" for e c by (auto simp: exec_aborts)
qed

lemma client_inv_reachable: "reachable env c \<Longrightarrow> client_inv env c"
  by (induction rule: reachable.induct) (auto intro: client_inv_new client_inv_exec)

end
