(* ===== verification/Client_Session.thy ===== *)
theory Client_Session
  imports Client_Invariant
begin

text \<open>
  What the client promises about its session: how it is entered and left, who is told, which
  requests it honours, and what never happens. The facts rest on the interpretations of
  \<open>machine\<close> and \<open>safe_machine\<close> and on the session automaton of \<open>Client_Steps\<close>.
\<close>

section \<open>The handshake behind a connection\<close>

text \<open>The session stays in a state during some events.\<close>

fun stays :: "'ep env \<Rightarrow> State \<Rightarrow> 'ep event list \<Rightarrow> 'ep client \<Rightarrow> bool" where
  "stays env s [] c = (c_state c = s)"
| "stays env s (e # es) c =
    (c_state c = s \<and> (case exec env e c of Inl _ \<Rightarrow> True | Inr c' \<Rightarrow> stays env s es c'))"

lemma staysI:
  "(\<And>mid rest c'. es = mid @ rest \<Longrightarrow> run env mid c = Inr c' \<Longrightarrow> c_state c' = s) \<Longrightarrow> stays env s es c"
proof (induction es arbitrary: c)
  case Nil
  from Nil [of "[]" "[]" c] show ?case by simp
next
  case (Cons e es)
  have "c_state c = s" using Cons.prems [of "[]" "e # es" c] by simp
  moreover have "stays env s es c1" if "exec env e c = Inr c1" for c1
    using that Cons.prems [of "e # _" _ _] by (intro Cons.IH) auto
  ultimately show ?case by (simp split: sum.split)
qed

lemma last_advance:
  assumes "run env es c0 = Inr c" "c_state c0 \<noteq> s" "c_state c = s"
  obtains pre e post c1 c2 where "es = pre @ e # post" "run env pre c0 = Inr c1"
    "exec env e c1 = Inr c2" "advances env c1 e s" "stays env s post c2" "run env post c2 = Inr c"
proof (rule client.last_entry [OF assms(1), of "\<lambda>c. c_state c = s"])
  fix pre e post c1 c2
  assume *: "es = pre @ e # post" "run env pre c0 = Inr c1" "exec env e c1 = Inr c2"
    "c_state c1 \<noteq> s" "c_state c2 = s" "run env post c2 = Inr c"
    "\<And>mid rest c'. post = mid @ rest \<Longrightarrow> run env mid c2 = Inr c' \<Longrightarrow> c_state c' = s"
  have "advances env c1 e s" using session_steps [OF *(3), of s] *(4,5) by simp
  moreover have "stays env s post c2" using *(7) by (rule staysI)
  ultimately show thesis using * by (intro that)
qed (use assms in simp_all)

lemma advances_from:
  "advances env c e CONNECTED \<Longrightarrow> c_state c = AUTHENTICATING"
  "advances env c e AUTHENTICATING \<Longrightarrow> c_state c = CONNECTING"
  "advances env c e CONNECTING \<Longrightarrow> c_state c = DISCONNECTED"
  by (auto elim: advances_cases)

text \<open>The part of a run that led to its state: the events that moved the session on, with the
  clients they met, and what happened between them.\<close>

lemma connected_history:
  assumes "run env es c = Inr c6" "c_state c = DISCONNECTED" "c_state c6 = CONNECTED"
  shows "\<exists>pre e1 mid1 e2 mid2 e3 post c0 c1 c2 c3 c4 c5.
    es = pre @ e1 # mid1 @ e2 # mid2 @ e3 # post \<and>
    run env pre c = Inr c0 \<and> advances env c0 e1 CONNECTING \<and> exec env e1 c0 = Inr c1 \<and>
    stays env CONNECTING mid1 c1 \<and> run env mid1 c1 = Inr c2 \<and>
    advances env c2 e2 AUTHENTICATING \<and> exec env e2 c2 = Inr c3 \<and>
    stays env AUTHENTICATING mid2 c3 \<and> run env mid2 c3 = Inr c4 \<and>
    advances env c4 e3 CONNECTED \<and> exec env e3 c4 = Inr c5 \<and>
    stays env CONNECTED post c5 \<and> run env post c5 = Inr c6"
proof -
  obtain pre3 e3 post c4 c5 where 3: "es = pre3 @ e3 # post" "run env pre3 c = Inr c4"
    "exec env e3 c4 = Inr c5" "advances env c4 e3 CONNECTED" "stays env CONNECTED post c5"
    "run env post c5 = Inr c6"
    using last_advance [OF assms(1) _ assms(3)] assms(2) by (metis State.distinct(5))
  obtain pre2 e2 mid2 c2 c3 where 2: "pre3 = pre2 @ e2 # mid2" "run env pre2 c = Inr c2"
    "exec env e2 c2 = Inr c3" "advances env c2 e2 AUTHENTICATING" "stays env AUTHENTICATING mid2 c3"
    "run env mid2 c3 = Inr c4"
    using last_advance [OF 3(2) _ advances_from(1) [OF 3(4)]] assms(2) by (metis State.distinct(3))
  obtain pre1 e1 mid1 c0 c1 where 1: "pre2 = pre1 @ e1 # mid1" "run env pre1 c = Inr c0"
    "exec env e1 c0 = Inr c1" "advances env c0 e1 CONNECTING" "stays env CONNECTING mid1 c1"
    "run env mid1 c1 = Inr c2"
    using last_advance [OF 2(2) _ advances_from(2) [OF 2(4)]] assms(2) by (metis State.distinct(1))
  have "es = pre1 @ e1 # mid1 @ e2 # mid2 @ e3 # post" by (simp add: 1(1) 2(1) 3(1))
  with 1 2 3 show ?thesis by blast
qed

section \<open>What a disconnect does\<close>

lemma Disconnect_again [simp]: "Disconnect env t (Disconnect env t c) = Disconnect env t c"
proof -
  have "Disconnect env t d = d" if "c_state d = DISCONNECTED" "ioThread_joinable d \<longrightarrow> t = Io" for d
    using that by (simp add: Disconnect_def)
  then show ?thesis by simp
qed

lemma Disconnect_datagrams:
  "datagrams (actions (Disconnect env t c)) = datagrams (actions c) @
    (if c_state c \<noteq> DISCONNECTED \<and> socket_open c then
       [(packet_bytes (host_order env)
          \<lparr>h_type = CLOSE, h_flags = NONE, h_number = c_routineSeq c, h_length = 0\<rparr> [], c_serverEndpoint c)]
     else [])"
proof -
  have "NONE AND REAL_TIME_1 = 0" by (simp add: flag_defs)
  then show ?thesis
    by (auto simp: Disconnect_def Let_def StopKeepAliveTimer_def next_packet_def next_header_def)
qed

section \<open>Telling the waiting thread\<close>

definition emitted :: "'ep client \<Rightarrow> 'ep client \<Rightarrow> 'ep action list" where
  "emitted c c' = drop (length (actions c)) (actions c')"

text \<open>\<open>c'\<close> has acted after \<open>c\<close> without waking the thread that waits in \<open>ConnectSync\<close>.\<close>

definition quiet :: "'ep client \<Rightarrow> 'ep client \<Rightarrow> bool" where
  "quiet c c' \<longleftrightarrow> (\<exists>as. actions c' = actions c @ as \<and> NotifyAll \<notin> set as)"

lemma quiet_same: "actions c' = actions c \<Longrightarrow> quiet c c'"
  by (simp add: quiet_def)

lemma quiet_refl [simp]: "quiet c c"
  by (simp add: quiet_same)

lemma quiet_trans: "quiet c c' \<Longrightarrow> quiet c' c'' \<Longrightarrow> quiet c c''"
  by (auto simp: quiet_def)

lemma quiet_act: "quiet c c' \<Longrightarrow> a \<noteq> NotifyAll \<Longrightarrow> quiet c (act a c')"
  by (auto simp: quiet_def)

lemma quiet_call: "quiet c c' \<Longrightarrow> quiet c (call h cb c')"
  by (auto simp: quiet_def called_def)

lemma quiet_TransmitRaw: "quiet c c' \<Longrightarrow> quiet c (TransmitRaw env t f p c')"
  by (cases "socket_open c'") (auto simp: quiet_def TransmitRaw_open TransmitRaw_closed split: option.splits)

lemma quiet_update [simp]:
  "quiet c (c'\<lparr>c_state := s\<rparr>) = quiet c c'" "quiet c (c'\<lparr>c_lastError := e\<rparr>) = quiet c c'"
  "quiet c (c'\<lparr>socket_open := b\<rparr>) = quiet c c'" "quiet c (c'\<lparr>ioThread_joinable := b\<rparr>) = quiet c c'"
  "quiet c (c'\<lparr>c_connectionMutex := b\<rparr>) = quiet c c'"
  "quiet c (c'\<lparr>c_serverEndpoint := ep\<rparr>) = quiet c c'" "quiet c (arrive data sender c') = quiet c c'"
  by (simp_all add: quiet_def)

lemmas quiet_intros = quiet_act quiet_call quiet_TransmitRaw

lemma quiet_Disconnect: "quiet c c' \<Longrightarrow> quiet c (Disconnect env t c')"
  by (simp add: Disconnect_def Let_def StopKeepAliveTimer_def quiet_intros)

lemma quiet_emitted: "quiet c c' \<Longrightarrow> NotifyAll \<notin> set (emitted c c')"
  by (auto simp: quiet_def emitted_def)

lemma quiet_timers:
  "quiet c c' \<Longrightarrow> quiet c (StartReceiveLoop c')" "quiet c c' \<Longrightarrow> quiet c (StartKeepAliveTimer c')"
  by (simp_all add: StartReceiveLoop_def StartKeepAliveTimer_def quiet_act)

definition loud :: "'ep client \<Rightarrow> 'ep client \<Rightarrow> bool" where
  "loud c c' \<longleftrightarrow> (\<exists>as. actions c' = actions c @ as \<and> NotifyAll \<in> set as)"

lemma loud_notify: "quiet c c' \<Longrightarrow> loud c (act NotifyAll c')"
  by (auto simp: loud_def quiet_def)

lemma loud_act: "loud c c' \<Longrightarrow> loud c (act a c')"
  by (auto simp: loud_def)

lemma loud_call: "loud c c' \<Longrightarrow> loud c (call h cb c')"
  by (auto simp: loud_def)

lemma loud_StartReceiveLoop: "loud c c' \<Longrightarrow> loud c (StartReceiveLoop c')"
  by (simp add: StartReceiveLoop_def loud_act)

lemma loud_update [simp]: "loud c (c'\<lparr>c_connectionMutex := b\<rparr>) = loud c c'"
  by (simp add: loud_def)

lemma loud_emitted: "loud c c' \<Longrightarrow> NotifyAll \<in> set (emitted c c')"
  by (auto simp: loud_def emitted_def)

lemmas quiet_loud_intros =
  quiet_intros quiet_Disconnect quiet_timers loud_notify loud_act loud_call loud_StartReceiveLoop

lemma resolve_failed_loud: "quiet c c' \<Longrightarrow> loud c (resolve_failed env e m c')"
  by (simp add: resolve_failed_def Let_def quiet_loud_intros)

lemma handle_keep_alive_loud:
  "quiet c c' \<Longrightarrow> c_state c' = AUTHENTICATING \<Longrightarrow> loud c (handle_keep_alive 0 c')"
  by (simp add: handle_keep_alive_def Let_def quiet_loud_intros)

lemma on_resolve_loud:
  assumes "c_state c = CONNECTING" "ec \<noteq> None \<or> eps = [] \<or> openEc \<noteq> None \<or> bindEc \<noteq> None"
  shows "loud c (on_resolve env ec eps openEc bindEc c)"
  using assms
  by (cases ec; cases eps; cases openEc; cases bindEc)
    (simp_all add: on_resolve_def Let_def resolve_failed_loud quiet_act)

lemma on_connect_timeout_loud:
  assumes "c_state c = CONNECTING \<or> c_state c = AUTHENTICATING" "\<not> aborted ec"
  shows "loud c (on_connect_timeout env ec c)"
  using assms by (simp add: on_connect_timeout_def Let_def quiet_loud_intros)

lemma processed_accept:
  "split_packet (host_order env) packet = Some (h, p) \<Longrightarrow> h_type h = KEEP_ALIVE \<Longrightarrow>
    processed env packet c = handle_keep_alive (h_length h) c"
  by (simp add: processed_def dispatched_simps)

text \<open>The events that end the wait without a wake-up.\<close>

fun silent :: "'ep event \<Rightarrow> bool" where
  "silent (DisconnectCalled t) = True"
| "silent (Received (Some e) data sender) = True"
| "silent _ = False"

lemma wake_up:
  assumes "exec env e c = Inr c'" "c_state c = CONNECTING \<or> c_state c = AUTHENTICATING"
    "c_state c' = CONNECTED \<or> c_state c' = DISCONNECTED"
  shows "NotifyAll \<in> set (emitted c c') \<longleftrightarrow> \<not> silent e"
proof -
  have "advances env c e (c_state c')"
    using session_steps [OF assms(1), of "c_state c'"] assms(2,3) by auto
  then show ?thesis
  proof cases
    case (accept sender data h p)
    then have "fits c data \<noteq> []" by auto
    with accept assms(1) have "c' = StartReceiveLoop (handle_keep_alive 0 (arrive data sender c))"
      by (simp add: exec_Received processed_accept del: exec.simps)
    with accept show ?thesis
      by (simp add: loud_emitted loud_StartReceiveLoop handle_keep_alive_loud quiet_same)
  next
    case (receive_error err data sender)
    with assms(1) have "quiet c c'"
      by (auto simp: exec_Received Let_def quiet_Disconnect quiet_call quiet_same simp del: exec.simps)
    with receive_error show ?thesis by (simp add: quiet_emitted)
  next
    case (disconnect t)
    with assms(1) show ?thesis by (auto simp: quiet_emitted quiet_Disconnect quiet_same)
  qed (use assms in \<open>auto simp: loud_emitted on_resolve_loud on_connect_timeout_loud\<close>)
qed

section \<open>Hooks and mutexes\<close>

text \<open>The hooks that may run while the client holds a mutex: error reports and the report of
  the end of the session; under \<open>writeMutex_\<close> only the report of a failed write.\<close>

fun under_connection :: "callback \<Rightarrow> bool" where
  "under_connection (OnError e m) = True"
| "under_connection (OnDisconnected e) = True"
| "under_connection _ = False"

fun under_write :: "callback \<Rightarrow> bool" where
  "under_write (OnError e m) = (e = SOCKET_IO)"
| "under_write _ = False"

fun hook_ok :: "'ep action \<Rightarrow> bool" where
  "hook_ok (Called cb connection write) =
    ((connection \<longrightarrow> under_connection cb) \<and> (write \<longrightarrow> under_write cb))"
| "hook_ok _ = True"

definition polite :: "'ep client \<Rightarrow> bool" where
  "polite c \<longleftrightarrow> \<not> c_writeMutex c \<and> list_all hook_ok (actions c)"

lemma polite_update [simp]:
  "polite (c\<lparr>c_state := s\<rparr>) = polite c" "polite (c\<lparr>c_password := pw\<rparr>) = polite c"
  "polite (c\<lparr>c_connectionMutex := b\<rparr>) = polite c" "polite (c\<lparr>c_realTimeSeq := n\<rparr>) = polite c"
  "polite (c\<lparr>c_routineSeq := n\<rparr>) = polite c" "polite (c\<lparr>c_inCall := b\<rparr>) = polite c"
  "polite (c\<lparr>socket_open := b\<rparr>) = polite c" "polite (c\<lparr>c_serverEndpoint := ep\<rparr>) = polite c"
  "polite (c\<lparr>ioThread_joinable := b\<rparr>) = polite c" "polite (c\<lparr>c_lastError := e\<rparr>) = polite c"
  "polite (arrive data sender c) = polite c"
  by (simp_all add: polite_def)

lemma polite_act [simp]: "hook_ok a \<Longrightarrow> polite (act a c) = polite c"
  by (simp add: polite_def)

lemma polite_call [simp]:
  "polite c \<Longrightarrow> c_connectionMutex c \<longrightarrow> under_connection cb \<Longrightarrow> polite (call h cb c)"
  by (simp add: polite_def called_def)

lemma polite_TransmitRaw [simp]: "polite c \<Longrightarrow> polite (TransmitRaw env t f p c)"
  by (cases "socket_open c")
    (auto simp: polite_def TransmitRaw_open TransmitRaw_closed split: option.split)

lemma polite_helpers [simp]:
  assumes "polite c"
  shows "polite (SendKeepAlive env c)" "polite (StartKeepAliveTimer c)" "polite (StartReceiveLoop c)"
    "polite (Disconnect env t c)" "polite (resolve_failed env e m c)"
  using assms
  by (simp_all add: SendKeepAlive_def StartKeepAliveTimer_def StartReceiveLoop_def Disconnect_def
      StopKeepAliveTimer_def resolve_failed_def Let_def)

lemma polite_handlers [simp]:
  assumes "polite c"
  shows "polite (on_resolve env ec eps openEc bindEc c)" "polite (on_connect_timeout env ec c)"
    "polite (on_keep_alive env ec c)" "polite (handle_keep_alive n c)"
  using assms
  by (simp_all add: on_resolve_def on_connect_timeout_def on_keep_alive_def handle_keep_alive_def Let_def
      split: option.split list.split)

lemma polite_requests [simp]:
  assumes "polite c"
  shows "polite (Subscribe env tg c)" "polite (Unsubscribe env tg c)"
    "polite (StartVoiceCall env src dest g c)" "polite (SendAudioFrame env ambe c)"
    "polite (EndVoiceCall env c)" "polite (SendLocationReport env nmea c)"
  using assms
  by (auto simp: Subscribe_def Unsubscribe_def StartVoiceCall_def SendAudioFrame_def EndVoiceCall_def
      SendLocationReport_def Let_def)

lemma polite_Connect: "polite c \<Longrightarrow> Connect throws h port pw ms c = Inr (r, c') \<Longrightarrow> polite c'"
  by (auto simp: Connect_def startup_failed_def Let_def split: if_splits option.splits)

lemma polite_processed:
  assumes "polite c" "\<not> c_connectionMutex c"
  shows "polite (processed env packet c)"
proof (cases "split_packet (host_order env) packet")
  case (Some hp)
  then obtain h p where hp: "processed env packet c = dispatched env h p c"
    by (cases hp) (simp add: processed_def)
  consider "h_type h = CHALLENGE" | "h_type h = KEEP_ALIVE" | "hook_only c (dispatched env h p c)"
    using dispatched_other by blast
  then show ?thesis using assms
    by cases (auto simp: hp dispatched_simps hook_only_def)
qed (simp add: processed_def assms)

lemma polite_exec:
  assumes "polite c" "linked c" "exec env e c = Inr c'"
  shows "polite c'"
proof (cases e)
  case (ConnectCalled throws host port pw ms)
  with assms show ?thesis by (auto simp: andThen_eq_Inr dest: polite_Connect)
next
  case (Received ec data sender)
  have "polite (processed env packet (arrive data sender c))" for packet
    using assms by (intro polite_processed) (simp_all add: linked_def)
  with assms Received show ?thesis
    by (auto simp: exec_Received Let_def simp del: exec.simps split: if_splits option.splits)
next
  case (SendTextMessageCalled dest g msg)
  with assms SendTextMessage_result [of env dest g msg c c'] show ?thesis by auto
qed (use assms in auto)

interpretation polite_client: safe_machine "exec env" "run env" "\<lambda>c. client_inv env c \<and> polite c" for env
proof
  fix e c c'
  assume "client_inv env c \<and> polite c" and e: "exec env e c = Inr c'"
  then have "client_inv env c" "linked c" "polite c" by (auto simp: client_inv_def)
  with client_inv_exec [OF _ e] polite_exec [OF _ _ e] show "client_inv env c' \<and> polite c'" by blast
qed (auto simp: exec_aborts)

lemma reachable_run: "reachable env c \<Longrightarrow> \<exists>es d desc ep hks. run env es (new_client d desc ep hks) = Inr c"
proof (induction rule: reachable.induct)
  case (start d desc ep hks)
  have "run env [] (new_client d desc ep hks) = Inr (new_client d desc ep hks)" by simp
  then show ?case by blast
next
  case (event c e c')
  then obtain es d desc ep hks where "run env es (new_client d desc ep hks) = Inr c" by blast
  with event have "run env (es @ [e]) (new_client d desc ep hks) = Inr c'" by simp
  then show ?case by blast
qed

lemma run_reachable: "run env es c = Inr c' \<Longrightarrow> reachable env c \<Longrightarrow> reachable env c'"
  by (induction es arbitrary: c) (auto simp: andThen_eq_Inr intro: reachable.event)

lemma polite_reachable: "reachable env c \<Longrightarrow> polite c"
proof -
  have "client_inv env (new_client d desc ep hks) \<and> polite (new_client d desc ep hks)"
    for d desc ep hks
    by (simp add: client_inv_new) (simp add: polite_def new_client_def)
  then show "reachable env c \<Longrightarrow> polite c"
    using polite_client.run_inv reachable_run by blast
qed

section \<open>Two short runs\<close>

text \<open>An environment in which every send succeeds; endpoints are numbers.\<close>

definition calm :: "nat env" where
  "calm = \<lparr>host_order = Little, send_to = \<lambda>_ _ _. None\<rparr>"

text \<open>A client that has started to connect, and one whose socket is open.\<close>

definition starting :: "nat client" where
  "starting = projr (run calm [ConnectCalled (\<lambda>_. None) [] 62031 [0x70] 5000]
     (new_client 1234567 [] 0 (\<lambda>_. True)))"

definition waiting :: "nat client" where
  "waiting = projr (run calm [Resolved None [7] None None] starting)"

definition challenge_packet :: bytes where
  "challenge_packet = packet_bytes Little
     \<lparr>h_type = CHALLENGE, h_flags = 0, h_number = 0, h_length = 1\<rparr> [0x73]"

definition accept_packet :: bytes where
  "accept_packet = packet_bytes Little
     \<lparr>h_type = KEEP_ALIVE, h_flags = 0, h_number = 1, h_length = 0\<rparr> []"

lemma starting_run:
  "run calm [ConnectCalled (\<lambda>_. None) [] 62031 [0x70] 5000] (new_client 1234567 [] 0 (\<lambda>_. True)) = Inr starting"
  "c_state starting = CONNECTING" "length (c_receiveBuffer starting) = 1024"
  "ioThread_joinable starting" "hooks starting = (\<lambda>_. True)" "\<not> socket_open starting"
  "c_lastError starting = SUCCESS"
  by (simp_all add: starting_def Connect_def new_client_def)

lemma waiting_run:
  "run calm [Resolved None [7] None None] starting = Inr waiting"
  "c_state waiting = CONNECTING" "c_serverEndpoint waiting = 7"
  "length (c_receiveBuffer waiting) = 1024" "socket_open waiting" "ioThread_joinable waiting"
  by (simp_all add: waiting_def on_resolve_def starting_run Let_def StartReceiveLoop_def SendKeepAlive_def)

lemma host_order_calm [simp]: "host_order calm = Little"
  by (simp add: calm_def)

lemma handshake_packets:
  "split_packet Little challenge_packet =
     Some (\<lparr>h_type = CHALLENGE, h_flags = 0, h_number = 0, h_length = 1\<rparr>, [0x73])"
  "split_packet Little accept_packet =
     Some (\<lparr>h_type = KEEP_ALIVE, h_flags = 0, h_number = 1, h_length = 0\<rparr>, [])"
  "length challenge_packet = 19" "length accept_packet = 18"
  "challenge_packet \<noteq> []" "accept_packet \<noteq> []"
proof -
  show "length challenge_packet = 19" "length accept_packet = 18"
    by (simp_all add: challenge_packet_def accept_packet_def packet_bytes_def header.length_encode)
  then show "challenge_packet \<noteq> []" "accept_packet \<noteq> []" by auto
qed (simp_all add: challenge_packet_def accept_packet_def split_packet_bytes)

definition challenged :: "nat client" where
  "challenged = projr (run calm [Received None challenge_packet 7] waiting)"

definition connected :: "nat client" where
  "connected = projr (run calm [Received None accept_packet 7] challenged)"

lemma frame_StartReceiveLoop [simp]:
  "c_serverEndpoint (StartReceiveLoop c) = c_serverEndpoint c"
  "c_receiveBuffer (StartReceiveLoop c) = c_receiveBuffer c"
  "hooks (StartReceiveLoop c) = hooks c"
  by (simp_all add: StartReceiveLoop_def)

lemma challenged_run:
  "run calm [Received None challenge_packet 7] waiting = Inr challenged"
  "c_state challenged = AUTHENTICATING" "c_serverEndpoint challenged = 7"
  "length (c_receiveBuffer challenged) = 1024" "socket_open challenged"
  by (simp_all add: challenged_def exec_Received waiting_run fits_def handshake_packets processed_def
      dispatched_simps del: exec.simps)

lemma frame_handle_keep_alive [simp]:
  "socket_open (handle_keep_alive n c) = socket_open c"
  "c_receiveBuffer (handle_keep_alive n c) = c_receiveBuffer c"
  by (simp_all add: handle_keep_alive_def StartKeepAliveTimer_def Let_def)

lemma processed_keeps_open:
  "socket_open (processed env p c) = socket_open c"
  "c_state c \<noteq> DISCONNECTED \<Longrightarrow> c_state (processed env p c) \<noteq> DISCONNECTED"
proof -
  have "socket_open (dispatched env h q c) = socket_open c" for h q
  proof -
    consider "h_type h = CHALLENGE" | "h_type h = KEEP_ALIVE" | "hook_only c (dispatched env h q c)"
      using dispatched_other by blast
    then show ?thesis by cases (auto simp: dispatched_simps hook_only_def)
  qed
  then show "socket_open (processed env p c) = socket_open c"
    by (auto simp: processed_def split: option.split)
  show "c_state c \<noteq> DISCONNECTED \<Longrightarrow> c_state (processed env p c) \<noteq> DISCONNECTED"
    by (auto simp: processed_def dispatched_state split: option.splits)
qed

lemma connected_run:
  "run calm [Received None accept_packet 7] challenged = Inr connected"
  "c_state connected = CONNECTED" "socket_open connected"
  by (simp_all add: connected_def exec_Received challenged_run fits_def handshake_packets processed_def
      dispatched_simps handle_keep_alive_state del: exec.simps)

lemma sample_run:
  "run calm [ConnectCalled (\<lambda>_. None) [] 62031 [0x70] 5000, Resolved None [7] None None,
     Received None challenge_packet 7, Received None accept_packet 7]
     (new_client 1234567 [] 0 (\<lambda>_. True)) = Inr connected"
proof -
  have "run calm ([ConnectCalled (\<lambda>_. None) [] 62031 [0x70] 5000] @ [Resolved None [7] None None] @
     [Received None challenge_packet 7] @ [Received None accept_packet 7])
     (new_client 1234567 [] 0 (\<lambda>_. True)) = Inr connected"
    by (simp only: run_simps(3) starting_run(1) waiting_run(1) challenged_run(1) connected_run(1)
        andThen.simps)
  then show ?thesis by simp
qed

lemma run_one: "run env [e] c = exec env e c"
  by (cases "exec env e c") simp_all

lemmas sample_steps = starting_run(1) [unfolded run_one] waiting_run(1) [unfolded run_one]
  challenged_run(1) [unfolded run_one] connected_run(1) [unfolded run_one]

lemma sample_reachable: "reachable calm connected" "reachable calm starting"
  using run_reachable [OF sample_run reachable.start] run_reachable [OF starting_run(1) reachable.start]
  by simp_all

end
