(* ===== verification/Client_Promises.thy ===== *)
theory Client_Promises
  imports Client_Session
begin

text \<open>
  The properties of the client as a state machine: how its session moves, what a run can never
  do, who is told about the end of a connection attempt, and which defects the code has there.
\<close>

text \<open>C1. The session changes its state exactly as the session automaton says: it is started by
  \<open>Connect\<close>, a challenge from the server moves it from connecting to authenticating, an empty
  keep-alive from the server moves it from authenticating to connected, a failure or a
  disconnect ends it, and nothing else (no other packet, sender, request or timer) changes it.\<close>

theorem Session_exact:
  assumes "exec env e c = Inr c'"
  shows "advances env c e s \<longleftrightarrow> c_state c' = s \<and> s \<noteq> c_state c"
  using assms by (rule session_steps)

theorem Session_exact_witness:
  "advances calm challenged (Received None accept_packet 7) CONNECTED"
  using Session_exact [OF sample_steps(4)] connected_run challenged_run by simp

text \<open>C7. A client that is connected has been through the whole handshake: in every run from a
  new client the last events that moved the session are a \<open>Connect\<close>, a challenge from the
  server's endpoint while connecting, and an empty keep-alive from it while authenticating, and
  the session did not leave these states in between.\<close>

theorem Connected_only_after_handshake:
  assumes "run env es (new_client dmrId desc ep hks) = Inr c" "c_state c = CONNECTED"
  shows "\<exists>pre e1 mid1 e2 mid2 e3 post c0 c1 c2 c3 c4 c5.
    es = pre @ e1 # mid1 @ e2 # mid2 @ e3 # post \<and>
    run env pre (new_client dmrId desc ep hks) = Inr c0 \<and>
    advances env c0 e1 CONNECTING \<and> exec env e1 c0 = Inr c1 \<and>
    stays env CONNECTING mid1 c1 \<and> run env mid1 c1 = Inr c2 \<and>
    advances env c2 e2 AUTHENTICATING \<and> exec env e2 c2 = Inr c3 \<and>
    stays env AUTHENTICATING mid2 c3 \<and> run env mid2 c3 = Inr c4 \<and>
    advances env c4 e3 CONNECTED \<and> exec env e3 c4 = Inr c5 \<and>
    stays env CONNECTED post c5 \<and> run env post c5 = Inr c"
  using connected_history [OF assms(1) _ assms(2)] by (simp add: new_client_def)

theorem Connected_only_after_handshake_witness:
  "\<exists>pre e post. [ConnectCalled (\<lambda>_. None) [] 62031 [0x70] 5000, Resolved None [7] None None,
     Received None challenge_packet 7, Received None accept_packet 7] = pre @ e # post \<and>
   (\<exists>c. advances calm c e AUTHENTICATING)"
  using Connected_only_after_handshake [OF sample_run connected_run(2)] by (metis append.assoc append_Cons)

text \<open>C6. Nothing but a second \<open>Connect\<close> stops the program: no event in any state, no datagram of
  any content among them, makes it read outside an array (every byte that a decoder, the voice
  header, the text conversion or the digest reads is a checked access), and \<open>std::terminate\<close> is
  called exactly when \<open>Connect\<close> is called on a disconnected client whose thread has not been
  joined, and the constructor of the new thread does not throw.\<close>

theorem Aborts_exact:
  "exec env e c = Inl a \<longleftrightarrow> a = Terminate \<and> c_state c = DISCONNECTED \<and> ioThread_joinable c \<and>
    (\<exists>throws host port pw ms. e = ConnectCalled throws host port pw ms \<and> throws ThreadStart = None)"
  by (rule exec_aborts)

text \<open>C11. Between two events of any run: a disconnected client has no open socket, any other has
  its thread, no mutex is held, the receive buffer has its 1024 bytes, every datagram is
  accounted for, and the last error is one of four: an error code such as \<open>WRONG_PASSWORD\<close> is
  never reported.\<close>

theorem Client_invariant:
  assumes "reachable env c"
  shows "(c_state c = DISCONNECTED \<longrightarrow> \<not> socket_open c) \<and>
    (c_state c \<noteq> DISCONNECTED \<longrightarrow> ioThread_joinable c) \<and>
    \<not> c_connectionMutex c \<and> \<not> c_writeMutex c \<and> length (c_receiveBuffer c) = 1024 \<and>
    sends c = length (datagrams (actions c)) \<and>
    c_lastError c \<in> {SUCCESS, SOCKET_IO, DNS_RESOLVE, RESPONSE_TIMEOUT}"
  using client_inv_reachable [OF assms] by (auto simp: client_inv_def orderly_def linked_def)

theorem Client_invariant_witness: "ioThread_joinable connected \<and> \<not> c_connectionMutex connected"
  using Client_invariant [OF sample_reachable(1)] connected_run by simp

text \<open>C26. The routine packets of a session carry the numbers 0, 1, 2, ... in the order they are
  sent, at the width of the counter, and every \<open>Connect\<close> starts them again at 0.\<close>

theorem Routine_packets_numbered:
  assumes "reachable env c"
  shows "routine_numbers (host_order env) (datagrams (since_restart (actions c))) =
      map of_nat [0..<length (routine_numbers (host_order env) (datagrams (since_restart (actions c))))] \<and>
    c_routineSeq c = of_nat (length (routine_numbers (host_order env) (datagrams (since_restart (actions c)))))"
  using client_inv_reachable [OF assms] by (simp add: client_inv_def orderly_def numbered_def Let_def)

theorem Routine_packets_numbered_witness:
  "c_routineSeq starting =
    of_nat (length (routine_numbers Little (datagrams (since_restart (actions starting)))))"
  using Routine_packets_numbered [OF sample_reachable(2)] by simp

text \<open>C22. The end of a connection attempt, in success or failure, wakes the thread that waits in
  \<open>ConnectSync\<close> unless it came from a receive error or from \<open>Disconnect\<close> itself: those two leave
  it waiting.\<close>

theorem Wake_up:
  assumes "exec env e c = Inr c'" and "c_state c = CONNECTING \<or> c_state c = AUTHENTICATING"
    and "c_state c' = CONNECTED \<or> c_state c' = DISCONNECTED"
  shows "NotifyAll \<in> set (emitted c c') \<longleftrightarrow>
    \<not> (case e of DisconnectCalled t \<Rightarrow> True | Received ec data sender \<Rightarrow> ec \<noteq> None | _ \<Rightarrow> False)"
proof -
  have "silent e = (case e of DisconnectCalled t \<Rightarrow> True | Received ec data sender \<Rightarrow> ec \<noteq> None | _ \<Rightarrow> False)"
    by (cases e rule: silent.cases) simp_all
  with wake_up [OF assms] show ?thesis by simp
qed

theorem Wake_up_witness:
  "NotifyAll \<in> set (emitted challenged connected) \<and>
   (\<exists>c'. exec calm (Received (Some \<lparr>ec_aborted = False, ec_message = ''x''\<rparr>) [] 0) challenged = Inr c' \<and>
     c_state c' = DISCONNECTED \<and> NotifyAll \<notin> set (emitted challenged c'))"
proof
  from Wake_up [OF sample_steps(4)] show "NotifyAll \<in> set (emitted challenged connected)"
    using challenged_run(2) connected_run(2) by simp
  let ?e = "Received (Some \<lparr>ec_aborted = False, ec_message = ''x''\<rparr>) [] (0 :: nat)"
  obtain c' where c': "exec calm ?e challenged = Inr c'" "c_state c' = DISCONNECTED"
    using challenged_run(2) by (simp add: exec_Received Let_def del: exec.simps)
  from Wake_up [OF c'(1)] challenged_run(2) c'(2) have "NotifyAll \<notin> set (emitted challenged c')" by simp
  with c' show "\<exists>c'. exec calm ?e challenged = Inr c' \<and> c_state c' = DISCONNECTED \<and>
      NotifyAll \<notin> set (emitted challenged c')" by blast
qed

text \<open>C33. The hooks that bring data (messages, voice, locations, reports) and \<open>onConnected\<close> run
  with no mutex held, so they may call the client; under \<open>connectionMutex_\<close> run only \<open>onError\<close>
  and \<open>onDisconnected\<close>, under \<open>writeMutex_\<close> only the report of a failed send.\<close>

theorem Hooks_and_mutexes:
  assumes "reachable env c"
  shows "list_all (\<lambda>a. case a of
      Called (OnError e m) connection write \<Rightarrow> write \<longrightarrow> e = SOCKET_IO
    | Called (OnDisconnected e) connection write \<Rightarrow> \<not> write
    | Called cb connection write \<Rightarrow> \<not> connection \<and> \<not> write
    | _ \<Rightarrow> True) (actions c)"
proof -
  have "hook_ok a \<Longrightarrow> (case a of
      Called (OnError e m) connection write \<Rightarrow> write \<longrightarrow> e = SOCKET_IO
    | Called (OnDisconnected e) connection write \<Rightarrow> \<not> write
    | Called cb connection write \<Rightarrow> \<not> connection \<and> \<not> write
    | _ \<Rightarrow> True)" for a :: "'a action"
    by (auto split: action.split callback.split)
  with polite_reachable [OF assms] show ?thesis by (auto simp: polite_def elim: list.pred_mono_strong)
qed

theorem Hooks_and_mutexes_witness:
  "Called OnConnected True False \<notin> set (actions connected)"
  using Hooks_and_mutexes [OF sample_reachable(1)] by (auto simp: list_all_iff)

text \<open>C34. \<open>Disconnect\<close> ends any session: afterwards the client is disconnected and its socket
  closed, a server that could be reached was sent one empty CLOSE packet, a disconnected client
  sends nothing, and a second call from the same thread does nothing.\<close>

theorem Disconnect_effect:
  "c_state (Disconnect env t c) = DISCONNECTED \<and>
   Disconnect env t (Disconnect env t c) = Disconnect env t c \<and>
   (if c_state c = DISCONNECTED then datagrams (actions (Disconnect env t c)) = datagrams (actions c)
    else \<not> socket_open (Disconnect env t c) \<and>
      datagrams (actions (Disconnect env t c)) = datagrams (actions c) @
        (if socket_open c then
           [(packet_bytes (host_order env)
              \<lparr>h_type = CLOSE, h_flags = NONE, h_number = c_routineSeq c, h_length = 0\<rparr> [],
             c_serverEndpoint c)]
         else []))"
proof (intro conjI)
  show "if c_state c = DISCONNECTED then datagrams (actions (Disconnect env t c)) = datagrams (actions c)
    else \<not> socket_open (Disconnect env t c) \<and>
      datagrams (actions (Disconnect env t c)) = datagrams (actions c) @
        (if socket_open c then
           [(packet_bytes (host_order env)
              \<lparr>h_type = CLOSE, h_flags = NONE, h_number = c_routineSeq c, h_length = 0\<rparr> [],
             c_serverEndpoint c)]
         else [])"
    by (simp add: Disconnect_datagrams)
qed simp_all

text \<open>C27. However a session ends in the background (a failed resolution, open or bind, a timeout
  while connecting or authenticating, a receive error, and whatever completions come before and
  after), its thread is left to be joined: a following \<open>Connect\<close> that starts calls
  \<open>std::terminate\<close>, while after a \<open>Disconnect\<close> of the application it connects.\<close>

theorem Reconnect_terminates:
  assumes "reachable env c" "c_state c \<noteq> DISCONNECTED"
    and "list_all completion es" "run env es c = Inr c'" "c_state c' = DISCONNECTED"
  shows "exec env (ConnectCalled (\<lambda>_. None) host port pw ms) c' = Inl Terminate \<and>
    (\<exists>c''. run env [DisconnectCalled App, ConnectCalled (\<lambda>_. None) host port pw ms] c' = Inr c'' \<and>
      c_state c'' = CONNECTING)"
proof -
  have "ioThread_joinable c" using client_inv_reachable [OF assms(1)] assms(2) by (simp add: client_inv_def linked_def)
  then have "ioThread_joinable c'" using joinable_completions [OF assms(3,4)] by simp
  with assms(5) show ?thesis by (simp add: Connect_def Let_def)
qed

theorem Reconnect_terminates_witness:
  "\<exists>c'. run calm [Resolved None [7] None None, ConnectTimeout None] starting = Inr c' \<and>
    exec calm (ConnectCalled (\<lambda>_. None) [] 62031 [0x70] 5000) c' = Inl Terminate"
proof -
  obtain c' where c': "run calm [Resolved None [7] None None, ConnectTimeout None] starting = Inr c'"
    using completions_run [of "[Resolved None [7] None None, ConnectTimeout None]" calm starting] by auto
  moreover from c' have "c_state c' = DISCONNECTED"
    using waiting_run(1,2) by (auto simp: on_connect_timeout_state aborted_def)
  ultimately show ?thesis
    using Reconnect_terminates [OF sample_reachable(2) _ _ c'] starting_run by auto
qed

text \<open>C28. A resolution that outlives its session: Asio keeps the completion handlers of a stopped
  context until it runs again, and the handler of the resolution only looks at the state. If
  the application disconnects and connects again before the first resolution has reported, then
  the report of its cancellation ends the second session as a failed resolution, and its
  success registers the second session at the endpoint of the first server, where a challenge
  is answered with the digest of the second password.\<close>

theorem Stale_resolution:
  assumes "c_state c0 = CONNECTING"
    and "run env [DisconnectCalled App, ConnectCalled (\<lambda>_. None) host port pw ms] c0 = Inr c"
  shows "c_state c = CONNECTING \<and>
    (\<exists>c'. exec env (Resolved (Some e) eps None None) c = Inr c' \<and>
       c_state c' = DISCONNECTED \<and> c_lastError c' = DNS_RESOLVE) \<and>
    (\<exists>c'. exec env (Resolved None (old # eps) None None) c = Inr c' \<and>
       c_state c' = CONNECTING \<and> c_serverEndpoint c' = old \<and> c_password c' = pw \<and>
       datagrams (actions c') = datagrams (actions c) @
         [(next_packet env KEEP_ALIVE NONE (SerializeVersionData (host_order env)
             \<lparr>v_dmrId = c_dmrId c, v_service = OPEN_TERMINAL, v_description = c_description c\<rparr>) c, old)])"
proof -
  have c: "c_state c = CONNECTING" "c_password c = pw" "\<not> socket_open c"
    using assms by (auto simp: Connect_def)
  then have "c_lastError (resolve_failed env DNS_RESOLVE m (c\<lparr>c_connectionMutex := True\<rparr>)) = DNS_RESOLVE" for m
    by (simp add: resolve_failed_def Disconnect_def Let_def StopKeepAliveTimer_def)
  with c show ?thesis
    by (simp add: on_resolve_def Let_def StartReceiveLoop_def SendKeepAlive_def next_packet_def next_header_def)
qed

theorem Stale_resolution_witness:
  "\<exists>c c'. run calm [DisconnectCalled App, ConnectCalled (\<lambda>_. None) [] 62031 [0x71] 5000] starting = Inr c \<and>
    exec calm (Resolved None [7] None None) c = Inr c' \<and> c_serverEndpoint c' = 7 \<and> c_password c' = [0x71]"
proof -
  obtain c where c: "run calm [DisconnectCalled App, ConnectCalled (\<lambda>_. None) [] 62031 [0x71] 5000] starting = Inr c"
    using starting_run by (simp add: Connect_def)
  from Stale_resolution [OF starting_run(2) c] have
    "\<exists>c'. exec calm (Resolved None [7] None None) c = Inr c' \<and> c_serverEndpoint c' = 7 \<and> c_password c' = [0x71]"
    by blast
  with c show ?thesis by blast
qed

text \<open>What \<open>Connect\<close> answers: on a client that is not disconnected it refuses and changes
  nothing; otherwise it succeeds exactly if none of its steps throws, with the session at
  connecting and both counters at 0, and reports a socket error and stays disconnected if one
  throws.\<close>

lemma Connect_outcome:
  "case Connect throws host port pw ms c of
     Inl a \<Rightarrow> c_state c = DISCONNECTED \<and> ioThread_joinable c
   | Inr (r, c') \<Rightarrow>
       if c_state c \<noteq> DISCONNECTED then r = ALREADY_CONNECTED \<and> c' = c
       else if throws ThreadStart = None \<and> throws TimerStart = None \<and> throws ResolveStart = None
       then r = SUCCESS \<and> c_state c' = CONNECTING \<and> c_routineSeq c' = 0 \<and> c_realTimeSeq c' = 0 \<and>
         c_password c' = pw \<and> \<not> c_inCall c' \<and> c_lastError c' = SUCCESS \<and>
         emitted c c' = [IoRestart, ThreadStarted, ConnectTimer ms, Resolve host port]
       else r = SOCKET_IO \<and> c_state c' = DISCONNECTED"
  by (auto simp: Connect_def startup_failed_def Let_def emitted_def split: option.splits sum.splits)

text \<open>Outside an established session every request of the application is a no-op: no packet
  leaves a client that is not connected.\<close>

lemma Requests_need_session:
  assumes "c_state c \<noteq> CONNECTED"
  shows "Subscribe env tg c = c \<and> Unsubscribe env tg c = c \<and> StartVoiceCall env src dest g c = c \<and>
    SendAudioFrame env ambe c = c \<and> EndVoiceCall env c = c \<and> SendTextMessage env dest g msg c = Inr c \<and>
    SendLocationReport env nmea c = c \<and> on_keep_alive env ec c = c"
  using assms
  by (simp add: Subscribe_def Unsubscribe_def StartVoiceCall_def SendAudioFrame_def EndVoiceCall_def
      SendTextMessage_def SendLocationReport_def on_keep_alive_def)

text \<open>A datagram from anyone but the server, or one that is not a packet (short, wrong
  signature, or fewer bytes than its header announces), has no effect: the client only waits for
  the next one.\<close>

lemma Foreign_datagram_ignored:
  assumes "sender \<noteq> c_serverEndpoint c \<or> split_packet (host_order env) (fits c data) = None"
    and "c_state c \<noteq> DISCONNECTED"
  shows "exec env (Received None data sender) c = Inr (StartReceiveLoop (arrive data sender c))"
  using assms by (auto simp: exec_Received processed_def Let_def simp del: exec.simps)

text \<open>\<open>ConnectSync\<close>, once started, returns exactly when the session is first seen connected
  or disconnected by the waiting thread, and returns \<open>SUCCESS\<close> exactly if it is connected then.\<close>

lemma ConnectSync_waits:
  "wait_connected wakes = Some r \<longleftrightarrow>
    (\<exists>pre c post. wakes = pre @ c # post \<and>
      list_all (\<lambda>d. c_state d = CONNECTING \<or> c_state d = AUTHENTICATING) pre \<and>
      (c_state c = CONNECTED \<and> r = SUCCESS \<or>
       c_state c = DISCONNECTED \<and> r \<noteq> SUCCESS \<and>
         r = (if c_lastError c = SUCCESS then RESPONSE_TIMEOUT else c_lastError c)))"
proof (induction wakes)
  case (Cons d wakes)
  show ?case
    unfolding first_split [of d wakes "\<lambda>d. c_state d = CONNECTING \<or> c_state d = AUTHENTICATING"]
      wait_connected.simps
    using Cons.IH by (cases "c_state d") auto
qed simp

text \<open>The receive loop does not stop while there is a session: after each datagram, accepted
  or not, the client has asked for the next one; after a read error it has disconnected.\<close>

lemma Receive_loop:
  assumes "exec env (Received ec data sender) c = Inr c'" "socket_open c" "c_state c \<noteq> DISCONNECTED"
  shows "if ec = None then c_state c' \<noteq> DISCONNECTED \<and> socket_open c' \<and> last (actions c') = ReceiveFrom
    else if aborted ec then c_state c' = c_state c
    else c_state c' = DISCONNECTED \<and> c_lastError c' = SOCKET_IO \<and> \<not> socket_open c'"
proof -
  have "socket_open (processed env p d) = socket_open d"
    "c_state d \<noteq> DISCONNECTED \<Longrightarrow> c_state (processed env p d) \<noteq> DISCONNECTED" for p and d :: "'a client"
    using processed_keeps_open by blast+
  with assms show ?thesis
    by (auto simp: exec_Received Let_def StartReceiveLoop_def aborted_def lastError_Disconnect
        simp del: exec.simps split: option.splits if_splits)
qed

end
