(* ===== verification/Threads.thy ===== *)
theory Threads
  imports Cxx "HOL-Library.Multiset"
begin

text \<open>
  Threads that share a state, one access at a time. A task is the tree of what a thread still
  has to do: a step on the shared state, which may have to wait, and the task that follows. A
  schedule says whose turn it is. The contract of a mutex is a locale: tasks that do all their
  work between locking and unlocking it run, in effect, one after the other.
\<close>

section \<open>Steps and schedules\<close>

codatatype 's task = Return | Step "'s \<Rightarrow> ('s \<times> 's task) option"

text \<open>One step; \<open>None\<close> if the task has returned or has to wait.\<close>

definition step :: "'s task \<Rightarrow> 's \<Rightarrow> ('s \<times> 's task) option" where
  "step t s = (case t of Return \<Rightarrow> None | Step f \<Rightarrow> f s)"

lemma step_simps [simp]: "step Return s = None" "step (Step f) s = f s"
  by (simp_all add: step_def)

definition turn :: "nat \<Rightarrow> 's \<times> 's task list \<Rightarrow> 's \<times> 's task list" where
  "turn i = (\<lambda>(s, ts).
     if i < length ts then
       case step (ts ! i) s of None \<Rightarrow> (s, ts) | Some (s', t) \<Rightarrow> (s', ts[i := t])
     else (s, ts))"

fun schedule :: "nat list \<Rightarrow> 's \<times> 's task list \<Rightarrow> 's \<times> 's task list" where
  "schedule [] p = p"
| "schedule (i # is) p = schedule is (turn i p)"

lemma schedule_append: "schedule (is @ js) p = schedule js (schedule is p)"
  by (induction "is" arbitrary: p) simp_all

lemma schedule_inv:
  assumes "\<And>i s ts. I s ts \<Longrightarrow> case turn i (s, ts) of (s', ts') \<Rightarrow> I s' ts'"
  shows "schedule is (s, ts) = (s', ts') \<Longrightarrow> I s ts \<Longrightarrow> I s' ts'"
proof (induction "is" arbitrary: s ts)
  case (Cons i "is")
  obtain s1 ts1 where "turn i (s, ts) = (s1, ts1)" by fastforce
  with Cons assms [OF Cons.prems(2), of i] show ?case by auto
qed simp

text \<open>Nobody can move.\<close>

definition quiescent :: "'s \<times> 's task list \<Rightarrow> bool" where
  "quiescent = (\<lambda>(s, ts). list_all (\<lambda>t. step t s = None) ts)"

text \<open>The pieces of straight code: an access, a test, a value read into a local variable.\<close>

definition then_do :: "('s \<Rightarrow> 's) \<Rightarrow> 's task \<Rightarrow> 's task" where
  "then_do f t = Step (\<lambda>s. Some (f s, t))"

definition branch :: "('s \<Rightarrow> bool) \<Rightarrow> 's task \<Rightarrow> 's task \<Rightarrow> 's task" where
  "branch b t t' = Step (\<lambda>s. Some (s, if b s then t else t'))"

definition reading :: "('s \<Rightarrow> 'a) \<Rightarrow> ('a \<Rightarrow> 's task) \<Rightarrow> 's task" where
  "reading v t = Step (\<lambda>s. Some (s, t (v s)))"

definition await :: "('s \<Rightarrow> bool) \<Rightarrow> ('s \<Rightarrow> 's) \<Rightarrow> 's task \<Rightarrow> 's task" where
  "await b f t = Step (\<lambda>s. if b s then Some (f s, t) else None)"

lemma step_pieces [simp]:
  "step (then_do f t) s = Some (f s, t)"
  "step (branch b t t') s = Some (s, if b s then t else t')"
  "step (reading v u) s = Some (s, u (v s))"
  "step (await b f t) s = (if b s then Some (f s, t) else None)"
  by (simp_all add: then_do_def branch_def reading_def await_def)

lemma pieces_not_Return [simp]:
  "then_do f t \<noteq> Return" "branch b t t' \<noteq> Return" "reading v u \<noteq> Return" "await b f t \<noteq> Return"
  by (simp_all add: then_do_def branch_def reading_def await_def)

section \<open>A task on its own\<close>

text \<open>\<open>alone t s t' s'\<close>: without other tasks, \<open>t\<close> gets from \<open>s\<close> to \<open>s'\<close>, with \<open>t'\<close> left to do.\<close>

inductive alone :: "'s task \<Rightarrow> 's \<Rightarrow> 's task \<Rightarrow> 's \<Rightarrow> bool" where
  stop [intro]: "alone t s t s"
| go: "step t s = Some (s1, t1) \<Longrightarrow> alone t1 s1 t' s' \<Longrightarrow> alone t s t' s'"

lemma alone_trans: "alone t s t1 s1 \<Longrightarrow> alone t1 s1 t' s' \<Longrightarrow> alone t s t' s'"
  by (induction rule: alone.induct) (auto intro: alone.go)

lemma alone_pieces:
  "alone t (f s) t' s' \<Longrightarrow> alone (then_do f t) s t' s'"
  "alone (if b s then t else u) s t' s' \<Longrightarrow> alone (branch b t u) s t' s'"
  "alone (k (v s)) s t' s' \<Longrightarrow> alone (reading v k) s t' s'"
  "b s \<Longrightarrow> alone t (f s) t' s' \<Longrightarrow> alone (await b f t) s t' s'"
  by (auto intro: alone.go)

lemma alone_refl: "s = s' \<Longrightarrow> alone t s t s'"
  by auto

text \<open>A task alone is a schedule of its turns only.\<close>

lemma turn_alone:
  assumes "alone t s t' s'" "i < length ts" "ts ! i = t"
  shows "\<exists>n. schedule (replicate n i) (s, ts) = (s', ts[i := t'])"
  using assms
proof (induction arbitrary: ts rule: alone.induct)
  case (stop t s)
  then show ?case by (auto intro!: exI [of _ 0])
next
  case (go t s s1 t1 t' s')
  then have "turn i (s, ts) = (s1, ts[i := t1])" by (simp add: turn_def)
  moreover obtain n where "schedule (replicate n i) (s1, ts[i := t1]) = (s', ts[i := t'])"
    using go.IH [of "ts[i := t1]"] go.prems by auto
  ultimately show ?case by (intro exI [of _ "Suc n"]) simp
qed

text \<open>What some schedule can lead to.\<close>

definition can_reach :: "'s \<times> 's task list \<Rightarrow> 's \<times> 's task list \<Rightarrow> bool" where
  "can_reach p q \<longleftrightarrow> (\<exists>is. schedule is p = q)"

lemma can_reach_refl: "can_reach p p"
  unfolding can_reach_def by (intro exI [of _ "[]"]) simp

lemma can_reach_alone:
  "alone (ts ! i) s t s' \<Longrightarrow> i < length ts \<Longrightarrow> can_reach (s', ts[i := t]) q \<Longrightarrow> can_reach (s, ts) q"
  unfolding can_reach_def by (metis schedule_append turn_alone)

section \<open>Mutexes\<close>

text \<open>\<open>inside held t s next s'\<close>: \<open>t\<close> holds the mutex in \<open>s\<close>, never waits, and gives it up with the
  step that leaves \<open>next\<close> to be done, in \<open>s'\<close>.\<close>

inductive inside :: "('s \<Rightarrow> bool) \<Rightarrow> 's task \<Rightarrow> 's \<Rightarrow> 's task \<Rightarrow> 's \<Rightarrow> bool" for held where
  last: "held s \<Longrightarrow> step t s = Some (s', next) \<Longrightarrow> \<not> held s' \<Longrightarrow> inside held t s next s'"
| more: "held s \<Longrightarrow> step t s = Some (s1, t1) \<Longrightarrow> inside held t1 s1 next s' \<Longrightarrow> inside held t s next s'"

lemma inside_held: "inside held t s next s' \<Longrightarrow> held s"
  by (induction rule: inside.induct)

lemma inside_released: "inside held t s next s' \<Longrightarrow> \<not> held s'"
  by (induction rule: inside.induct)

lemma inside_alone: "inside held t s next s' \<Longrightarrow> alone t s next s'"
  by (induction rule: inside.induct) (auto intro: alone.go)

lemma inside_step:
  "inside held t s next s' \<longleftrightarrow> held s \<and> (\<exists>s1 t1. step t s = Some (s1, t1) \<and>
    (t1 = next \<and> s' = s1 \<and> \<not> held s' \<or> inside held t1 s1 next s'))"
  by (subst inside.simps) auto

lemma inside_pieces [simp]:
  "inside held (then_do f t) s next s' \<longleftrightarrow>
    held s \<and> (t = next \<and> s' = f s \<and> \<not> held s' \<or> inside held t (f s) next s')"
  "inside held (branch b t u) s next s' \<longleftrightarrow> held s \<and>
    ((if b s then t else u) = next \<and> s' = s \<and> \<not> held s' \<or> inside held (if b s then t else u) s next s')"
  "inside held (reading v k) s next s' \<longleftrightarrow>
    held s \<and> (k (v s) = next \<and> s' = s \<and> \<not> held s' \<or> inside held (k (v s)) s next s')"
  by (simp_all add: inside_step [of held "then_do f t"] inside_step [of held "branch b t u"]
      inside_step [of held "reading v k"])

definition locked :: "('s \<Rightarrow> bool) \<Rightarrow> ('s \<Rightarrow> 's) \<Rightarrow> 's task \<Rightarrow> 's task" where
  "locked held acquire t = await (\<lambda>s. \<not> held s) acquire t"

lemma step_locked [simp]:
  "step (locked held acquire t) s = (if held s then None else Some (acquire s, t))"
  by (simp add: locked_def)

lemma locked_not_Return [simp]: "locked held acquire t \<noteq> Return"
  by (simp add: locked_def)

lemma alone_locked: "\<not> held s \<Longrightarrow> alone t (acquire s) t' s' \<Longrightarrow> alone (locked held acquire t) s t' s'"
  by (simp add: locked_def alone_pieces(4))

text \<open>Jobs done under a mutex: each has a body, a task, and an effect as a whole, as long as the
  state is one in which the jobs work (\<open>ok\<close>), which each of them keeps.\<close>

locale critical =
  fixes held :: "'s \<Rightarrow> bool" and acquire :: "'s \<Rightarrow> 's"
    and body :: "'j \<Rightarrow> 's task" and effect :: "'j \<Rightarrow> 's \<Rightarrow> 's" and ok :: "'s \<Rightarrow> bool"
  assumes body_inside: "\<not> held s \<Longrightarrow> ok s \<Longrightarrow> inside held (body j) (acquire s) Return (effect j s)"
    and effect_ok: "\<not> held s \<Longrightarrow> ok s \<Longrightarrow> ok (effect j s)"
begin

abbreviation job :: "'j \<Rightarrow> 's task" where
  "job j \<equiv> locked held acquire (body j)"

text \<open>After any number of turns some jobs are done, in some order, and at most one more is
  under way; the others wait for their first step.\<close>

definition done_in :: "'s \<Rightarrow> 'j list \<Rightarrow> nat list \<Rightarrow> 's" where
  "done_in s js order = fold (\<lambda>i. effect (js ! i)) order s"

definition untouched :: "'j list \<Rightarrow> nat list \<Rightarrow> nat \<Rightarrow> 's task \<Rightarrow> bool" where
  "untouched js order i t \<longleftrightarrow> t = (if i \<in> set order then Return else job (js ! i))"

definition progress :: "'s \<Rightarrow> 'j list \<Rightarrow> 's \<Rightarrow> 's task list \<Rightarrow> bool" where
  "progress s0 js s ts \<longleftrightarrow> length ts = length js \<and> (\<exists>order. distinct order \<and> set order \<subseteq> {..<length js} \<and>
     (\<not> held s \<and> ok s \<and> s = done_in s0 js order \<and> (\<forall>i < length js. untouched js order i (ts ! i)) \<or>
      (\<exists>k < length js. k \<notin> set order \<and> ok (effect (js ! k) (done_in s0 js order)) \<and>
        inside held (ts ! k) s Return (effect (js ! k) (done_in s0 js order)) \<and>
        (\<forall>i < length js. i \<noteq> k \<longrightarrow> untouched js order i (ts ! i)))))"

lemma progress_start: "\<not> held s \<Longrightarrow> ok s \<Longrightarrow> progress s js s (map job js)"
  unfolding progress_def by (auto intro!: exI [of _ "[]"] simp: done_in_def untouched_def)

lemma progress_turn:
  assumes "progress s0 js s ts"
  shows "case turn i (s, ts) of (s', ts') \<Rightarrow> progress s0 js s' ts'"
proof (cases "i < length ts \<and> step (ts ! i) s \<noteq> None")
  case True
  then obtain s' t where st: "step (ts ! i) s = Some (s', t)" by auto
  have i: "i < length js" and len: "length ts = length js" using True assms by (simp_all add: progress_def)
  obtain order where order: "distinct order" "set order \<subseteq> {..<length js}"
    "\<not> held s \<and> ok s \<and> s = done_in s0 js order \<and> (\<forall>i < length js. untouched js order i (ts ! i)) \<or>
      (\<exists>k < length js. k \<notin> set order \<and> ok (effect (js ! k) (done_in s0 js order)) \<and>
        inside held (ts ! k) s Return (effect (js ! k) (done_in s0 js order)) \<and>
        (\<forall>i < length js. i \<noteq> k \<longrightarrow> untouched js order i (ts ! i)))"
    using assms unfolding progress_def by blast
  have "progress s0 js s' (ts[i := t])"
    using order(3)
  proof (elim disjE exE conjE)
    assume free: "\<not> held s" "ok s" "s = done_in s0 js order"
      "\<forall>i < length js. untouched js order i (ts ! i)"
    then have "i \<notin> set order" using st i by (auto simp: untouched_def)
    with free st i have "t = body (js ! i)" "s' = acquire s" by (auto simp: untouched_def)
    then have "inside held t s' Return (effect (js ! i) (done_in s0 js order))"
      using body_inside [OF free(1,2)] free(3) by auto
    moreover have "ok (effect (js ! i) (done_in s0 js order))" using effect_ok [OF free(1,2)] free(3) by simp
    ultimately show ?thesis using order free(4) \<open>i \<notin> set order\<close> i len
      unfolding progress_def by (auto intro!: exI [of _ order])
  next
    fix k assume k: "k < length js" "k \<notin> set order" "ok (effect (js ! k) (done_in s0 js order))"
      "inside held (ts ! k) s Return (effect (js ! k) (done_in s0 js order))"
      "\<forall>i < length js. i \<noteq> k \<longrightarrow> untouched js order i (ts ! i)"
    have "i = k"
    proof (rule ccontr)
      assume "i \<noteq> k"
      with k(5) i have "untouched js order i (ts ! i)" by blast
      with st inside_held [OF k(4)] show False by (auto simp: untouched_def split: if_splits)
    qed
    from k(4) show ?thesis
    proof (cases rule: inside.cases)
      case last
      then have "t = Return" "s' = done_in s0 js (order @ [k])" "\<not> held s'"
        using st \<open>i = k\<close> by (simp_all add: done_in_def)
      moreover have "untouched js (order @ [k]) j (ts[i := t] ! j)" if "j < length js" for j
        using that k(5) len \<open>t = Return\<close> \<open>i = k\<close> by (cases "j = k") (auto simp: untouched_def)
      ultimately show ?thesis
        using order(1,2) k(1,2,3) len unfolding progress_def
        by (auto simp: done_in_def intro!: exI [of _ "order @ [k]"])
    next
      case (more s1 t1)
      then have "inside held t s' Return (effect (js ! k) (done_in s0 js order))" using st \<open>i = k\<close> by simp
      with order(1,2) k len \<open>i = k\<close> show ?thesis
        unfolding progress_def by (auto intro!: exI [of _ order])
    qed
  qed
  with st True show ?thesis by (simp add: turn_def)
next
  case False
  then have "turn i (s, ts) = (s, ts)" by (auto simp: turn_def split: option.splits)
  with assms show ?thesis by simp
qed

lemma progress_schedule:
  "schedule is (s, map job js) = (s', ts') \<Longrightarrow> \<not> held s \<Longrightarrow> ok s \<Longrightarrow> progress s js s' ts'"
  by (rule schedule_inv [OF progress_turn _ progress_start])

text \<open>When nobody can move every job is done, and the result is that of one order.\<close>

lemma serial:
  assumes "schedule is (s, map job js) = (s', ts')" "\<not> held s" "ok s" "quiescent (s', ts')"
  shows "\<exists>js'. mset js' = mset js \<and> s' = fold effect js' s \<and> ts' = replicate (length js) Return"
proof -
  from progress_schedule [OF assms(1-3)] obtain order where order: "length ts' = length js"
    "distinct order" "set order \<subseteq> {..<length js}"
    "\<not> held s' \<and> s' = done_in s js order \<and> (\<forall>i < length js. untouched js order i (ts' ! i)) \<or>
      (\<exists>k < length js. k \<notin> set order \<and> inside held (ts' ! k) s' Return (effect (js ! k) (done_in s js order)))"
    unfolding progress_def by blast
  have stuck: "step (ts' ! i) s' = None" if "i < length js" for i
    using assms(4) that order(1) by (simp add: quiescent_def list_all_length)
  have "\<not> inside held (ts' ! k) s' Return s1" if "k < length js" for k s1
    using stuck [OF that] by (subst inside_step) simp
  with order(4) have free: "\<not> held s'" "s' = done_in s js order"
    "\<forall>i < length js. untouched js order i (ts' ! i)" by blast+
  have all: "i \<in> set order" if "i < length js" for i
    using free stuck [OF that] that by (auto simp: untouched_def split: if_splits)
  with order(3) have "set order = {..<length js}" by auto
  with order(2) have "mset order = mset [0..<length js]"
    by (metis atLeast_upt distinct_upt set_eq_iff_mset_eq_distinct)
  then have "mset (map ((!) js) order) = mset (map ((!) js) [0..<length js])" by (simp only: mset_map)
  moreover have "done_in s js order = fold effect (map ((!) js) order) s"
    by (simp add: done_in_def fold_map comp_def)
  moreover have "ts' = replicate (length js) Return"
    using order(1) free(3) all by (auto intro!: nth_equalityI simp: untouched_def)
  ultimately show ?thesis using free(2) by (metis map_nth)
qed

text \<open>The jobs can all be done.\<close>

lemma completes:
  assumes "\<not> held s" "ok s"
  shows "\<exists>is s'. schedule is (s, map job js) = (s', replicate (length js) Return)"
proof -
  have "\<exists>is s'. \<not> held s' \<and> ok s' \<and> schedule is (s, map job js) = (s', replicate k Return @ map job (drop k js))"
    if "k \<le> length js" for k
    using that
  proof (induction k)
    case 0
    from assms show ?case by (intro exI [of _ "[]"]) auto
  next
    case (Suc k)
    then obtain "is" s1 where s1: "\<not> held s1" "ok s1"
      "schedule is (s, map job js) = (s1, replicate k Return @ map job (drop k js))" by auto
    let ?ts = "replicate k Return @ map job (drop k js)"
    from s1(1,2) have "alone (job (js ! k)) s1 Return (effect (js ! k) s1)"
      by (intro alone_locked inside_alone [OF body_inside])
    moreover have "?ts ! k = job (js ! k)" "k < length ?ts" using Suc.prems by (simp_all add: nth_append)
    ultimately obtain n where "schedule (replicate n k) (s1, ?ts) = (effect (js ! k) s1, ?ts[k := Return])"
      using turn_alone by metis
    moreover have "?ts[k := Return] = replicate (Suc k) Return @ map job (drop (Suc k) js)"
      using Suc.prems by (simp add: list_update_append Cons_nth_drop_Suc [symmetric] replicate_append_same [symmetric])
    moreover have "\<not> held (effect (js ! k) s1)"
      using inside_released [OF body_inside [OF s1(1,2)]] .
    moreover have "ok (effect (js ! k) s1)" using effect_ok [OF s1(1,2)] .
    ultimately show ?case using s1(3) by (metis schedule_append)
  qed
  from this [of "length js"] show ?thesis by auto
qed

end

end
