(* ===== verification/Client_Threads.thy ===== *)
theory Client_Threads
  imports Threads Client_Session
begin

text \<open>
  The client's operations at the grain of their accesses to shared members. \<open>Client\<close> has each
  operation as one function; here it is a task whose steps are the loads, stores and calls of
  the source in their order, with the two mutexes taken and given up where the source does.
  Between two steps any other thread may run. Alone, each task does what its function does.
\<close>

section \<open>The shared state\<close>

text \<open>The client, and what the threads see of each other: whether the background thread still
  runs, whether the thread in \<open>ConnectSync\<close> sleeps on the condition variable, what
  \<open>ConnectSync\<close> has returned, what the calls of \<open>Connect\<close> have, in their order, and whether
  \<open>std::terminate\<close> has been called, after which no state exists.\<close>

record 'ep shared =
  client_of :: "'ep client"
  io_running :: bool
  sleeping :: bool
  answer :: "ClientError option"
  replies :: "ClientError list"
  terminated :: bool

definition on :: "('ep client \<Rightarrow> 'ep client) \<Rightarrow> 'ep shared \<Rightarrow> 'ep shared" where
  "on f s = s\<lparr>client_of := f (client_of s)\<rparr>"

lemma on_simps [simp]:
  "client_of (on f s) = f (client_of s)" "io_running (on f s) = io_running s"
  "sleeping (on f s) = sleeping s" "answer (on f s) = answer s"
  "replies (on f s) = replies s" "terminated (on f s) = terminated s"
  "on f (on g s) = on (\<lambda>c. f (g c)) s"
  by (simp_all add: on_def)

text \<open>\<open>std::lock_guard\<close> on either mutex: the lock, and the unlock of its destructor.\<close>

definition lock_write :: "'ep shared task \<Rightarrow> 'ep shared task" where
  "lock_write = locked (\<lambda>s. c_writeMutex (client_of s)) (on (\<lambda>c. c\<lparr>c_writeMutex := True\<rparr>))"

definition unlock_write :: "'ep shared task \<Rightarrow> 'ep shared task" where
  "unlock_write = then_do (on (\<lambda>c. c\<lparr>c_writeMutex := False\<rparr>))"

definition lock_connection :: "'ep shared task \<Rightarrow> 'ep shared task" where
  "lock_connection =
    locked (\<lambda>s. c_connectionMutex (client_of s)) (on (\<lambda>c. c\<lparr>c_connectionMutex := True\<rparr>))"

definition unlock_connection :: "'ep shared task \<Rightarrow> 'ep shared task" where
  "unlock_connection = then_do (on (\<lambda>c. c\<lparr>c_connectionMutex := False\<rparr>))"

definition notify_all :: "'ep shared task \<Rightarrow> 'ep shared task" where
  "notify_all = then_do (\<lambda>s. (on (act NotifyAll) s)\<lparr>sleeping := False\<rparr>)"

section \<open>Sending\<close>

text \<open>What a hook of the user does, before it goes on with what follows it.\<close>

type_synonym 'ep user_code = "'ep shared task \<Rightarrow> 'ep shared task"

text \<open>The report of a failed send.\<close>

definition report_error :: "'ep user_code \<Rightarrow> error_code \<Rightarrow> 'ep shared task \<Rightarrow> 'ep shared task" where
  "report_error hook e next =
    then_do (on (\<lambda>c. c\<lparr>c_lastError := SOCKET_IO\<rparr>))
    (branch (\<lambda>s. hooks (client_of s) onError)
      (then_do (on (call onError (OnError SOCKET_IO (''Socket write error: '' @ ec_message e)))) (hook next))
      next)"

text \<open>\<open>socket_.send_to\<close> and what follows, with the number the packet has got.\<close>

definition send_packet :: "'ep env \<Rightarrow> 'ep user_code \<Rightarrow> u16 \<Rightarrow> u16 \<Rightarrow> bytes \<Rightarrow> u32 \<Rightarrow>
    'ep shared task \<Rightarrow> 'ep shared task" where
  "send_packet env hook type flag payload seqNum next =
    reading (\<lambda>s. c_serverEndpoint (client_of s)) (\<lambda>serverEndpoint.
    let h = \<lparr>h_type = type, h_flags = flag, h_number = seqNum, h_length = of_nat (length payload)\<rparr>;
        packet = packet_bytes (host_order env) h payload
    in reading (\<lambda>s. send_to env (sends (client_of s)) packet serverEndpoint) (\<lambda>ec.
       then_do (on (\<lambda>c. act (SendTo packet serverEndpoint) (c\<lparr>sends := sends c + 1\<rparr>)))
       (case ec of None \<Rightarrow> next | Some e \<Rightarrow> report_error hook e next)))"

text \<open>\<open>realTimeSeq_++\<close> and \<open>routineSeq_++\<close>, a load and a store.\<close>

definition take_number :: "bool \<Rightarrow> (u32 \<Rightarrow> 'ep shared task) \<Rightarrow> 'ep shared task" where
  "take_number isRealTime next =
    (if isRealTime then
       reading (\<lambda>s. c_realTimeSeq (client_of s)) (\<lambda>n.
       then_do (on (\<lambda>c. c\<lparr>c_realTimeSeq := n + 1\<rparr>)) (next n))
     else
       reading (\<lambda>s. c_routineSeq (client_of s)) (\<lambda>n.
       then_do (on (\<lambda>c. c\<lparr>c_routineSeq := n + 1\<rparr>)) (next n)))"

definition transmit_body :: "'ep env \<Rightarrow> 'ep user_code \<Rightarrow> u16 \<Rightarrow> u16 \<Rightarrow> bytes \<Rightarrow>
    'ep shared task \<Rightarrow> 'ep shared task" where
  "transmit_body env hook type flag payload next =
    branch (\<lambda>s. socket_open (client_of s))
      (take_number (flag AND REAL_TIME_1 \<noteq> 0) (\<lambda>seqNum.
       send_packet env hook type flag payload seqNum (unlock_write next)))
      (unlock_write next)"

definition TransmitRaw_hooked :: "'ep env \<Rightarrow> 'ep user_code \<Rightarrow> u16 \<Rightarrow> u16 \<Rightarrow> bytes \<Rightarrow>
    'ep shared task \<Rightarrow> 'ep shared task" where
  "TransmitRaw_hooked env hook type flag payload next =
    lock_write (transmit_body env hook type flag payload next)"

text \<open>With a hook that does not use the client.\<close>

definition TransmitRaw_task :: "'ep env \<Rightarrow> u16 \<Rightarrow> u16 \<Rightarrow> bytes \<Rightarrow> 'ep shared task \<Rightarrow> 'ep shared task" where
  "TransmitRaw_task env = TransmitRaw_hooked env (\<lambda>next. next)"

section \<open>The session\<close>

definition StartKeepAliveTimer_task :: "'ep shared task \<Rightarrow> 'ep shared task" where
  "StartKeepAliveTimer_task next =
    branch (\<lambda>s. c_state (client_of s) \<noteq> CONNECTED) next
      (then_do (on (act (KeepAliveTimer KEEP_ALIVE_INTERVAL_SEC))) next)"

text \<open>A return from \<open>Connect\<close>: its value first, then the unlock by the destructor.\<close>

definition Connect_returns :: "ClientError \<Rightarrow> 'ep shared task \<Rightarrow> 'ep shared task" where
  "Connect_returns r next = then_do (\<lambda>s. s\<lparr>replies := replies s @ [r]\<rparr>) (unlock_connection next)"

definition startup_failed_task :: "string \<Rightarrow> 'ep shared task \<Rightarrow> 'ep shared task" where
  "startup_failed_task what next =
    then_do (on (\<lambda>c. c\<lparr>c_state := DISCONNECTED\<rparr>))
    (then_do (on (call onError (OnError SOCKET_IO (''Socket error during connection startup: '' @ what))))
    (Connect_returns SOCKET_IO next))"

text \<open>The part of \<open>Connect\<close> that starts the background thread and what runs on it.\<close>

definition start_thread :: "(startup_point \<Rightarrow> string option) \<Rightarrow> bytes \<Rightarrow> u16 \<Rightarrow> u32 \<Rightarrow>
    'ep shared task \<Rightarrow> 'ep shared task" where
  "start_thread throws host port timeoutMs next =
    (case throws ThreadStart of Some what \<Rightarrow> startup_failed_task what next | None \<Rightarrow>
       branch (\<lambda>s. ioThread_joinable (client_of s))
         (then_do (\<lambda>s. s\<lparr>terminated := True\<rparr>) Return)
         (then_do (\<lambda>s. (on (\<lambda>c. act ThreadStarted (c\<lparr>ioThread_joinable := True\<rparr>)) s)\<lparr>io_running := True\<rparr>)
         (then_do (on (\<lambda>c. c\<lparr>c_state := CONNECTING\<rparr>))
         (case throws TimerStart of Some what \<Rightarrow> startup_failed_task what next | None \<Rightarrow>
            then_do (on (act (ConnectTimer timeoutMs)))
            (case throws ResolveStart of Some what \<Rightarrow> startup_failed_task what next | None \<Rightarrow>
               then_do (on (act (Resolve host port))) (Connect_returns SUCCESS next))))))"

definition Connect_body :: "(startup_point \<Rightarrow> string option) \<Rightarrow> bytes \<Rightarrow> u16 \<Rightarrow> bytes \<Rightarrow> u32 \<Rightarrow>
    'ep shared task \<Rightarrow> 'ep shared task" where
  "Connect_body throws host port password timeoutMs next =
    branch (\<lambda>s. c_state (client_of s) \<noteq> DISCONNECTED) (Connect_returns ALREADY_CONNECTED next)
      (then_do (on (\<lambda>c. c\<lparr>c_password := password\<rparr>))
      (then_do (on (\<lambda>c. c\<lparr>c_routineSeq := 0\<rparr>))
      (then_do (on (\<lambda>c. c\<lparr>c_realTimeSeq := 0\<rparr>))
      (then_do (on (\<lambda>c. c\<lparr>c_inCall := False\<rparr>))
      (then_do (on (\<lambda>c. c\<lparr>c_lastError := SUCCESS\<rparr>))
      (then_do (on (act IoRestart)) (start_thread throws host port timeoutMs next)))))))"

definition Connect_task :: "(startup_point \<Rightarrow> string option) \<Rightarrow> bytes \<Rightarrow> u16 \<Rightarrow> bytes \<Rightarrow> u32 \<Rightarrow>
    'ep shared task \<Rightarrow> 'ep shared task" where
  "Connect_task throws host port password timeoutMs next =
    lock_connection (Connect_body throws host port password timeoutMs next)"

text \<open>The join at the end of \<open>Disconnect\<close> waits for the background thread.\<close>

definition join_task :: "thread \<Rightarrow> 'ep shared task \<Rightarrow> 'ep shared task" where
  "join_task this_thread next =
    branch (\<lambda>s. ioThread_joinable (client_of s) \<and> this_thread \<noteq> Io)
      (await (\<lambda>s. \<not> io_running s) (on (\<lambda>c. act ThreadJoined (c\<lparr>ioThread_joinable := False\<rparr>))) next)
      next"

definition close_all :: "'ep shared task \<Rightarrow> 'ep shared task" where
  "close_all next =
    then_do (on StopKeepAliveTimer)
    (then_do (on (act CancelConnectTimer))
    (then_do (on (act CancelResolver))
    (then_do (on (\<lambda>c. act CloseSocket (c\<lparr>socket_open := False\<rparr>)))
    (then_do (on (act IoStop))
    (then_do (on (\<lambda>c. call onDisconnected (OnDisconnected (c_lastError c)) c)) next)))))"

definition Disconnect_task :: "'ep env \<Rightarrow> thread \<Rightarrow> 'ep shared task \<Rightarrow> 'ep shared task" where
  "Disconnect_task env this_thread next =
    branch (\<lambda>s. c_state (client_of s) \<noteq> DISCONNECTED)
      (then_do (on (\<lambda>c. c\<lparr>c_state := DISCONNECTED\<rparr>))
       (branch (\<lambda>s. socket_open (client_of s))
          (TransmitRaw_task env CLOSE NONE [] (close_all (join_task this_thread next)))
          (close_all (join_task this_thread next))))
      (join_task this_thread next)"

definition on_connect_timeout_task :: "'ep env \<Rightarrow> error_code option \<Rightarrow> 'ep shared task \<Rightarrow> 'ep shared task" where
  "on_connect_timeout_task env ec next =
    (if aborted ec then next
     else lock_connection
       (branch (\<lambda>s. c_state (client_of s) = CONNECTING \<or> c_state (client_of s) = AUTHENTICATING)
         (then_do (on (\<lambda>c. c\<lparr>c_lastError := RESPONSE_TIMEOUT\<rparr>))
         (then_do (on (call onError
            (OnError RESPONSE_TIMEOUT ''Connection timed out during handshake'')))
         (Disconnect_task env Io (notify_all (unlock_connection next)))))
         (unlock_connection next)))"

definition handle_challenge_task :: "'ep env \<Rightarrow> bytes \<Rightarrow> 'ep shared task \<Rightarrow> 'ep shared task" where
  "handle_challenge_task env payload next =
    branch (\<lambda>s. c_state (client_of s) = CONNECTING)
      (then_do (on (\<lambda>c. c\<lparr>c_state := AUTHENTICATING\<rparr>))
       (reading (\<lambda>s. payload @ c_password (client_of s)) (\<lambda>hashBuf.
          TransmitRaw_task env AUTHENTICATION NONE (projr (Sha256 hashBuf)) next)))
      next"

definition notify_connected :: "'ep shared task \<Rightarrow> 'ep shared task" where
  "notify_connected next = lock_connection (notify_all (unlock_connection next))"

definition handle_keep_alive_task :: "u16 \<Rightarrow> 'ep shared task \<Rightarrow> 'ep shared task" where
  "handle_keep_alive_task len next =
    branch (\<lambda>s. len = 0 \<and> c_state (client_of s) = AUTHENTICATING)
      (then_do (on (\<lambda>c. c\<lparr>c_state := CONNECTED\<rparr>))
      (then_do (on (act CancelConnectTimer))
      (StartKeepAliveTimer_task
      (notify_connected
      (then_do (on (call onConnected OnConnected)) next)))))
      next"

text \<open>The background thread, \<open>ioContext_.run()\<close>: it runs handlers, one after the other, until the
  context is stopped.\<close>

definition io_stopped :: "'ep client \<Rightarrow> bool" where
  "io_stopped c \<longleftrightarrow> IoStop \<in> set (since_restart (actions c))"

fun io_thread :: "('ep shared task \<Rightarrow> 'ep shared task) list \<Rightarrow> 'ep shared task" where
  "io_thread [] = await (\<lambda>s. io_stopped (client_of s)) (\<lambda>s. s\<lparr>io_running := False\<rparr>) Return"
| "io_thread (handler # handlers) =
    branch (\<lambda>s. io_stopped (client_of s)) (io_thread []) (handler (io_thread handlers))"

section \<open>Waiting for the connection\<close>

text \<open>Where a thread is in \<open>ConnectSync\<close>, after the start: about to lock, at either load of the
  condition, about to sleep, asleep, at the test of the result, about to answer, to unlock, back.\<close>

datatype wait_point = Lock | Test_connected | Test_disconnected | Sleep | Asleep | Result
  | Failed | Unlock ClientError | Back

fun wait_step :: "wait_point \<Rightarrow> 'ep shared \<Rightarrow> ('ep shared \<times> wait_point) option" where
  "wait_step Lock s = (if c_connectionMutex (client_of s) then None
     else Some (on (\<lambda>c. c\<lparr>c_connectionMutex := True\<rparr>) s, Test_connected))"
| "wait_step Test_connected s =
     Some (s, if c_state (client_of s) = CONNECTED then Result else Test_disconnected)"
| "wait_step Test_disconnected s =
     Some (s, if c_state (client_of s) = DISCONNECTED then Result else Sleep)"
| "wait_step Sleep s = Some ((on (\<lambda>c. c\<lparr>c_connectionMutex := False\<rparr>) s)\<lparr>sleeping := True\<rparr>, Asleep)"
| "wait_step Asleep s = (if sleeping s then None else Some (s, Lock))"
| "wait_step Result s =
     Some (s, if c_state (client_of s) \<noteq> CONNECTED then Failed else Unlock SUCCESS)"
| "wait_step Failed s = Some (s, Unlock
     (if c_lastError (client_of s) \<noteq> SUCCESS then c_lastError (client_of s) else RESPONSE_TIMEOUT))"
| "wait_step (Unlock r) s =
     Some ((on (\<lambda>c. c\<lparr>c_connectionMutex := False\<rparr>) s)\<lparr>answer := Some r\<rparr>, Back)"
| "wait_step Back s = None"

primcorec ConnectSync_task :: "wait_point \<Rightarrow> 'ep shared task" where
  "ConnectSync_task p = (if p = Back then Return
     else Step (\<lambda>s. map_option (map_prod id ConnectSync_task) (wait_step p s)))"

lemma step_ConnectSync [simp]:
  "step (ConnectSync_task p) s = map_option (map_prod id ConnectSync_task) (wait_step p s)"
  by (subst ConnectSync_task.code) simp

text \<open>\<open>std::condition_variable::wait\<close> may also wake up for no reason.\<close>

primcorec spurious_wakeups :: "'ep shared task" where
  "spurious_wakeups = Step (\<lambda>s. Some (s\<lparr>sleeping := False\<rparr>, spurious_wakeups))"

section \<open>Each task alone\<close>

lemma on_eq [simp]: "on f s = on g s \<longleftrightarrow> f (client_of s) = g (client_of s)"
  by (metis on_def on_simps(1))

lemma on_same: "f (client_of s) = client_of s \<Longrightarrow> on f s = s"
  by (simp add: on_def)

lemmas transmit_defs = transmit_body_def take_number_def send_packet_def report_error_def unlock_write_def

lemmas transmit_simps = transmit_defs TransmitRaw_def send_result_def next_packet_def next_header_def Let_def call_def

text \<open>What becomes of a send depends on the socket, on the counter it takes, and on its result.\<close>

lemma transmit_inside:
  assumes "\<not> c_writeMutex (client_of s)"
  shows "inside (\<lambda>s. c_writeMutex (client_of s)) (transmit_body env (\<lambda>next. next) type flag payload next)
    (on (\<lambda>c. c\<lparr>c_writeMutex := True\<rparr>) s) next (on (TransmitRaw env type flag payload) s)"
proof (cases "socket_open (client_of s)")
  case True
  have "flag AND REAL_TIME_1 = 0 \<Longrightarrow> ?thesis" 
    using assms True
    by (cases "send_result env type flag payload (client_of s)") (simp_all add: transmit_simps)
  moreover have "flag AND REAL_TIME_1 \<noteq> 0 \<Longrightarrow> ?thesis" 
    using assms True
    by (cases "send_result env type flag payload (client_of s)") (simp_all add: transmit_simps)
  ultimately show ?thesis by blast
next
  case False
  with assms show ?thesis by (simp add: transmit_defs TransmitRaw_def)
qed

lemma alone_TransmitRaw:
  assumes "\<not> c_writeMutex (client_of s)" "alone next (on (TransmitRaw env type flag payload) s) t' s'"
  shows "alone (TransmitRaw_task env type flag payload next) s t' s'"
  unfolding TransmitRaw_task_def TransmitRaw_hooked_def lock_write_def
  using assms by (blast intro: alone_locked alone_trans inside_alone transmit_inside)

text \<open>Waking the waiting thread, if there is one.\<close>

definition wakes :: "bool \<Rightarrow> 'ep shared \<Rightarrow> 'ep shared" where
  "wakes b s = s\<lparr>sleeping := sleeping s \<and> \<not> b\<rparr>"

lemma wakes_simps [simp]:
  "client_of (wakes b s) = client_of s" "io_running (wakes b s) = io_running s"
  "sleeping (wakes b s) \<longleftrightarrow> sleeping s \<and> \<not> b" "wakes False s = s"
  by (simp_all add: wakes_def)

lemma wakes_on: "(on f s)\<lparr>sleeping := False\<rparr> = wakes True (on f s)" "on f (wakes b s) = wakes b (on f s)"
  by (simp_all add: wakes_def on_def)

lemma wakes_eq [simp]: "wakes b (on f s) = wakes b (on g s) \<longleftrightarrow> f (client_of s) = g (client_of s)"
  by (metis on_eq on_simps(1) wakes_simps(1) on_def)

text \<open>\<open>Disconnect\<close> in its parts.\<close>

definition closed :: "'ep client \<Rightarrow> 'ep client" where
  "closed c = (let c = act IoStop (act CloseSocket ((act CancelResolver (act CancelConnectTimer
     (StopKeepAliveTimer c)))\<lparr>socket_open := False\<rparr>))
   in call onDisconnected (OnDisconnected (c_lastError c)) c)"

definition joined :: "thread \<Rightarrow> 'ep client \<Rightarrow> 'ep client" where
  "joined t c = (if ioThread_joinable c \<and> t \<noteq> Io
     then act ThreadJoined (c\<lparr>ioThread_joinable := False\<rparr>) else c)"

lemma Disconnect_parts:
  "Disconnect env t c =
    joined t (if c_state c \<noteq> DISCONNECTED then
       closed (if socket_open c then TransmitRaw env CLOSE NONE [] (c\<lparr>c_state := DISCONNECTED\<rparr>)
               else c\<lparr>c_state := DISCONNECTED\<rparr>) else c)"
  by (simp add: Disconnect_def joined_def closed_def Let_def)

lemma alone_close_all: "alone next (on closed s) t' s' \<Longrightarrow> alone (close_all next) s t' s'"
  unfolding close_all_def closed_def Let_def by (intro alone_pieces) simp

lemma alone_join:
  assumes "t = App \<Longrightarrow> \<not> io_running s" and "alone next (on (joined t) s) t' s'"
  shows "alone (join_task t next) s t' s'"
proof (cases "ioThread_joinable (client_of s) \<and> t \<noteq> Io")
  case True
  moreover from True have "t = App" by (cases t) auto
  ultimately show ?thesis using assms by (auto simp: join_task_def joined_def on_def intro!: alone_pieces)
next
  case False
  then have "on (joined t) s = s" by (intro on_same) (auto simp: joined_def)
  with False assms(2) show ?thesis by (auto simp: join_task_def intro!: alone_pieces)
qed

text \<open>A disconnect of a session, up to the join.\<close>

definition ended :: "'ep env \<Rightarrow> 'ep client \<Rightarrow> 'ep client" where
  "ended env c = closed (if socket_open c then TransmitRaw env CLOSE NONE [] (c\<lparr>c_state := DISCONNECTED\<rparr>)
     else c\<lparr>c_state := DISCONNECTED\<rparr>)"

lemma alone_until_join:
  assumes "\<not> c_writeMutex (client_of s)" "c_state (client_of s) \<noteq> DISCONNECTED"
  shows "alone (Disconnect_task env t next) s (join_task t next) (on (ended env) s)"
proof (cases "socket_open (client_of s)")
  case True
  with assms show ?thesis
    by (auto simp: Disconnect_task_def ended_def
        intro!: alone_pieces alone_TransmitRaw alone_close_all alone_refl)
next
  case False
  with assms show ?thesis
    by (auto simp: Disconnect_task_def ended_def intro!: alone_pieces alone_close_all alone_refl)
qed

lemma alone_Disconnect:
  assumes "\<not> c_writeMutex (client_of s)" "t = App \<Longrightarrow> \<not> io_running s"
    and "alone next (on (Disconnect env t) s) t' s'"
  shows "alone (Disconnect_task env t next) s t' s'"
proof (cases "c_state (client_of s) = DISCONNECTED")
  case True
  then have eq: "on (joined t) s = on (Disconnect env t) s" by (simp add: Disconnect_parts)
  have "alone (join_task t next) s t' s'"
    by (rule alone_join) (use assms(2) in blast, simp only: eq assms(3))
  with True show ?thesis unfolding Disconnect_task_def by (intro alone_pieces) simp
next
  case False
  then have eq: "on (joined t) (on (ended env) s) = on (Disconnect env t) s"
    by (simp add: Disconnect_parts ended_def)
  have "alone (join_task t next) (on (ended env) s) t' s'"
    by (rule alone_join) (use assms(2) in simp, simp only: eq assms(3))
  with alone_until_join [OF assms(1) False] show ?thesis by (rule alone_trans)
qed

lemma alone_on_connect_timeout:
  assumes "\<not> c_writeMutex (client_of s)" "\<not> c_connectionMutex (client_of s)"
  shows "alone (on_connect_timeout_task env ec next) s next
    (wakes (\<not> aborted ec \<and> (c_state (client_of s) = CONNECTING \<or> c_state (client_of s) = AUTHENTICATING))
      (on (on_connect_timeout env ec) s))"
  using assms
  by (auto simp: on_connect_timeout_task_def on_connect_timeout_def lock_connection_def
      unlock_connection_def notify_all_def Let_def wakes_on on_same
      intro!: alone_pieces alone_locked alone_Disconnect alone_refl)

lemma alone_handle_challenge:
  assumes "\<not> c_writeMutex (client_of s)"
  shows "alone (handle_challenge_task env payload next) s next
    (on (\<lambda>c. projr (handle_challenge env payload c)) s)"
  using assms
  by (auto simp: handle_challenge_task_def handle_challenge_def Sha256_digest Let_def on_same
      intro!: alone_pieces alone_TransmitRaw alone_refl)

lemma alone_handle_keep_alive:
  assumes "\<not> c_connectionMutex (client_of s)"
  shows "alone (handle_keep_alive_task len next) s next
    (wakes (len = 0 \<and> c_state (client_of s) = AUTHENTICATING) (on (handle_keep_alive len) s))"
  using assms
  by (auto simp: handle_keep_alive_task_def handle_keep_alive_def StartKeepAliveTimer_task_def
      StartKeepAliveTimer_def notify_connected_def lock_connection_def unlock_connection_def
      notify_all_def Let_def wakes_on on_same
      intro!: alone_pieces alone_locked alone_refl)

section \<open>Concurrent sends\<close>

interpretation sender: critical "\<lambda>s. c_writeMutex (client_of s)" "on (\<lambda>c. c\<lparr>c_writeMutex := True\<rparr>)"
  "\<lambda>(type, flag, payload). transmit_body env (\<lambda>next. next) type flag payload Return"
  "\<lambda>(type, flag, payload). on (TransmitRaw env type flag payload)" "\<lambda>_. True" for env
  by unfold_locales (auto intro: transmit_inside)

definition send_tasks :: "'ep env \<Rightarrow> (u16 \<times> u16 \<times> bytes) list \<Rightarrow> 'ep shared task list" where
  "send_tasks env jobs = map (\<lambda>(type, flag, payload). TransmitRaw_task env type flag payload Return) jobs"

lemma send_tasks_jobs: "send_tasks env jobs = map (sender.job env) jobs"
  by (auto simp: send_tasks_def TransmitRaw_task_def TransmitRaw_hooked_def lock_write_def)

lemma fold_on: "client_of (fold (\<lambda>x. on (f x)) xs s) = fold f xs (client_of s)"
  by (induction xs arbitrary: s) simp_all

text \<open>The packets of some sends, each numbered from its own counter.\<close>

fun numbered_packets :: "endian \<Rightarrow> 'ep \<Rightarrow> u32 \<Rightarrow> u32 \<Rightarrow> (u16 \<times> u16 \<times> bytes) list \<Rightarrow> (bytes \<times> 'ep) list" where
  "numbered_packets host ep rt ro [] = []"
| "numbered_packets host ep rt ro ((type, flag, payload) # jobs) =
    (if flag AND REAL_TIME_1 \<noteq> 0
     then (packet_bytes host \<lparr>h_type = type, h_flags = flag, h_number = rt,
             h_length = of_nat (length payload)\<rparr> payload, ep) # numbered_packets host ep (rt + 1) ro jobs
     else (packet_bytes host \<lparr>h_type = type, h_flags = flag, h_number = ro,
             h_length = of_nat (length payload)\<rparr> payload, ep) # numbered_packets host ep rt (ro + 1) jobs)"

lemma fold_TransmitRaw:
  "socket_open c \<Longrightarrow> datagrams (actions (fold (\<lambda>(type, flag, payload). TransmitRaw env type flag payload) jobs c)) =
    datagrams (actions c) @
    numbered_packets (host_order env) (c_serverEndpoint c) (c_realTimeSeq c) (c_routineSeq c) jobs"
  by (induction jobs arbitrary: c)
    (auto simp: TransmitRaw_open(3,4) next_packet_def next_header_def)

section \<open>Properties\<close>

text \<open>C14. Sends of any number of threads never mix: in every schedule of their single accesses, once
  no thread can go on, all have returned and the client is as if the calls of \<open>TransmitRaw\<close> had
  been made one after the other, in some order. On an open socket the datagrams of that order
  are sent whole, and the numbers of each counter follow one another without gap or repetition.\<close>

theorem Concurrent_sends:
  assumes "schedule is (s, send_tasks env jobs) = (s', ts')" "quiescent (s', ts')"
    and "\<not> c_writeMutex (client_of s)"
  shows "ts' = replicate (length jobs) Return \<and> (\<exists>order. mset order = mset jobs \<and>
    client_of s' = fold (\<lambda>(type, flag, payload). TransmitRaw env type flag payload) order (client_of s) \<and>
    (if socket_open (client_of s) then
       datagrams (actions (client_of s')) = datagrams (actions (client_of s)) @
         numbered_packets (host_order env) (c_serverEndpoint (client_of s))
           (c_realTimeSeq (client_of s)) (c_routineSeq (client_of s)) order
     else client_of s' = client_of s))"
proof -
  define send where "send = (\<lambda>(type, flag, payload). TransmitRaw env type flag payload)"
  have "\<exists>order. mset order = mset jobs \<and> s' = fold (\<lambda>x. on (send x)) order s \<and>
      ts' = replicate (length jobs) Return"
    using sender.serial [OF assms(1) [unfolded send_tasks_jobs] assms(3) _ assms(2)]
    by (simp add: send_def case_prod_unfold)
  then obtain order where order: "mset order = mset jobs" "s' = fold (\<lambda>x. on (send x)) order s"
    "ts' = replicate (length jobs) Return" by blast
  have "client_of s' = fold send order (client_of s)" by (simp add: order(2) fold_on)
  moreover have "fold send order c = c" if "\<not> socket_open c" for c
    using that by (induction order) (auto simp: TransmitRaw_closed send_def)
  ultimately show ?thesis
    using order(1,3) fold_TransmitRaw [of "client_of s" env order]
    unfolding send_def [symmetric] by (intro conjI exI [of _ order]) auto
qed

text \<open>Two sends, one after the other.\<close>

definition sample_shared :: "nat shared" where
  "sample_shared = \<lparr>client_of = connected, io_running = False, sleeping = False, answer = None,
     replies = [], terminated = False\<rparr>"

lemma sample_shared_free:
  "\<not> c_writeMutex (client_of sample_shared)" "\<not> c_connectionMutex (client_of sample_shared)"
  "\<not> io_running sample_shared"
  using client_inv_reachable [OF sample_reachable(1)]
  by (simp_all add: sample_shared_def client_inv_def orderly_def linked_def)

theorem Concurrent_sends_witness:
  "\<exists>is s' order. schedule is (sample_shared, send_tasks calm [(KEEP_ALIVE, NONE, []), (DMR_AUDIO_FRAME, REAL_TIME_1, [1])])
      = (s', [Return, Return]) \<and>
    mset order = mset [(KEEP_ALIVE, NONE, []), (DMR_AUDIO_FRAME, REAL_TIME_1, [1])] \<and>
    datagrams (actions (client_of s')) = datagrams (actions connected) @
      numbered_packets Little (c_serverEndpoint connected) (c_realTimeSeq connected) (c_routineSeq connected) order"
proof -
  let ?jobs = "[(KEEP_ALIVE, NONE, []), (DMR_AUDIO_FRAME, REAL_TIME_1, [1])]"
  obtain "is" s' where s': "schedule is (sample_shared, send_tasks calm ?jobs) = (s', [Return, Return])"
    using sender.completes [OF sample_shared_free(1) TrueI, of calm ?jobs]
    by (auto simp: send_tasks_jobs numeral_2_eq_2)
  have "quiescent (s', [Return, Return])" by (simp add: quiescent_def)
  from Concurrent_sends [OF s' this sample_shared_free(1)] s' show ?thesis
    using connected_run(3) by (auto simp: sample_shared_def calm_def)
qed

text \<open>Alone, the operations of the threads do exactly what their functions do: a send, a
  disconnect, the challenge, the accepting keep-alive, and the timeout, which with the
  keep-alive wakes a thread that sleeps in \<open>ConnectSync\<close>.\<close>

lemma Operations_alone:
  assumes "\<not> c_writeMutex (client_of s)" "\<not> c_connectionMutex (client_of s)" "\<not> io_running s"
  shows "alone (TransmitRaw_task env type flag payload next) s next (on (TransmitRaw env type flag payload) s) \<and>
    alone (Disconnect_task env t next) s next (on (Disconnect env t) s) \<and>
    alone (handle_challenge_task env payload next) s next
      (on (\<lambda>c. projr (handle_challenge env payload c)) s) \<and>
    alone (handle_keep_alive_task len next) s next
      (wakes (len = 0 \<and> c_state (client_of s) = AUTHENTICATING) (on (handle_keep_alive len) s)) \<and>
    alone (on_connect_timeout_task env ec next) s next
      (wakes (\<not> aborted ec \<and> (c_state (client_of s) = CONNECTING \<or> c_state (client_of s) = AUTHENTICATING))
        (on (on_connect_timeout env ec) s))"
  using assms
  by (intro conjI alone_TransmitRaw alone_Disconnect alone_handle_challenge alone_handle_keep_alive
      alone_on_connect_timeout alone.stop) simp_all

end
