(* ===== verification/Client_Races.thy ===== *)
theory Client_Races
  imports Client_Threads
begin

text \<open>
  The client's threads against each other: the wake-up of the thread that waits in
  \<open>ConnectSync\<close> is not lost, whatever the schedule; a \<open>Disconnect\<close> beside it leaves it asleep;
  and a \<open>Disconnect\<close> beside the handling of the accepting keep-alive can be undone by it.
\<close>

section \<open>The wake-up\<close>

text \<open>The handler of the accepting keep-alive, position by position.\<close>

definition accept_positions :: "'ep shared task list" where
  "accept_positions =
    (let hook = then_do (on (call onConnected OnConnected)) Return;
         unlock = unlock_connection hook;
         notify = notify_all unlock;
         lock = lock_connection notify;
         arm = then_do (on (act (KeepAliveTimer KEEP_ALIVE_INTERVAL_SEC))) lock;
         timer = branch (\<lambda>s. c_state (client_of s) \<noteq> CONNECTED) lock arm;
         cancel = then_do (on (act CancelConnectTimer)) timer;
         set = then_do (on (\<lambda>c. c\<lparr>c_state := CONNECTED\<rparr>)) cancel;
         test = branch (\<lambda>s. 0 = (0 :: u16) \<and> c_state (client_of s) = AUTHENTICATING) set Return
     in [test, set, cancel, timer, arm, lock, notify, unlock, hook, Return])"

lemma accept_positions_simps:
  "handle_keep_alive_task 0 Return = accept_positions ! 0"
  by (simp add: handle_keep_alive_task_def accept_positions_def StartKeepAliveTimer_task_def
      notify_connected_def Let_def)

lemma accept_steps:
  "step (accept_positions ! 0) s =
     Some (s, if c_state (client_of s) = AUTHENTICATING then accept_positions ! Suc 0 else accept_positions ! 9)"
  "step (accept_positions ! Suc 0) s = Some (on (\<lambda>c. c\<lparr>c_state := CONNECTED\<rparr>) s, accept_positions ! 2)"
  "step (accept_positions ! 2) s = Some (on (act CancelConnectTimer) s, accept_positions ! 3)"
  "step (accept_positions ! 3) s =
     Some (s, if c_state (client_of s) \<noteq> CONNECTED then accept_positions ! 5 else accept_positions ! 4)"
  "step (accept_positions ! 4) s =
     Some (on (act (KeepAliveTimer KEEP_ALIVE_INTERVAL_SEC)) s, accept_positions ! 5)"
  "step (accept_positions ! 5) s = (if c_connectionMutex (client_of s) then None
     else Some (on (\<lambda>c. c\<lparr>c_connectionMutex := True\<rparr>) s, accept_positions ! 6))"
  "step (accept_positions ! 6) s = Some ((on (act NotifyAll) s)\<lparr>sleeping := False\<rparr>, accept_positions ! 7)"
  "step (accept_positions ! 7) s = Some (on (\<lambda>c. c\<lparr>c_connectionMutex := False\<rparr>) s, accept_positions ! 8)"
  "step (accept_positions ! 8) s = Some (on (call onConnected OnConnected) s, accept_positions ! 9)"
  "accept_positions ! 9 = Return"
  by (simp_all add: accept_positions_def Let_def lock_connection_def notify_all_def unlock_connection_def)

definition holds_lock :: "wait_point \<Rightarrow> bool" where
  "holds_lock p \<longleftrightarrow> p \<notin> {Lock, Asleep, Back}"

text \<open>What holds between the waiting thread at \<open>p\<close> and the handler at position \<open>n\<close>.\<close>

definition meets :: "wait_point \<Rightarrow> nat \<Rightarrow> 'ep shared \<Rightarrow> bool" where
  "meets p n s \<longleftrightarrow> n \<le> 9 \<and>
    c_state (client_of s) = (if n \<le> 1 then AUTHENTICATING else CONNECTED) \<and>
    (c_connectionMutex (client_of s) \<longleftrightarrow> holds_lock p \<or> n = 6 \<or> n = 7) \<and>
    (holds_lock p \<longrightarrow> n \<noteq> 6 \<and> n \<noteq> 7) \<and>
    (sleeping s \<longrightarrow> p = Asleep \<and> n \<le> 6) \<and>
    (p = Test_disconnected \<or> p = Sleep \<longrightarrow> n \<le> 5) \<and>
    (p = Result \<longrightarrow> 2 \<le> n) \<and> p \<noteq> Failed \<and>
    (\<forall>r. p = Unlock r \<longrightarrow> r = SUCCESS) \<and>
    answer s = (if p = Back then Some SUCCESS else None)"

lemma wait_step_meets:
  assumes "meets p n s" "wait_step p s = Some (s', p')"
  shows "meets p' n s'"
  using assms
  by (cases p) (auto simp: meets_def holds_lock_def split: if_splits)

lemma accept_step_meets:
  assumes "meets p n s" "step (accept_positions ! n) s = Some (s', t)"
  shows "t = accept_positions ! Suc n \<and> meets p (Suc n) s'"
proof -
  have "n \<le> 9" using assms(1) by (simp add: meets_def)
  then have "n \<in> {0, Suc 0, 2, 3, 4, 5, 6, 7, 8, 9}"
    unfolding insert_iff empty_iff by presburger
  with assms show ?thesis
    by (elim insertE emptyE)
      (auto simp: accept_steps meets_def holds_lock_def numeral_2_eq_2 [symmetric] split: if_splits)
qed

lemma meets_spurious: "meets p n s \<Longrightarrow> meets p n (s\<lparr>sleeping := False\<rparr>)"
  by (simp add: meets_def)

lemma step_spurious [simp]: "step spurious_wakeups s = Some (s\<lparr>sleeping := False\<rparr>, spurious_wakeups)"
  by (subst spurious_wakeups.code) simp

definition waiting_with :: "'ep shared \<Rightarrow> 'ep shared task list \<Rightarrow> bool" where
  "waiting_with s ts \<longleftrightarrow>
    (\<exists>p n. ts = [ConnectSync_task p, accept_positions ! n, spurious_wakeups] \<and> meets p n s)"

lemma waiting_with_turn:
  assumes "waiting_with s ts"
  shows "case turn i (s, ts) of (s', ts') \<Rightarrow> waiting_with s' ts'"
proof -
  obtain p n where ts: "ts = [ConnectSync_task p, accept_positions ! n, spurious_wakeups]" "meets p n s"
    using assms unfolding waiting_with_def by blast
  consider "i = 0" | "i = 1" | "i = 2" | "3 \<le> i" by linarith
  then show ?thesis
  proof cases
    case 1
    show ?thesis
    proof (cases "wait_step p s")
      case None
      with 1 ts assms show ?thesis by (simp add: turn_def)
    next
      case (Some r)
      obtain s' p' where "wait_step p s = Some (s', p')" using Some by (cases r) auto
      with 1 ts wait_step_meets [OF ts(2)] show ?thesis by (auto simp: turn_def waiting_with_def)
    qed
  next
    case 2
    with ts assms accept_step_meets [OF ts(2)] show ?thesis
      by (auto simp: turn_def waiting_with_def split: option.split)
  next
    case 3
    with ts meets_spurious [OF ts(2)] show ?thesis
      by (auto simp: turn_def waiting_with_def numeral_2_eq_2)
  next
    case 4
    with ts assms show ?thesis by (simp add: turn_def)
  qed
qed

lemma waiting_start:
  assumes "c_state (client_of s) = AUTHENTICATING" "\<not> c_connectionMutex (client_of s)"
    "\<not> sleeping s" "answer s = None"
  shows "waiting_with s [ConnectSync_task Lock, handle_keep_alive_task 0 Return, spurious_wakeups]"
  unfolding waiting_with_def accept_positions_simps
  using assms by (intro exI [of _ Lock] exI [of _ 0]) (simp add: meets_def holds_lock_def)

text \<open>With the handler done, the waiting thread goes on to its answer on its own.\<close>

lemma alone_wait_step:
  "wait_step p s = Some (s1, p1) \<Longrightarrow> alone (ConnectSync_task p1) s1 t' s' \<Longrightarrow> alone (ConnectSync_task p) s t' s'"
  by (rule alone.go) simp_all

lemma ConnectSync_Back [simp]: "ConnectSync_task Back = Return"
  by (subst ConnectSync_task.code) simp

text \<open>Once the session is connected and nobody else has the mutex, it answers from any point but
  those where it has seen the session unconnected.\<close>

definition answers :: "'ep shared task \<Rightarrow> 'ep shared \<Rightarrow> bool" where
  "answers t s \<longleftrightarrow> (\<exists>s'. alone t s Return s' \<and> answer s' = Some SUCCESS)"

lemma answers_step:
  "wait_step p s = Some (s1, p1) \<Longrightarrow> answers (ConnectSync_task p1) s1 \<Longrightarrow> answers (ConnectSync_task p) s"
  unfolding answers_def by (blast intro: alone_wait_step)

lemma answers_at:
  "answer s = Some SUCCESS \<Longrightarrow> answers (ConnectSync_task Back) s"
  "answers (ConnectSync_task (Unlock SUCCESS)) s"
  "c_state (client_of s) = CONNECTED \<Longrightarrow> answers (ConnectSync_task Result) s"
  "c_state (client_of s) = CONNECTED \<Longrightarrow> answers (ConnectSync_task Test_connected) s"
  "c_state (client_of s) = CONNECTED \<Longrightarrow> \<not> c_connectionMutex (client_of s) \<Longrightarrow>
    answers (ConnectSync_task Lock) s"
  "c_state (client_of s) = CONNECTED \<Longrightarrow> \<not> c_connectionMutex (client_of s) \<Longrightarrow> \<not> sleeping s \<Longrightarrow>
    answers (ConnectSync_task Asleep) s"
proof -
  show finished: "answer s = Some SUCCESS \<Longrightarrow> answers (ConnectSync_task Back) s" for s :: "'a shared"
    by (auto simp: answers_def)
  show unlock: "answers (ConnectSync_task (Unlock SUCCESS)) s" for s :: "'a shared"
    by (rule answers_step, simp) (simp add: finished del: ConnectSync_Back)
  show result: "c_state (client_of s) = CONNECTED \<Longrightarrow> answers (ConnectSync_task Result) s" for s :: "'a shared"
    by (rule answers_step, simp) (simp add: unlock)
  show test: "c_state (client_of s) = CONNECTED \<Longrightarrow> answers (ConnectSync_task Test_connected) s"
    for s :: "'a shared"
    by (rule answers_step, simp) (simp add: result)
  show lock: "c_state (client_of s) = CONNECTED \<Longrightarrow> \<not> c_connectionMutex (client_of s) \<Longrightarrow>
      answers (ConnectSync_task Lock) s" for s :: "'a shared"
    by (rule answers_step, simp) (simp add: test)
  show "c_state (client_of s) = CONNECTED \<Longrightarrow> \<not> c_connectionMutex (client_of s) \<Longrightarrow> \<not> sleeping s \<Longrightarrow>
      answers (ConnectSync_task Asleep) s" for s :: "'a shared"
    by (rule answers_step, simp) (simp add: lock)
qed

lemma meets_answers: "meets p 9 s \<Longrightarrow> answers (ConnectSync_task p) s"
  by (cases p) (auto simp: meets_def holds_lock_def answers_at simp del: ConnectSync_Back)

lemma accept_not_done: "n < 9 \<Longrightarrow> accept_positions ! n \<noteq> Return"
proof -
  assume "n < 9"
  then have "n \<in> set [0..<9]" by simp
  then show ?thesis
    by (simp add: upt_rec accept_positions_def Let_def lock_connection_def notify_all_def
        unlock_connection_def) (elim disjE; simp)
qed

section \<open>A disconnect beside the others\<close>

lemma io_stopped_simps [simp]:
  "io_stopped (act a c) \<longleftrightarrow> a = IoStop \<or> a \<noteq> IoRestart \<and> io_stopped c"
  "io_stopped (call h cb c) = io_stopped c"
  "io_stopped (c\<lparr>c_state := st\<rparr>) = io_stopped c"
  "io_stopped (c\<lparr>c_connectionMutex := b\<rparr>) = io_stopped c"
  "io_stopped (c\<lparr>socket_open := b\<rparr>) = io_stopped c"
  by (auto simp: io_stopped_def called_def)

lemma ended_frame [simp]:
  "io_stopped (ended env c)"
  "c_state (ended env c) = DISCONNECTED" "\<not> socket_open (ended env c)"
  "c_connectionMutex (ended env c) = c_connectionMutex c"
  "ioThread_joinable (ended env c) = ioThread_joinable c"
  by (simp_all add: ended_def closed_def Let_def StopKeepAliveTimer_def)

text \<open>The background thread in its handler, past its test, and its end once the context is stopped.\<close>

lemma alone_io_end:
  "io_stopped (client_of s) \<Longrightarrow> alone (io_thread []) s Return (s\<lparr>io_running := False\<rparr>)"
  by (auto intro!: alone_pieces)

definition sample_waiting :: "nat shared" where
  "sample_waiting = \<lparr>client_of = (new_client 1234567 [] 7 (\<lambda>_. True))\<lparr>c_state := AUTHENTICATING,
       socket_open := True, ioThread_joinable := True\<rparr>,
     io_running = True, sleeping = False, answer = None, replies = [], terminated = False\<rparr>"

lemma sample_waiting_free:
  "c_state (client_of sample_waiting) = AUTHENTICATING" "ioThread_joinable (client_of sample_waiting)"
  "io_running sample_waiting" "\<not> c_writeMutex (client_of sample_waiting)"
  "\<not> c_connectionMutex (client_of sample_waiting)" "\<not> io_stopped (client_of sample_waiting)"
  "\<not> sleeping sample_waiting" "answer sample_waiting = None"
  by (simp_all add: sample_waiting_def new_client_def io_stopped_def since_restart_def)

lemma alone_to_sleep:
  assumes "c_state (client_of s) = CONNECTING \<or> c_state (client_of s) = AUTHENTICATING"
    "\<not> c_connectionMutex (client_of s)"
  shows "alone (ConnectSync_task Lock) s (ConnectSync_task Asleep) (s\<lparr>sleeping := True\<rparr>)"
proof -
  have "on (\<lambda>c. c\<lparr>c_connectionMutex := False\<rparr>) s = s" using assms(2) by (intro on_same) simp
  then have "alone (ConnectSync_task Sleep) (on (\<lambda>c. c\<lparr>c_connectionMutex := True\<rparr>) s)
      (ConnectSync_task Asleep) (s\<lparr>sleeping := True\<rparr>)"
    by (intro alone_wait_step [of Sleep]) (auto intro: alone_refl)
  then have "alone (ConnectSync_task Test_connected) (on (\<lambda>c. c\<lparr>c_connectionMutex := True\<rparr>) s)
      (ConnectSync_task Asleep) (s\<lparr>sleeping := True\<rparr>)"
    using assms(1) by (auto intro!: alone_wait_step [of Test_connected] alone_wait_step [of Test_disconnected])
  then show ?thesis using assms(2) by (auto intro: alone_wait_step [of Lock])
qed

section \<open>Properties\<close>

text \<open>C18. The wake-up of \<open>ConnectSync\<close> is not lost: in every schedule of the accesses of a thread
  that waits for the connection, of the background thread that accepts it, and of spurious
  wake-ups, \<open>ConnectSync\<close> answers nothing but \<open>SUCCESS\<close>; and once the handler has returned, the
  waiting thread is not asleep and gets to its answer on its own.\<close>

theorem No_lost_wake_up:
  assumes "schedule is (s, [ConnectSync_task Lock, handle_keep_alive_task 0 Return, spurious_wakeups]) =
      (s', [w, h, sp])"
    and "c_state (client_of s) = AUTHENTICATING" "\<not> c_connectionMutex (client_of s)"
    and "\<not> sleeping s" "answer s = None"
  shows "answer s' \<in> {None, Some SUCCESS} \<and>
    (if h = Return then \<not> sleeping s' \<and> (\<exists>s''. alone w s' Return s'' \<and> answer s'' = Some SUCCESS) else True)"
proof -
  from schedule_inv [OF waiting_with_turn assms(1) waiting_start [OF assms(2-5)]]
  obtain p n where ts: "w = ConnectSync_task p" "h = accept_positions ! n" "meets p n s'"
    unfolding waiting_with_def by auto
  have "n = 9" if "h = Return"
  proof -
    have "n \<le> 9" using ts(3) by (simp add: meets_def)
    moreover have "\<not> n < 9" using that ts(2) accept_not_done by auto
    ultimately show ?thesis by simp
  qed
  with ts meets_answers [of p s'] show ?thesis by (auto simp: meets_def answers_def)
qed

theorem No_lost_wake_up_witness:
  "\<exists>is s' w sp. schedule is (sample_waiting,
      [ConnectSync_task Lock, handle_keep_alive_task 0 Return, spurious_wakeups]) = (s', [w, Return, sp]) \<and>
    (\<exists>s''. alone w s' Return s'' \<and> answer s'' = Some SUCCESS)"
proof -
  obtain s2 where "alone (handle_keep_alive_task 0 Return) (sample_waiting\<lparr>sleeping := True\<rparr>) Return s2"
    using alone_handle_keep_alive [of "sample_waiting\<lparr>sleeping := True\<rparr>"] sample_waiting_free by auto
  then have "can_reach (sample_waiting\<lparr>sleeping := True\<rparr>,
      [ConnectSync_task Asleep, handle_keep_alive_task 0 Return, spurious_wakeups])
      (s2, [ConnectSync_task Asleep, Return, spurious_wakeups])"
    using can_reach_alone [of "[ConnectSync_task Asleep, handle_keep_alive_task 0 Return, spurious_wakeups]" 1
      "sample_waiting\<lparr>sleeping := True\<rparr>" Return s2] by (simp add: can_reach_refl)
  then have "can_reach (sample_waiting, [ConnectSync_task Lock, handle_keep_alive_task 0 Return, spurious_wakeups])
      (s2, [ConnectSync_task Asleep, Return, spurious_wakeups])"
    using can_reach_alone [of "[ConnectSync_task Lock, handle_keep_alive_task 0 Return, spurious_wakeups]" 0
      sample_waiting "ConnectSync_task Asleep"] alone_to_sleep [of sample_waiting] sample_waiting_free by simp
  then obtain "is" where "schedule is (sample_waiting,
      [ConnectSync_task Lock, handle_keep_alive_task 0 Return, spurious_wakeups]) =
      (s2, [ConnectSync_task Asleep, Return, spurious_wakeups])"
    unfolding can_reach_def by blast
  with No_lost_wake_up [OF this] sample_waiting_free show ?thesis by auto
qed

text \<open>C16. A \<open>Disconnect\<close> of the application can be undone by the handling of the accepting keep-alive:
  some schedule of the two threads' accesses ends with both returned, the socket closed and the
  background thread joined, but with the session connected. A following \<open>Connect\<close> then answers
  \<open>ALREADY_CONNECTED\<close>.\<close>

theorem Disconnect_undone:
  assumes "c_state (client_of s) = AUTHENTICATING" "ioThread_joinable (client_of s)" "io_running s"
    and "\<not> c_writeMutex (client_of s)" "\<not> c_connectionMutex (client_of s)" "\<not> io_stopped (client_of s)"
  shows "\<exists>is s'. schedule is (s, [io_thread [handle_keep_alive_task 0], Disconnect_task env App Return]) =
      (s', [Return, Return]) \<and>
    c_state (client_of s') = CONNECTED \<and> \<not> socket_open (client_of s') \<and>
    \<not> ioThread_joinable (client_of s') \<and>
    Connect throws host port pw ms (client_of s') = Inr (ALREADY_CONNECTED, client_of s')"
proof -
  define accept :: "'a shared task" where "accept = then_do (on (\<lambda>c. c\<lparr>c_state := CONNECTED\<rparr>))
    (then_do (on (act CancelConnectTimer)) (StartKeepAliveTimer_task (notify_connected
      (then_do (on (call onConnected OnConnected)) (io_thread [])))))"
  let ?c = "client_of s"
  have test: "alone (io_thread [handle_keep_alive_task 0]) s accept s"
    using assms(1,6) unfolding handle_keep_alive_task_def accept_def io_thread.simps(2)
    by - (rule alone_pieces(2), simp, rule alone_pieces(2), simp add: alone.stop)
  have disconnect: "alone (Disconnect_task env App Return) s (join_task App Return) (on (ended env) s)"
    using assms(1,4) by (intro alone_until_join) simp_all
  define connected' where "connected' = (\<lambda>c. call onConnected OnConnected ((act NotifyAll
    ((act (KeepAliveTimer KEEP_ALIVE_INTERVAL_SEC) (act CancelConnectTimer (c\<lparr>c_state := CONNECTED\<rparr>)))
      \<lparr>c_connectionMutex := True\<rparr>))\<lparr>c_connectionMutex := False\<rparr>) :: 'a client)"
  define s2 where "s2 = (wakes True (on (\<lambda>c. connected' (ended env c)) s))\<lparr>io_running := False\<rparr>"
  have accept: "alone accept (on (ended env) s) Return s2"
    using assms(5)
    by (auto simp: accept_def StartKeepAliveTimer_task_def notify_connected_def lock_connection_def
        unlock_connection_def notify_all_def wakes_on s2_def connected'_def
        intro!: alone_pieces alone_locked alone_refl)
  have join: "alone (join_task App Return) s2 Return (on (joined App) s2)"
    by (intro alone_join alone.stop) (simp add: s2_def)
  let ?q = "(on (joined App) s2, [Return, Return])" and ?join = "join_task App Return :: 'a shared task"
  have "can_reach (s2, [Return, ?join]) ?q"
    using can_reach_alone [of "[Return, ?join]" 1 s2 Return "on (joined App) s2"] join by (simp add: can_reach_refl)
  then have "can_reach (on (ended env) s, [accept, ?join]) ?q"
    using can_reach_alone [of "[accept, ?join]" 0 _ Return s2] accept by simp
  then have "can_reach (s, [accept, Disconnect_task env App Return]) ?q"
    using can_reach_alone [of "[accept, Disconnect_task env App Return]" 1 s ?join] disconnect by simp
  then have "can_reach (s, [io_thread [handle_keep_alive_task 0], Disconnect_task env App Return]) ?q"
    using can_reach_alone [of "[io_thread [handle_keep_alive_task 0], Disconnect_task env App Return]" 0 s accept]
      test by (simp del: io_thread.simps)
  then obtain "is" where "schedule is (s, [io_thread [handle_keep_alive_task 0], Disconnect_task env App Return]) = ?q"
    unfolding can_reach_def by blast
  moreover have "c_state (joined App (client_of s2)) = CONNECTED" "\<not> socket_open (joined App (client_of s2))"
    "\<not> ioThread_joinable (joined App (client_of s2))"
    by (simp_all add: s2_def connected'_def joined_def)
  ultimately show ?thesis
    by (intro exI [of _ "is"] exI [of _ "on (joined App) s2"]) (simp add: Connect_def del: io_thread.simps)
qed

theorem Disconnect_undone_witness:
  "\<exists>is s'. schedule is (sample_waiting, [io_thread [handle_keep_alive_task 0], Disconnect_task calm App Return]) =
      (s', [Return, Return]) \<and> c_state (client_of s') = CONNECTED \<and> \<not> socket_open (client_of s')"
  using Disconnect_undone [of sample_waiting] sample_waiting_free by blast

text \<open>C23. A \<open>Disconnect\<close> of the application beside \<open>ConnectSync\<close> can leave it asleep for good: some
  schedule of the two threads and of the background thread ends with the other two returned,
  the session disconnected, the waiting thread asleep without an answer, and nobody able to go on.\<close>

theorem Disconnect_leaves_waiter:
  assumes "c_state (client_of s) = CONNECTING \<or> c_state (client_of s) = AUTHENTICATING"
    and "ioThread_joinable (client_of s)" "io_running s"
    and "\<not> c_writeMutex (client_of s)" "\<not> c_connectionMutex (client_of s)" "answer s = None"
  shows "\<exists>is s'. schedule is (s, [ConnectSync_task Lock, Disconnect_task env App Return, io_thread []]) =
      (s', [ConnectSync_task Asleep, Return, Return]) \<and>
    quiescent (s', [ConnectSync_task Asleep, Return, Return]) \<and>
    c_state (client_of s') = DISCONNECTED \<and> answer s' = None"
proof -
  let ?join = "join_task App Return :: 'a shared task"
  define s1 where "s1 = s\<lparr>sleeping := True\<rparr>"
  define s2 where "s2 = (on (ended env) s1)\<lparr>io_running := False\<rparr>"
  let ?q = "(on (joined App) s2, [ConnectSync_task Asleep, Return, Return])"
  have sleep: "alone (ConnectSync_task Lock) s (ConnectSync_task Asleep) s1"
    unfolding s1_def using assms(1,5) by (rule alone_to_sleep)
  have disconnect: "alone (Disconnect_task env App Return) s1 ?join (on (ended env) s1)"
    using assms(1,4) by (intro alone_until_join) (auto simp: s1_def)
  have io: "alone (io_thread []) (on (ended env) s1) Return s2"
    unfolding s2_def by (rule alone_io_end) simp
  have join: "alone ?join s2 Return (on (joined App) s2)"
    by (intro alone_join alone.stop) (simp add: s2_def)
  have "can_reach (s2, [ConnectSync_task Asleep, ?join, Return]) ?q"
    using can_reach_alone [of "[ConnectSync_task Asleep, ?join, Return]" 1 s2 Return] join
    by (simp add: can_reach_refl)
  then have "can_reach (on (ended env) s1, [ConnectSync_task Asleep, ?join, io_thread []]) ?q"
    using can_reach_alone [of "[ConnectSync_task Asleep, ?join, io_thread []]" 2 _ Return s2] io
    by (simp del: io_thread.simps)
  then have "can_reach (s1, [ConnectSync_task Asleep, Disconnect_task env App Return, io_thread []]) ?q"
    using can_reach_alone [of "[ConnectSync_task Asleep, Disconnect_task env App Return, io_thread []]" 1 s1 ?join]
      disconnect by (simp del: io_thread.simps)
  then have "can_reach (s, [ConnectSync_task Lock, Disconnect_task env App Return, io_thread []]) ?q"
    using can_reach_alone [of "[ConnectSync_task Lock, Disconnect_task env App Return, io_thread []]" 0 s
      "ConnectSync_task Asleep"] sleep by (simp del: io_thread.simps)
  then obtain "is" where
    "schedule is (s, [ConnectSync_task Lock, Disconnect_task env App Return, io_thread []]) = ?q"
    unfolding can_reach_def by blast
  then show ?thesis
    using assms(6) by (intro exI [of _ "is"] exI [of _ "on (joined App) s2"])
      (simp add: quiescent_def s2_def s1_def joined_def del: io_thread.simps)
qed

theorem Disconnect_leaves_waiter_witness:
  "\<exists>is s'. schedule is (sample_waiting, [ConnectSync_task Lock, Disconnect_task calm App Return, io_thread []]) =
      (s', [ConnectSync_task Asleep, Return, Return]) \<and> c_state (client_of s') = DISCONNECTED"
  using Disconnect_leaves_waiter [of sample_waiting] sample_waiting_free by blast

text \<open>C25. A hook \<open>onError\<close> that sends blocks its own thread: when a send fails, the hook runs with
  \<open>writeMutex_\<close> held, and its own send waits for that mutex forever, even if no other thread runs.\<close>

theorem Sending_hook_blocks:
  assumes "socket_open (client_of s)" "\<not> c_writeMutex (client_of s)" "hooks (client_of s) onError"
    and "send_result env type flag payload (client_of s) = Some e"
  shows "\<exists>t' s'. alone (TransmitRaw_hooked env (TransmitRaw_task env type' flag' payload') type flag payload Return)
      s t' s' \<and> c_writeMutex (client_of s') \<and> quiescent (s', [t']) \<and> t' \<noteq> Return \<and>
    Called (OnError SOCKET_IO (''Socket write error: '' @ ec_message e))
      (c_connectionMutex (client_of s)) True \<in> set (actions (client_of s'))"
proof -
  let ?again = "TransmitRaw_task env type' flag' payload' (unlock_write Return)"
  define numbered where "numbered = (\<lambda>c. if flag AND REAL_TIME_1 \<noteq> 0
    then c\<lparr>c_realTimeSeq := c_realTimeSeq c + 1\<rparr> else c\<lparr>c_routineSeq := c_routineSeq c + 1\<rparr> :: 'a client)"
  define sent where "sent = (\<lambda>c. act (SendTo (next_packet env type flag payload (client_of s)) (c_serverEndpoint c))
    ((numbered (c\<lparr>c_writeMutex := True\<rparr>))\<lparr>sends := sends c + 1\<rparr>))"
  let ?s1 = "on (\<lambda>c. call onError (OnError SOCKET_IO (''Socket write error: '' @ ec_message e))
    ((sent c)\<lparr>c_lastError := SOCKET_IO\<rparr>)) s"
  have "flag AND REAL_TIME_1 = 0 \<Longrightarrow> alone (TransmitRaw_hooked env (TransmitRaw_task env type' flag' payload')
      type flag payload Return) s ?again ?s1"
    using assms by (auto simp: TransmitRaw_hooked_def lock_write_def transmit_defs send_result_def next_packet_def
        next_header_def Let_def sent_def numbered_def intro!: alone_locked alone_pieces alone_refl)
  moreover have "flag AND REAL_TIME_1 \<noteq> 0 \<Longrightarrow> alone (TransmitRaw_hooked env (TransmitRaw_task env type' flag' payload')
      type flag payload Return) s ?again ?s1"
    using assms by (auto simp: TransmitRaw_hooked_def lock_write_def transmit_defs send_result_def next_packet_def
        next_header_def Let_def sent_def numbered_def intro!: alone_locked alone_pieces alone_refl)
  ultimately have "alone (TransmitRaw_hooked env (TransmitRaw_task env type' flag' payload')
      type flag payload Return) s ?again ?s1" by blast
  moreover have "c_writeMutex (client_of ?s1)" "Called (OnError SOCKET_IO (''Socket write error: '' @ ec_message e))
      (c_connectionMutex (client_of s)) True \<in> set (actions (client_of ?s1))"
    using assms(3) by (simp_all add: sent_def numbered_def called_def)
  moreover have "step ?again ?s1 = None"
    by (simp add: sent_def numbered_def TransmitRaw_task_def TransmitRaw_hooked_def lock_write_def)
  moreover have "?again \<noteq> Return"
    by (simp add: TransmitRaw_task_def TransmitRaw_hooked_def lock_write_def)
  ultimately show ?thesis unfolding quiescent_def
    by (intro exI [of _ ?again] exI [of _ ?s1]) simp
qed

definition failing :: "nat env" where
  "failing = \<lparr>host_order = Little, send_to = \<lambda>_ _ _. Some \<lparr>ec_aborted = False, ec_message = ''x''\<rparr>\<rparr>"

theorem Sending_hook_blocks_witness:
  "\<exists>t' s'. alone (TransmitRaw_hooked failing (TransmitRaw_task failing MESSAGE_TEXT NONE [])
      KEEP_ALIVE NONE [] Return) sample_waiting t' s' \<and> quiescent (s', [t']) \<and> t' \<noteq> Return"
  using Sending_hook_blocks [of sample_waiting failing KEEP_ALIVE NONE "[]"
      "\<lparr>ec_aborted = False, ec_message = ''x''\<rparr>" MESSAGE_TEXT NONE "[]"]
  by (fastforce simp: sample_waiting_def new_client_def send_result_def failing_def)

end
