(* ===== verification/Client_Connects.thy ===== *)
theory Client_Connects
  imports Client_Races
begin

text \<open>
  Threads that call \<open>Connect\<close>. The mutex makes the calls of any number of threads run as if one
  after the other, so that one of them connects; but \<open>Disconnect\<close> does not take it, and a
  \<open>Connect\<close> that runs into one stops the program.
\<close>

section \<open>A call as a whole\<close>

text \<open>What a call does to the shared state, if it does not stop the program.\<close>

definition connected_by :: "(startup_point \<Rightarrow> string option) \<Rightarrow> bytes \<Rightarrow> u16 \<Rightarrow> bytes \<Rightarrow> u32 \<Rightarrow>
    'ep shared \<Rightarrow> 'ep shared" where
  "connected_by throws host port password timeoutMs s =
    (case Connect throws host port password timeoutMs (client_of s) of
       Inl _ \<Rightarrow> s
     | Inr (r, c) \<Rightarrow> s\<lparr>client_of := c,
         io_running := io_running s \<or> ThreadStarted \<in> set (emitted (client_of s) c),
         replies := replies s @ [r]\<rparr>)"

abbreviation in_Connect :: "'ep shared task \<Rightarrow> 'ep shared \<Rightarrow> 'ep shared task \<Rightarrow> 'ep shared \<Rightarrow> bool" where
  "in_Connect \<equiv> inside (\<lambda>s. c_connectionMutex (client_of s))"

lemma inside_access:
  "c_connectionMutex (client_of s) \<Longrightarrow> in_Connect t (f s) next s' \<Longrightarrow> in_Connect (then_do f t) s next s'"
  "c_connectionMutex (client_of s) \<Longrightarrow> b s \<Longrightarrow> in_Connect t s next s' \<Longrightarrow> in_Connect (branch b t u) s next s'"
  "c_connectionMutex (client_of s) \<Longrightarrow> \<not> b s \<Longrightarrow> in_Connect u s next s' \<Longrightarrow> in_Connect (branch b t u) s next s'"
  by simp_all

lemma inside_returns:
  assumes "c_connectionMutex (client_of s)"
    and "s' = (on (\<lambda>c. c\<lparr>c_connectionMutex := False\<rparr>) s)\<lparr>replies := replies s @ [r]\<rparr>"
  shows "in_Connect (Connect_returns r next) s next s'"
  using assms by (simp add: Connect_returns_def unlock_connection_def on_def)

lemma inside_failed:
  assumes "c_connectionMutex (client_of s)"
    and "s' = (on (\<lambda>c. snd (startup_failed what c)) s)\<lparr>replies := replies s @ [SOCKET_IO]\<rparr>"
  shows "in_Connect (startup_failed_task what next) s next s'"
  using assms unfolding startup_failed_task_def
  by (auto simp: startup_failed_def on_def intro: inside_returns)

lemmas inside_simps = startup_failed_def on_def Let_def

lemma inside_started:
  assumes "c_connectionMutex (client_of s)"
    and "throws ThreadStart = None \<Longrightarrow> \<not> ioThread_joinable (client_of s)"
    and "s' = (case throws ThreadStart of
      Some what \<Rightarrow> (on (\<lambda>c. snd (startup_failed what c)) s)\<lparr>replies := replies s @ [SOCKET_IO]\<rparr>
    | None \<Rightarrow> let s = (on (\<lambda>c. (act ThreadStarted (c\<lparr>ioThread_joinable := True\<rparr>))\<lparr>c_state := CONNECTING\<rparr>) s)
          \<lparr>io_running := True\<rparr>
        in case throws TimerStart of
          Some what \<Rightarrow> (on (\<lambda>c. snd (startup_failed what c)) s)\<lparr>replies := replies s @ [SOCKET_IO]\<rparr>
        | None \<Rightarrow> let s = on (act (ConnectTimer ms)) s
            in case throws ResolveStart of
              Some what \<Rightarrow> (on (\<lambda>c. snd (startup_failed what c)) s)\<lparr>replies := replies s @ [SOCKET_IO]\<rparr>
            | None \<Rightarrow> (on (\<lambda>c. (act (Resolve host port) c)\<lparr>c_connectionMutex := False\<rparr>) s)
                \<lparr>replies := replies s @ [SUCCESS]\<rparr>)"
  shows "in_Connect (start_thread throws host port ms next) s next s'"
proof (cases "throws ThreadStart")
  case None
  show ?thesis
  proof (cases "throws TimerStart")
    case timer: None
    with None assms show ?thesis
      by (cases "throws ResolveStart")
        (simp_all add: start_thread_def inside_simps inside_access inside_failed inside_returns del: inside_pieces)
  next
    case (Some what)
    with None assms show ?thesis
      by (simp add: start_thread_def inside_simps inside_access inside_failed inside_returns del: inside_pieces)
  qed
next
  case (Some what)
  with assms show ?thesis by (simp add: start_thread_def inside_failed)
qed

lemma Connect_inside:
  assumes "\<not> c_connectionMutex (client_of s)"
    and "Connect throws host port pw ms (client_of s) \<noteq> Inl Terminate"
  shows "in_Connect (Connect_body throws host port pw ms next)
    (on (\<lambda>c. c\<lparr>c_connectionMutex := True\<rparr>) s) next (connected_by throws host port pw ms s)"
proof (cases "c_state (client_of s) = DISCONNECTED")
  case False
  with assms(1) have "on (\<lambda>c. c\<lparr>c_connectionMutex := False\<rparr>) s = s" by (intro on_same) simp
  with False show ?thesis
    by (simp add: Connect_body_def connected_by_def Connect_def emitted_def on_def inside_access
        inside_returns del: inside_pieces)
next
  case True
  have start: "in_Connect (start_thread throws host port ms next)
      (on (\<lambda>c. act IoRestart (c\<lparr>c_connectionMutex := True, c_password := pw, c_routineSeq := 0,
         c_realTimeSeq := 0, c_inCall := False, c_lastError := SUCCESS\<rparr>)) s) next
      (connected_by throws host port pw ms s)"
  proof (rule inside_started, goal_cases)
    case 2
    with assms(2) True show ?case by (simp add: Connect_def Let_def split: if_splits)
  next
    case 3
    with assms(2) True show ?case
      by (cases "throws ThreadStart"; cases "throws TimerStart"; cases "throws ResolveStart")
        (simp_all add: Connect_def connected_by_def emitted_def inside_simps called_def split: if_splits)
  qed simp
  with True show ?thesis
    by (simp add: Connect_body_def on_def inside_access del: inside_pieces)
qed

text \<open>Alone, the call does what the function does.\<close>

lemma alone_Connect:
  "\<not> c_connectionMutex (client_of s) \<Longrightarrow> Connect throws host port pw ms (client_of s) \<noteq> Inl Terminate \<Longrightarrow>
    alone (Connect_task throws host port pw ms next) s next (connected_by throws host port pw ms s)"
  unfolding Connect_task_def lock_connection_def
  by (rule alone_locked, assumption, rule inside_alone [OF Connect_inside])

lemma alone_Connect_terminates:
  assumes "\<not> c_connectionMutex (client_of s)" "Connect throws host port pw ms (client_of s) = Inl Terminate"
  shows "\<exists>s'. alone (Connect_task throws host port pw ms next) s Return s' \<and> terminated s'"
proof (intro exI conjI)
  have "c_state (client_of s) = DISCONNECTED" "throws ThreadStart = None" "ioThread_joinable (client_of s)"
    using assms(2) by (simp_all add: Connect_def Let_def split: if_splits option.splits)
  with assms(1) show "alone (Connect_task throws host port pw ms next) s Return ((on (\<lambda>c. act IoRestart (c
      \<lparr>c_connectionMutex := True, c_password := pw, c_routineSeq := 0, c_realTimeSeq := 0, c_inCall := False,
        c_lastError := SUCCESS\<rparr>)) s)\<lparr>terminated := True\<rparr>)"
    unfolding Connect_task_def lock_connection_def
    by (auto simp: Connect_body_def start_thread_def intro!: alone_locked alone_pieces alone_refl)
qed simp

section \<open>Calls of several threads\<close>

text \<open>A client on which \<open>Connect\<close> does not stop the program.\<close>

definition connectable :: "'ep shared \<Rightarrow> bool" where
  "connectable s \<longleftrightarrow> c_state (client_of s) \<noteq> DISCONNECTED \<or> \<not> ioThread_joinable (client_of s)"

type_synonym request = "bytes \<times> u16 \<times> bytes \<times> u32"

definition connects :: "request \<Rightarrow> 'ep shared \<Rightarrow> 'ep shared" where
  "connects = (\<lambda>(host, port, pw, ms). connected_by (\<lambda>_. None) host port pw ms)"

lemma connects_busy:
  "c_state (client_of s) \<noteq> DISCONNECTED \<Longrightarrow>
    connects request s = s\<lparr>replies := replies s @ [ALREADY_CONNECTED]\<rparr>"
  by (cases request) (simp add: connects_def connected_by_def Connect_def emitted_def)

lemma connects_free:
  assumes "c_state (client_of s) = DISCONNECTED" "\<not> ioThread_joinable (client_of s)"
  shows "Connect (\<lambda>_. None) host port pw ms (client_of s) =
      Inr (SUCCESS, client_of (connects (host, port, pw, ms) s)) \<and>
    c_state (client_of (connects (host, port, pw, ms) s)) = CONNECTING \<and>
    replies (connects (host, port, pw, ms) s) = replies s @ [SUCCESS] \<and>
    terminated (connects (host, port, pw, ms) s) = terminated s"
  using assms by (simp add: connects_def connected_by_def Connect_def Let_def emitted_def)

lemma connectable_Connect:
  "connectable s \<Longrightarrow> Connect (\<lambda>_. None) host port pw ms (client_of s) \<noteq> Inl Terminate"
  by (auto simp: connectable_def Connect_def Let_def)

lemma connects_connectable: "connectable s \<Longrightarrow> connectable (connects request s)"
  using connects_busy [of s request] connects_free [of s]
  by (cases request; cases "c_state (client_of s) = DISCONNECTED") (auto simp: connectable_def)

interpretation connector: critical "\<lambda>s. c_connectionMutex (client_of s)"
  "on (\<lambda>c. c\<lparr>c_connectionMutex := True\<rparr>)"
  "\<lambda>(host, port, pw, ms). Connect_body (\<lambda>_. None) host port pw ms Return" connects connectable
proof
  fix s :: "'a shared" and request :: request
  assume s: "\<not> c_connectionMutex (client_of s)" "connectable s"
  then show "in_Connect (case request of (host, port, pw, ms) \<Rightarrow> Connect_body (\<lambda>_. None) host port pw ms Return)
      (on (\<lambda>c. c\<lparr>c_connectionMutex := True\<rparr>) s) Return (connects request s)"
    using Connect_inside [OF s(1) connectable_Connect [OF s(2)]] by (cases request) (simp add: connects_def)
qed (rule connects_connectable)

definition connect_tasks :: "request list \<Rightarrow> 'ep shared task list" where
  "connect_tasks = map (\<lambda>(host, port, pw, ms). Connect_task (\<lambda>_. None) host port pw ms Return)"

lemma connect_tasks_jobs: "connect_tasks requests = map connector.job requests"
  by (auto simp: connect_tasks_def Connect_task_def lock_connection_def)

lemma fold_busy:
  "c_state (client_of s) \<noteq> DISCONNECTED \<Longrightarrow>
    fold connects requests s = s\<lparr>replies := replies s @ replicate (length requests) ALREADY_CONNECTED\<rparr>"
  by (induction requests arbitrary: s) (simp_all add: connects_busy)

section \<open>Properties\<close>

text \<open>C15. Of any number of threads that call \<open>Connect\<close> on a disconnected client whose last
  background thread has been joined, exactly one connects, if nothing in the start of Asio or of the
  thread throws and as long as the background thread that the first call starts has not run a
  handler: in every schedule of the accesses of the calling threads, once none of them can go on, all
  have returned, the client is as after the one call alone, the first answer is \<open>SUCCESS\<close> and
  all others are \<open>ALREADY_CONNECTED\<close>, and the program was not stopped.\<close>

theorem Concurrent_connects:
  assumes "schedule is (s, connect_tasks requests) = (s', ts')" "quiescent (s', ts')" "requests \<noteq> []"
    and "c_state (client_of s) = DISCONNECTED" "\<not> ioThread_joinable (client_of s)"
    and "\<not> c_connectionMutex (client_of s)"
  shows "ts' = replicate (length requests) Return \<and> terminated s' = terminated s \<and>
    replies s' = replies s @ SUCCESS # replicate (length requests - 1) ALREADY_CONNECTED \<and>
    (\<exists>host port pw ms. (host, port, pw, ms) \<in> set requests \<and>
      Connect (\<lambda>_. None) host port pw ms (client_of s) = Inr (SUCCESS, client_of s'))"
proof -
  have "connectable s" using assms(5) by (simp add: connectable_def)
  from connector.serial [OF assms(1) [unfolded connect_tasks_jobs] assms(6) this assms(2)]
  obtain order where order: "mset order = mset requests" "s' = fold connects order s"
    "ts' = replicate (length requests) Return" by blast
  with assms(3) obtain host port pw ms rest where first: "order = (host, port, pw, ms) # rest"
    by (cases order) auto
  note free = connects_free [OF assms(4,5), of host port pw ms]
  have "s' = (connects (host, port, pw, ms) s)\<lparr>replies :=
      replies (connects (host, port, pw, ms) s) @ replicate (length rest) ALREADY_CONNECTED\<rparr>"
    using order(2) first free by (simp add: fold_busy)
  moreover have "length requests = Suc (length rest)" "(host, port, pw, ms) \<in> set requests"
    using order(1) first by (metis length_Cons size_mset, metis list.set_intros(1) set_mset_mset)
  ultimately show ?thesis using order(3) free by auto
qed

definition sample_unconnected :: "nat shared" where
  "sample_unconnected = \<lparr>client_of = new_client 1 [] 0 (\<lambda>_. True), io_running = False, sleeping = False,
     answer = None, replies = [], terminated = False\<rparr>"

theorem Concurrent_connects_witness:
  "\<exists>is s'. schedule is (sample_unconnected, connect_tasks [([1], 1, [2], 3), ([4], 1, [5], 6)]) =
      (s', [Return, Return]) \<and> replies s' = [SUCCESS, ALREADY_CONNECTED]"
proof -
  let ?requests = "[([1], 1, [2], 3), ([4], 1, [5], 6)] :: request list"
  have free: "\<not> c_connectionMutex (client_of sample_unconnected)" "connectable sample_unconnected"
    "c_state (client_of sample_unconnected) = DISCONNECTED"
    "\<not> ioThread_joinable (client_of sample_unconnected)" "replies sample_unconnected = []"
    by (simp_all add: sample_unconnected_def connectable_def new_client_def)
  obtain "is" s' where s': "schedule is (sample_unconnected, connect_tasks ?requests) = (s', [Return, Return])"
    using connector.completes [OF free(1,2), of ?requests] by (auto simp: connect_tasks_jobs numeral_2_eq_2)
  have "quiescent (s', [Return, Return])" by (simp add: quiescent_def)
  from Concurrent_connects [OF s' this _ free(3,4,1)] s' free(5) show ?thesis by auto
qed

text \<open>C17. A \<open>Connect\<close> beside a \<open>Disconnect\<close> can stop the program: \<open>Disconnect\<close> gives up the state
  first and joins the thread last, without the mutex; a \<open>Connect\<close> of another thread in between
  finds the client disconnected and its thread joinable, and calls \<open>std::terminate\<close>.\<close>

theorem Connect_beside_disconnect:
  assumes "c_state (client_of s) \<noteq> DISCONNECTED" "ioThread_joinable (client_of s)"
    and "\<not> c_writeMutex (client_of s)" "\<not> c_connectionMutex (client_of s)"
  shows "\<exists>is s'. schedule is (s, [Disconnect_task env App Return, Connect_task (\<lambda>_. None) host port pw ms Return]) =
      (s', [join_task App Return, Return]) \<and> terminated s'"
proof -
  let ?connect = "Connect_task (\<lambda>_. None) host port pw ms Return :: 'a shared task"
  let ?join = "join_task App Return :: 'a shared task"
  have disconnect: "alone (Disconnect_task env App Return) s ?join (on (ended env) s)"
    using assms(1,3) by (intro alone_until_join)
  have gone: "c_state (ended env c) = DISCONNECTED" "c_connectionMutex (ended env c) = c_connectionMutex c"
    "ioThread_joinable (ended env c) = ioThread_joinable c" for c :: "'a client"
    by (simp_all add: ended_def closed_def Let_def StopKeepAliveTimer_def)
  have "Connect (\<lambda>_. None) host port pw ms (ended env (client_of s)) = Inl Terminate"
    using gone assms(2) by (simp add: Connect_def)
  then obtain s' where connect: "alone ?connect (on (ended env) s) Return s'" "terminated s'"
    using alone_Connect_terminates [of "on (ended env) s" "\<lambda>_. None" host port pw ms Return] gone assms(4)
    by auto
  have "can_reach (on (ended env) s, [?join, ?connect]) (s', [?join, Return])"
    using can_reach_alone [of "[?join, ?connect]" 1 _ Return s'] connect(1) by (simp add: can_reach_refl)
  then have "can_reach (s, [Disconnect_task env App Return, ?connect]) (s', [?join, Return])"
    using can_reach_alone [of "[Disconnect_task env App Return, ?connect]" 0 s ?join] disconnect by simp
  with connect(2) show ?thesis unfolding can_reach_def by blast
qed

theorem Connect_beside_disconnect_witness:
  "\<exists>is s'. schedule is (sample_waiting, [Disconnect_task calm App Return, Connect_task (\<lambda>_. None) [] 62031 [] 1 Return]) =
      (s', [join_task App Return, Return]) \<and> terminated s'"
  using Connect_beside_disconnect [of sample_waiting] sample_waiting_free by simp

end
