(* ===== verification/Client_Traffic.thy ===== *)
theory Client_Traffic
  imports Client_Session
begin

text \<open>
  The properties of the client on the wire: what each request sends, and that a receiver of the
  protocol (another client, or the server with the decoders of \<open>Protocol\<close>) gets out of it what
  the application put in, whatever the byte orders of the two hosts.
\<close>

section \<open>What arrives\<close>

lemma flags_routine [simp]: "NONE AND REAL_TIME_1 = 0" "REAL_TIME_1 \<noteq> 0"
  by (simp_all add: flag_defs)

lemma length_voice_header [simp]: "length (voice_header src dest g) = 12"
  by (simp add: voice_header_bytes)

lemma dispatch_types:
  "h_type h = DMR_DATA_BASE + 1 \<Longrightarrow> dispatch env h p c = handle_voice_header p c"
  "h_type h = DMR_DATA_BASE + 2 \<Longrightarrow> dispatch env h p c = Inr (call onVoiceTerminator OnVoiceTerminator c)"
  "h_type h = DMR_AUDIO_FRAME \<Longrightarrow> dispatch env h p c = Inr (call onAudioFrame
     (OnAudioFrame \<lparr>sequenceNumber = h_number h, ambeData = p\<rparr>) c)"
  "h_type h = MESSAGE_TEXT \<Longrightarrow> dispatch env h p c = handle_text env p c"
  "h_type h = LOCATION_REPORT \<Longrightarrow> dispatch env h p c = handle_location_report env p c"
  by (simp_all add: dispatch_def handle_default_def message_type_defs)

lemma voice_header_arrives:
  "ProcessPacket env' (next_packet env (DMR_DATA_BASE + 1) f (voice_header src dest g) c) d =
    Inr (call onVoiceHeader (OnVoiceHeader (take_bit 24 src) (take_bit 24 dest) g) d)"
  by (simp add: ProcessPacket_next dispatch_types handle_voice_header_sent)

text \<open>A text message, as the payload it is sent in.\<close>

lemma text_payload:
  assumes "list_all scalar cps" "length (utf16_text cps) < 32760" "text_text d = utf8_text cps"
  obtains p where "SerializeTextMessage host d = Inr p" "length p = 16 + 2 * length (utf16_text cps)"
    "\<And>host'. DeserializeTextMessage host' p = Inr (Some d)"
proof -
  have us: "Utf8ToUtf16 (text_text d) = Inr (utf16_text cps)"
    using assms by (simp add: utf_conversions list_all_code_point)
  obtain p where p: "SerializeTextMessage host d = Inr p" using SerializeTextMessage_returns by blast
  have "length (concat (map lsb_bytes (xs :: u16 list))) = 2 * length xs" for xs
    by (induction xs) simp_all
  with SerializeTextMessage_bytes [OF us, of host] p have "length p = 16 + 2 * length (utf16_text cps)"
    by auto
  moreover have "DeserializeTextMessage host' p = Inr (Some d)" for host'
    using TextMessage_sendable [of cps d host host'] assms p by (simp add: sendable_text_def)
  ultimately show thesis using that p by blast
qed

text \<open>The reply to a challenge.\<close>

lemma challenge_reply:
  assumes "c_state c = CONNECTING" "socket_open c" "sender = c_serverEndpoint c"
    and "split_packet (host_order env) (fits c data) = Some (h, salt)" "h_type h = CHALLENGE"
  shows "exec env (Received None data sender) c =
    Inr (act ReceiveFrom (TransmitRaw env AUTHENTICATION NONE (sha256 (salt @ c_password c))
      ((arrive data sender c)\<lparr>c_state := AUTHENTICATING\<rparr>)))"
proof -
  have "fits c data \<noteq> []" using assms(4) by auto
  then show ?thesis using assms
    by (simp add: exec_Received processed_def dispatched_simps StartReceiveLoop_def del: exec.simps)
qed

section \<open>A call\<close>

text \<open>The packets of a call, by type and payload, and how they are numbered.\<close>

definition voice_packets :: "endian \<Rightarrow> 'ep \<Rightarrow> nat \<Rightarrow> (u16 \<times> bytes) list \<Rightarrow> (bytes \<times> 'ep) list" where
  "voice_packets host ep n tps = map (\<lambda>(i, t, p).
     (packet_bytes host \<lparr>h_type = t, h_flags = REAL_TIME_1, h_number = of_nat i,
        h_length = of_nat (length p)\<rparr> p, ep)) (enumerate n tps)"

lemma voice_packets_simps [simp]:
  "voice_packets host ep n [] = []"
  "voice_packets host ep n ((t, p) # tps) =
    (packet_bytes host \<lparr>h_type = t, h_flags = REAL_TIME_1, h_number = of_nat n,
       h_length = of_nat (length p)\<rparr> p, ep) # voice_packets host ep (Suc n) tps"
  by (simp_all add: voice_packets_def)

text \<open>A client in a call that has sent \<open>n\<close> real-time packets.\<close>

definition in_call :: "nat \<Rightarrow> 'ep client \<Rightarrow> bool" where
  "in_call n c \<longleftrightarrow> c_state c = CONNECTED \<and> socket_open c \<and> c_inCall c \<and> c_realTimeSeq c = of_nat n"

lemma in_call_TransmitRaw:
  assumes "in_call n c"
  shows "in_call (Suc n) (TransmitRaw env t REAL_TIME_1 p c)"
    "datagrams (actions (TransmitRaw env t REAL_TIME_1 p c)) =
      datagrams (actions c) @ voice_packets (host_order env) (c_serverEndpoint c) n [(t, p)]"
  using assms
  by (simp_all add: in_call_def TransmitRaw_open(4) next_packet_def next_header_def add.commute)

lemma audio_frames:
  assumes "in_call n c"
  shows "\<exists>c'. run env (map SendAudioFrameCalled frames) c = Inr c' \<and> in_call (n + length frames) c' \<and>
    c_serverEndpoint c' = c_serverEndpoint c \<and>
    datagrams (actions c') = datagrams (actions c) @ voice_packets (host_order env) (c_serverEndpoint c) n
      (map (\<lambda>f. (DMR_AUDIO_FRAME, f)) frames)"
  using assms
proof (induction frames arbitrary: n c)
  case (Cons f frames)
  let ?c = "TransmitRaw env DMR_AUDIO_FRAME REAL_TIME_1 f c"
  have "SendAudioFrame env f c = ?c" using Cons.prems by (simp add: in_call_def SendAudioFrame_def)
  with Cons.IH [OF in_call_TransmitRaw(1) [OF Cons.prems, of env DMR_AUDIO_FRAME f]] show ?case
    using in_call_TransmitRaw(2) [OF Cons.prems, of env DMR_AUDIO_FRAME f] by auto
qed simp

lemma StartVoiceCall_packets:
  assumes "c_state c = CONNECTED" "socket_open c"
  shows "in_call 3 (StartVoiceCall env src dest g c)"
    "datagrams (actions (StartVoiceCall env src dest g c)) = datagrams (actions c) @
      voice_packets (host_order env) (c_serverEndpoint c) 0
        (replicate 3 (DMR_DATA_BASE + 1, voice_header src dest g))"
    "c_serverEndpoint (StartVoiceCall env src dest g c) = c_serverEndpoint c"
proof -
  let ?c0 = "c\<lparr>c_inCall := True, c_realTimeSeq := 0\<rparr>" and ?p = "voice_header src dest g"
  let ?T = "TransmitRaw env (DMR_DATA_BASE + 1) REAL_TIME_1 ?p"
  have 0: "in_call 0 ?c0" using assms by (simp add: in_call_def)
  note 1 = in_call_TransmitRaw [OF 0, of env "DMR_DATA_BASE + 1" ?p]
  note 2 = in_call_TransmitRaw [OF 1(1), of env "DMR_DATA_BASE + 1" ?p]
  note 3 = in_call_TransmitRaw [OF 2(1), of env "DMR_DATA_BASE + 1" ?p]
  have "StartVoiceCall env src dest g c = ?T (?T (?T ?c0))"
    using assms by (simp add: StartVoiceCall_def Let_def)
  with 1 2 3 show "in_call 3 (StartVoiceCall env src dest g c)"
    "datagrams (actions (StartVoiceCall env src dest g c)) = datagrams (actions c) @
      voice_packets (host_order env) (c_serverEndpoint c) 0
        (replicate 3 (DMR_DATA_BASE + 1, voice_header src dest g))"
    "c_serverEndpoint (StartVoiceCall env src dest g c) = c_serverEndpoint c"
    by (simp_all add: numeral_3_eq_3)
qed

lemma voice_packets_append:
  "voice_packets host ep n (xs @ ys) = voice_packets host ep n xs @ voice_packets host ep (n + length xs) ys"
  by (simp add: voice_packets_def enumerate_append_eq)

section \<open>Properties\<close>

text \<open>While the socket is open every \<open>TransmitRaw\<close> puts exactly one datagram on the wire, to
  the server, and any receiver parses it back into the type, the flags, the sender's current
  counter and the payload (of at most 65535 bytes, the width of the length field).\<close>

lemma Transmitted_packet_parses:
  assumes "socket_open c" "length p < 65536"
  shows "\<exists>pkt. datagrams (actions (TransmitRaw env t f p c)) =
      datagrams (actions c) @ [(pkt, c_serverEndpoint c)] \<and>
    split_packet host' pkt = Some (\<lparr>h_type = t, h_flags = f,
      h_number = (if f AND REAL_TIME_1 \<noteq> 0 then c_realTimeSeq c else c_routineSeq c),
      h_length = of_nat (length p)\<rparr>, p)"
  using assms split_next_packet [of p host' env t f c] by (auto simp: next_header_def)

text \<open>The first challenge of a connection attempt is answered with one AUTHENTICATION packet
  whose payload is the SHA-256 digest of the challenge followed by the password, and the session
  moves to authenticating.\<close>

lemma Challenge_answered:
  assumes "c_state c = CONNECTING" "socket_open c"
    and "split_packet (host_order env) (fits c data) = Some (h, salt)" "h_type h = CHALLENGE"
  shows "\<exists>c' pkt. exec env (Received None data (c_serverEndpoint c)) c = Inr c' \<and>
    c_state c' = AUTHENTICATING \<and>
    datagrams (actions c') = datagrams (actions c) @ [(pkt, c_serverEndpoint c)] \<and>
    split_packet host' pkt = Some (\<lparr>h_type = AUTHENTICATION, h_flags = NONE,
      h_number = c_routineSeq c, h_length = 32\<rparr>, sha256 (salt @ c_password c))"
proof -
  let ?c = "(arrive data (c_serverEndpoint c) c)\<lparr>c_state := AUTHENTICATING\<rparr>"
  let ?d = "sha256 (salt @ c_password c)"
  have "split_packet host' (next_packet env AUTHENTICATION NONE ?d ?c) =
      Some (\<lparr>h_type = AUTHENTICATION, h_flags = NONE, h_number = c_routineSeq c, h_length = 32\<rparr>, ?d)"
    by (simp add: split_next_packet length_sha256 next_header_def)
  then show ?thesis
    using challenge_reply [OF assms(1,2) refl assms(3,4)] assms(2) by (simp del: exec.simps)
qed

text \<open>C10. A call of \<open>n\<close> audio frames puts on the wire three voice headers, the frames in their
  order and one terminator, all flagged real-time and numbered 0 to \<open>n + 3\<close>, and ends the call.\<close>

theorem Call_on_the_wire:
  assumes "c_state c = CONNECTED" "socket_open c"
  shows "\<exists>c'. run env ([StartVoiceCallCalled src dest g] @ map SendAudioFrameCalled frames @
      [EndVoiceCallCalled]) c = Inr c' \<and> \<not> c_inCall c' \<and>
    datagrams (actions c') = datagrams (actions c) @ voice_packets (host_order env) (c_serverEndpoint c) 0
      (replicate 3 (DMR_DATA_BASE + 1, voice_header src dest g) @
       map (\<lambda>f. (DMR_AUDIO_FRAME, f)) frames @ [(DMR_DATA_BASE + 2, [])])"
proof -
  note start = StartVoiceCall_packets [OF assms, of env src dest g]
  obtain c1 where 1: "run env (map SendAudioFrameCalled frames) (StartVoiceCall env src dest g c) = Inr c1"
    "in_call (3 + length frames) c1" "c_serverEndpoint c1 = c_serverEndpoint c"
    "datagrams (actions c1) = datagrams (actions (StartVoiceCall env src dest g c)) @
      voice_packets (host_order env) (c_serverEndpoint c) 3 (map (\<lambda>f. (DMR_AUDIO_FRAME, f)) frames)"
    using audio_frames [OF start(1), of env frames] start(3) by auto
  note stop = in_call_TransmitRaw [OF 1(2), of env "DMR_DATA_BASE + 2" "[]"]
  have "EndVoiceCall env c1 = (TransmitRaw env (DMR_DATA_BASE + 2) REAL_TIME_1 [] c1)\<lparr>c_inCall := False\<rparr>"
    using 1(2) by (simp add: EndVoiceCall_def in_call_def)
  with 1 start(2) stop(2) show ?thesis
    by (simp add: voice_packets_append)
qed

theorem Call_on_the_wire_witness:
  "\<exists>c'. run calm [StartVoiceCallCalled 1 91 True, SendAudioFrameCalled [1, 2, 3], EndVoiceCallCalled]
     connected = Inr c' \<and> length (datagrams (actions c')) = length (datagrams (actions connected)) + 5"
  using Call_on_the_wire [OF connected_run(2,3), of calm 1 91 True "[[1, 2, 3]]"]
  by (auto simp: numeral_3_eq_3 simp del: run_simps)

text \<open>Every packet of \<open>StartVoiceCall\<close> is announced by the receiving client to its
  \<open>onVoiceHeader\<close> hook with the caller's source, destination and kind of call; an id keeps its
  low 24 bits.\<close>

lemma Voice_call_announced:
  assumes "c_state c = CONNECTED" "socket_open c"
  shows "\<exists>pkts. datagrams (actions (StartVoiceCall env src dest g c)) = datagrams (actions c) @ pkts \<and>
    length pkts = 3 \<and>
    list_all (\<lambda>(pkt, ep). ep = c_serverEndpoint c \<and> ProcessPacket env' pkt d =
      Inr (call onVoiceHeader (OnVoiceHeader (take_bit 24 src) (take_bit 24 dest) g) d)) pkts"
proof -
  have "ProcessPacket env' (packet_bytes (host_order env) \<lparr>h_type = DMR_DATA_BASE + 1,
      h_flags = REAL_TIME_1, h_number = i, h_length = of_nat 12\<rparr> (voice_header src dest g)) d =
    Inr (call onVoiceHeader (OnVoiceHeader (take_bit 24 src) (take_bit 24 dest) g) d)" for i
    using voice_header_arrives [of env' env REAL_TIME_1 src dest g "c\<lparr>c_realTimeSeq := i\<rparr>" d]
    by (simp add: next_packet_def next_header_def)
  then show ?thesis
    using StartVoiceCall_packets(2) [OF assms, of env src dest g] by (simp add: numeral_3_eq_3)
qed

text \<open>The audio frames and the end of a call reach the hooks of the receiving client: the frame
  with the data the application sent and the real-time counter it was sent under.\<close>

lemma Voice_frames_delivered:
  assumes "c_state c = CONNECTED" "socket_open c" "c_inCall c" "length ambe < 65536"
  shows "(\<exists>pkt. datagrams (actions (SendAudioFrame env ambe c)) =
      datagrams (actions c) @ [(pkt, c_serverEndpoint c)] \<and>
    ProcessPacket env' pkt d = Inr (call onAudioFrame
      (OnAudioFrame \<lparr>sequenceNumber = c_realTimeSeq c, ambeData = ambe\<rparr>) d)) \<and>
   (\<exists>pkt. datagrams (actions (EndVoiceCall env c)) =
      datagrams (actions c) @ [(pkt, c_serverEndpoint c)] \<and>
    ProcessPacket env' pkt d = Inr (call onVoiceTerminator OnVoiceTerminator d))"
  using assms
  by (simp_all add: SendAudioFrame_def EndVoiceCall_def ProcessPacket_next dispatch_types next_header_def)

text \<open>C9. A text message of well-formed UTF-8 that reaches a client from its server, which has a
  session and sets the hook, arrives as it was written, with the sender's id, if it
  fits into the receive buffer: of a text of at most 495 UTF-16 units (1024 bytes with the two
  headers) the receiving client calls \<open>onTextMessage\<close>, once and with nothing else; a longer one (up
  to the 32759 units that a packet can hold) is sent as well, but cut on its arrival and dropped.\<close>

theorem Text_message_delivered:
  assumes "c_state c = CONNECTED" "socket_open c"
    and "list_all scalar cps" "length (utf16_text cps) < 32760"
    and "c_state d \<noteq> DISCONNECTED" "length (c_receiveBuffer d) = 1024" "hooks d onTextMessage"
  shows "\<exists>c' pkt d'. SendTextMessage env dest g (utf8_text cps) c = Inr c' \<and>
    datagrams (actions c') = datagrams (actions c) @ [(pkt, c_serverEndpoint c)] \<and>
    exec env' (Received None pkt (c_serverEndpoint d)) d = Inr d' \<and>
    actions d' = actions d @
      (if length (utf16_text cps) \<le> 495 then
         [Called (OnTextMessage \<lparr>sourceId = c_dmrId c, destinationId = dest, isGroup = g,
            message_text = utf8_text cps\<rparr>) (c_connectionMutex d) (c_writeMutex d)]
       else []) @
      (if socket_open d then [ReceiveFrom] else [])"
proof -
  let ?d = "\<lparr>text_sourceId = c_dmrId c, text_destinationId = dest, text_isGroup = g, text_text = utf8_text cps\<rparr>"
  obtain p where p: "SerializeTextMessage (host_order env) ?d = Inr p"
    "length p = 16 + 2 * length (utf16_text cps)" "DeserializeTextMessage (host_order env') p = Inr (Some ?d)"
    using text_payload [OF assms(3,4), of ?d "host_order env"] by auto
  let ?pkt = "next_packet env MESSAGE_TEXT NONE p c" and ?h = "next_header MESSAGE_TEXT NONE p c"
  have len: "length ?pkt = 34 + 2 * length (utf16_text cps)" and l: "length p < 65536"
    using p(2) assms(4) by (simp_all add: length_next_packet)
  have parts: "split_packet (host_order env') (fits d ?pkt) =
      (if length (utf16_text cps) \<le> 495 then Some (?h, p) else None)"
  proof (cases "length (utf16_text cps) \<le> 495")
    case True
    then show ?thesis using len assms(6) by (simp add: fits_def split_next_packet l)
  next
    case False
    have "DeserializeHeader (host_order env') ?pkt = Inr (Some ?h)"
      by (simp add: next_packet_def packet_bytes_def header.decode_append)
    then have "DeserializeHeader (host_order env') (take 1024 ?pkt) = Inr (Some ?h)"
      by (simp add: header.decode_take)
    moreover have "unat (h_length ?h) = length p" by (simp add: next_header_def unat_length_u16 l)
    ultimately show ?thesis using False len p(2) assms(6) by (simp add: fits_def split_packet_def)
  qed
  have "fits d ?pkt \<noteq> []" using len assms(6) by (auto simp: fits_def)
  then have "exec env' (Received None ?pkt (c_serverEndpoint d)) d =
      Inr (StartReceiveLoop (processed env' (fits d ?pkt) (arrive ?pkt (c_serverEndpoint d) d)))"
    using assms(5) by (simp add: exec_Received del: exec.simps)
  moreover have "processed env' (fits d ?pkt) a = (if length (utf16_text cps) \<le> 495 then
      call onTextMessage (OnTextMessage \<lparr>sourceId = c_dmrId c, destinationId = dest, isGroup = g,
        message_text = utf8_text cps\<rparr>) a else a)" for a
    using p(3) by (simp add: processed_def parts dispatched_def dispatch_types handle_text_def)
  ultimately show ?thesis using assms(1,2,5,7) p(1)
    by (intro exI [of _ "TransmitRaw env MESSAGE_TEXT NONE p c"] exI [of _ ?pkt])
      (simp add: SendTextMessage_def StartReceiveLoop_def called_def)
qed

definition sample_listener :: "nat client" where
  "sample_listener = (new_client 268999 [] 7 (\<lambda>_. True))\<lparr>c_state := CONNECTED, socket_open := True,
     ioThread_joinable := True\<rparr>"

theorem Text_message_delivered_witness:
  "\<exists>pkt d'. exec calm (Received None pkt 7) sample_listener = Inr d' \<and>
    actions d' = [Called (OnTextMessage \<lparr>sourceId = c_dmrId connected, destinationId = 91, isGroup = True,
      message_text = [0xC3, 0xA9, 0x21]\<rparr>) False False, ReceiveFrom]"
proof -
  have msg: "utf8_text [0xE9, 0x21] = [0xC3, 0xA9, 0x21]" "length (utf16_text [0xE9, 0x21]) = 2"
    "list_all scalar [0xE9, 0x21]"
    by (simp_all add: scalar_def utf16_text_def utf16_of_def utf8_text_def utf8_of_def)
  have d: "c_state sample_listener \<noteq> DISCONNECTED" "length (c_receiveBuffer sample_listener) = 1024"
    "hooks sample_listener onTextMessage" "c_serverEndpoint sample_listener = 7" "socket_open sample_listener"
    "actions sample_listener = []" "\<not> c_connectionMutex sample_listener" "\<not> c_writeMutex sample_listener"
    by (simp_all add: sample_listener_def new_client_def)
  from Text_message_delivered [OF connected_run(2,3) msg(3) _ d(1-3), of calm 91 True calm] show ?thesis
    by (auto simp: msg d simp del: exec.simps)
qed

text \<open>A position sentence without null characters (shorter than 65525 bytes) is handed to the
  receiver's \<open>onLocationReport\<close> hook as it was sent, with format 0.\<close>

lemma Location_delivered:
  assumes "c_state c = CONNECTED" "socket_open c" "0 \<notin> set nmea" "length nmea < 65525"
  shows "\<exists>pkt. datagrams (actions (SendLocationReport env nmea c)) =
      datagrams (actions c) @ [(pkt, c_serverEndpoint c)] \<and>
    ProcessPacket env' pkt d = Inr (call onLocationReport
      (OnLocationReport \<lparr>gps_format = 0, gps_nmea = nmea\<rparr>) d)"
proof -
  let ?r = "\<lparr>loc_format = 0, loc_nmea = nmea\<rparr>"
  have "DeserializeLocationReport (host_order env') (SerializeLocationReport (host_order env) ?r) = Inr (Some ?r)"
    using assms(3,4) by (intro location.decode_encode) simp
  moreover have "length (SerializeLocationReport (host_order env) ?r) < 65536"
    using assms(4) by (simp add: wire_simps)
  ultimately show ?thesis using assms(1,2)
    by (simp add: SendLocationReport_def Let_def ProcessPacket_next dispatch_types handle_location_report_def)
qed

text \<open>A subscription and its cancelling reach the server as the talkgroup the application
  named, as a group voice session, under their own packet types.\<close>

lemma Subscription_requested:
  assumes "c_state c = CONNECTED" "socket_open c"
  shows "(\<exists>pkt payload. datagrams (actions (Subscribe env tg c)) =
      datagrams (actions c) @ [(pkt, c_serverEndpoint c)] \<and>
    split_packet host' pkt = Some (\<lparr>h_type = SUBSCRIPTION, h_flags = NONE,
      h_number = c_routineSeq c, h_length = 8\<rparr>, payload) \<and>
    DeserializeSubscription host' payload = Inr (Some \<lparr>sub_type = SESSION_TYPE_GROUP_VOICE, sub_number = tg\<rparr>)) \<and>
   (\<exists>pkt payload. datagrams (actions (Unsubscribe env tg c)) =
      datagrams (actions c) @ [(pkt, c_serverEndpoint c)] \<and>
    split_packet host' pkt = Some (\<lparr>h_type = CANCELLING, h_flags = NONE,
      h_number = c_routineSeq c, h_length = 8\<rparr>, payload) \<and>
    DeserializeSubscription host' payload = Inr (Some \<lparr>sub_type = SESSION_TYPE_GROUP_VOICE, sub_number = tg\<rparr>))"
  using assms
  by (simp_all add: Subscribe_def Unsubscribe_def Let_def split_next_packet next_header_def
      subscription.length_encode subscription.total.decode_encode)

text \<open>The keep-alive timer of a connected client sends one packet that registers the client (its
  id, its service and its description) and starts the timer again for five seconds; on a client
  that has left the session, or cancelled, it does nothing.\<close>

lemma Keep_alive_tick:
  assumes "socket_open c" "length (c_description c) < 65531"
  shows "if aborted ec \<or> c_state c \<noteq> CONNECTED then on_keep_alive env ec c = c
    else last (actions (on_keep_alive env ec c)) = KeepAliveTimer 5 \<and>
      (\<exists>pkt h payload. datagrams (actions (on_keep_alive env ec c)) =
          datagrams (actions c) @ [(pkt, c_serverEndpoint c)] \<and>
        split_packet host' pkt = Some (h, payload) \<and> h_type h = KEEP_ALIVE \<and> h_length h \<noteq> 0 \<and>
        DeserializeVersionData host' payload = Inr (Some \<lparr>v_dmrId = c_dmrId c, v_service = 0x21,
          v_description = pop_nulls (c_description c)\<rparr>))"
proof (cases "aborted ec \<or> c_state c \<noteq> CONNECTED")
  case False
  let ?v = "\<lparr>v_dmrId = c_dmrId c, v_service = OPEN_TERMINAL, v_description = c_description c\<rparr>"
  let ?p = "SerializeVersionData (host_order env) ?v"
  have len: "length ?p = length (c_description c) + 5" by (simp add: wire_simps)
  then have "unat (of_nat (length ?p) :: u16) = length ?p"
    using assms(2) by (intro unat_length_u16) simp
  then have "of_nat (length ?p) \<noteq> (0 :: u16)" using len by (metis add_is_0 unat_0 zero_neq_numeral)
  moreover have "split_packet host' (next_packet env KEEP_ALIVE NONE ?p c) =
      Some (next_header KEEP_ALIVE NONE ?p c, ?p)"
    using len assms(2) by (intro split_next_packet) simp
  ultimately show ?thesis using False assms(1)
    by (simp add: on_keep_alive_def StartKeepAliveTimer_def SendKeepAlive_def VersionData_serialized
        next_header_def KEEP_ALIVE_INTERVAL_SEC_def OPEN_TERMINAL_def SR_APPLICATION_def)
qed (auto simp: on_keep_alive_def)

end
