(* ===== verification/Client_Calls.thy ===== *)
theory Client_Calls
  imports Client_Threads Client_Traffic
begin

text \<open>
  The operations of a voice call, access by access. Each packet is sent under the mutex, but
  the start of a call resets the counter of the real-time packets without it, and the tests of
  the state come before it: two threads that use a call at once can lose the reset, or send a
  frame after the end of the call.
\<close>

section \<open>The operations as tasks\<close>

definition send_headers :: "'ep env \<Rightarrow> bytes \<Rightarrow> 'ep shared task \<Rightarrow> 'ep shared task" where
  "send_headers env header next =
    (let send = TransmitRaw_task env (DMR_DATA_BASE + 1) REAL_TIME_1 header
     in send (send (send next)))"

definition StartVoiceCall_task :: "'ep env \<Rightarrow> u32 \<Rightarrow> u32 \<Rightarrow> bool \<Rightarrow> 'ep shared task \<Rightarrow> 'ep shared task" where
  "StartVoiceCall_task env source destination forGroup next =
    branch (\<lambda>s. c_state (client_of s) \<noteq> CONNECTED) next
      (then_do (on (\<lambda>c. c\<lparr>c_inCall := True\<rparr>))
      (then_do (on (\<lambda>c. c\<lparr>c_realTimeSeq := 0\<rparr>))
      (send_headers env (voice_header source destination forGroup) next)))"

definition SendAudioFrame_task :: "'ep env \<Rightarrow> bytes \<Rightarrow> 'ep shared task \<Rightarrow> 'ep shared task" where
  "SendAudioFrame_task env ambe next =
    branch (\<lambda>s. c_state (client_of s) \<noteq> CONNECTED) next
    (branch (\<lambda>s. \<not> c_inCall (client_of s)) next
      (TransmitRaw_task env DMR_AUDIO_FRAME REAL_TIME_1 ambe next))"

definition EndVoiceCall_task :: "'ep env \<Rightarrow> 'ep shared task \<Rightarrow> 'ep shared task" where
  "EndVoiceCall_task env next =
    branch (\<lambda>s. c_state (client_of s) \<noteq> CONNECTED) next
    (branch (\<lambda>s. \<not> c_inCall (client_of s)) next
      (TransmitRaw_task env (DMR_DATA_BASE + 2) REAL_TIME_1 []
        (then_do (on (\<lambda>c. c\<lparr>c_inCall := False\<rparr>)) next)))"

section \<open>Alone\<close>

definition headers_sent :: "'ep env \<Rightarrow> bytes \<Rightarrow> 'ep client \<Rightarrow> 'ep client" where
  "headers_sent env header c =
    (let send = TransmitRaw env (DMR_DATA_BASE + 1) REAL_TIME_1 header in send (send (send c)))"

lemma writeMutex_TransmitRaw: "\<not> c_writeMutex c \<Longrightarrow> \<not> c_writeMutex (TransmitRaw env t f p c)"
  by (cases "socket_open c") (simp_all add: TransmitRaw_open TransmitRaw_closed)

lemma alone_headers:
  "\<not> c_writeMutex (client_of s) \<Longrightarrow>
    alone (send_headers env header next) s next (on (headers_sent env header) s)"
  unfolding send_headers_def headers_sent_def Let_def
  by (intro alone_TransmitRaw alone_refl) (simp_all add: writeMutex_TransmitRaw)

text \<open>Alone, they do what their functions do.\<close>

lemma alone_call_operations:
  assumes "\<not> c_writeMutex (client_of s)"
  shows "alone (StartVoiceCall_task env src dest g next) s next (on (StartVoiceCall env src dest g) s)"
    "alone (SendAudioFrame_task env ambe next) s next (on (SendAudioFrame env ambe) s)"
    "alone (EndVoiceCall_task env next) s next (on (EndVoiceCall env) s)"
proof -
  have sent: "alone (send_headers env header next) (on f s) next (on (\<lambda>c. headers_sent env header (f c)) s)"
    if "\<not> c_writeMutex (f (client_of s))" for header f
    using alone_headers [of "on f s" env header "next"] that by simp
  show "alone (StartVoiceCall_task env src dest g next) s next (on (StartVoiceCall env src dest g) s)"
  proof (cases "c_state (client_of s) = CONNECTED")
    case True
    then have "on (\<lambda>c. headers_sent env (voice_header src dest g) (c\<lparr>c_inCall := True, c_realTimeSeq := 0\<rparr>)) s =
        on (StartVoiceCall env src dest g) s"
      by (simp add: StartVoiceCall_def headers_sent_def Let_def)
    with True assms sent [of "\<lambda>c. c\<lparr>c_inCall := True, c_realTimeSeq := 0\<rparr>" "voice_header src dest g"]
    show ?thesis by (auto simp: StartVoiceCall_task_def intro!: alone_pieces)
  next
    case False
    then have "on (StartVoiceCall env src dest g) s = s" by (intro on_same) (simp add: StartVoiceCall_def)
    with False show ?thesis by (auto simp: StartVoiceCall_task_def intro!: alone_pieces)
  qed
  show "alone (SendAudioFrame_task env ambe next) s next (on (SendAudioFrame env ambe) s)"
    using assms
    by (auto simp: SendAudioFrame_task_def SendAudioFrame_def on_same
        intro!: alone_pieces alone_TransmitRaw alone_refl)
  show "alone (EndVoiceCall_task env next) s next (on (EndVoiceCall env) s)"
    using assms
    by (auto simp: EndVoiceCall_task_def EndVoiceCall_def on_same
        intro!: alone_pieces alone_TransmitRaw alone_refl)
qed

section \<open>A send cut in two\<close>

text \<open>What a send still has to do when it has read its number.\<close>

definition numbered_send :: "'ep env \<Rightarrow> u16 \<Rightarrow> bytes \<Rightarrow> u32 \<Rightarrow> 'ep shared task \<Rightarrow> 'ep shared task" where
  "numbered_send env type payload n next =
    then_do (on (\<lambda>c. c\<lparr>c_realTimeSeq := n + 1\<rparr>))
      (send_packet env (\<lambda>next. next) type REAL_TIME_1 payload n (unlock_write next))"

lemma alone_until_number:
  assumes "in_call n (client_of s)" "\<not> c_writeMutex (client_of s)"
  shows "alone (TransmitRaw_task env type REAL_TIME_1 payload next) s
    (numbered_send env type payload (of_nat n) next) (on (\<lambda>c. c\<lparr>c_writeMutex := True\<rparr>) s)"
  using assms unfolding TransmitRaw_task_def TransmitRaw_hooked_def lock_write_def
  by (auto simp: in_call_def transmit_body_def take_number_def numbered_send_def
      intro!: alone_locked alone_pieces(2,3) alone_refl)

text \<open>A counter that another thread has set in between is set as if it had not been.\<close>

lemma alone_numbered_send:
  assumes "in_call n (client_of s)" "\<not> c_writeMutex (client_of s)"
  shows "alone (numbered_send env type payload (of_nat n) next)
    (on (\<lambda>c. c\<lparr>c_writeMutex := True, c_realTimeSeq := k\<rparr>) s) next (on (TransmitRaw env type REAL_TIME_1 payload) s)"
  using assms
  by (cases "send_result env type REAL_TIME_1 payload (client_of s)")
    (auto simp: numbered_send_def transmit_simps in_call_def intro!: alone_pieces alone_refl)

lemma headers_sent_packets:
  assumes "in_call n c"
  shows "datagrams (actions (headers_sent env header c)) = datagrams (actions c) @
    voice_packets (host_order env) (c_serverEndpoint c) n (replicate 3 (DMR_DATA_BASE + 1, header))"
proof -
  note 1 = in_call_TransmitRaw [OF assms, of env "DMR_DATA_BASE + 1" header]
  note 2 = in_call_TransmitRaw [OF 1(1), of env "DMR_DATA_BASE + 1" header]
  note 3 = in_call_TransmitRaw [OF 2(1), of env "DMR_DATA_BASE + 1" header]
  show ?thesis using 1(2) 2(2) 3(2) by (simp add: headers_sent_def Let_def numeral_3_eq_3)
qed

section \<open>Two threads in a call\<close>

lemma reset_lost:
  assumes "in_call n (client_of s)" "\<not> c_writeMutex (client_of s)"
  shows "\<exists>is s'. schedule is (s, [SendAudioFrame_task env f Return, StartVoiceCall_task env src dest g Return]) =
      (s', [Return, Return]) \<and>
    datagrams (actions (client_of s')) = datagrams (actions (client_of s)) @
      voice_packets (host_order env) (c_serverEndpoint (client_of s)) n
        ((DMR_AUDIO_FRAME, f) # replicate 3 (DMR_DATA_BASE + 1, voice_header src dest g))"
proof -
  let ?frame = "TransmitRaw env DMR_AUDIO_FRAME REAL_TIME_1 f" and ?header = "voice_header src dest g"
  let ?send = "SendAudioFrame_task env f Return :: 'a shared task"
  let ?start = "StartVoiceCall_task env src dest g Return :: 'a shared task"
  let ?numbered = "numbered_send env DMR_AUDIO_FRAME f (of_nat n) Return :: 'a shared task"
  let ?headers = "send_headers env ?header Return :: 'a shared task"
  define s1 where "s1 = on (\<lambda>c. c\<lparr>c_writeMutex := True\<rparr>) s"
  define s2 where "s2 = on (\<lambda>c. c\<lparr>c_writeMutex := True, c_realTimeSeq := 0\<rparr>) s"
  have connected: "c_state (client_of s) = CONNECTED" "c_inCall (client_of s)"
    using assms(1) by (simp_all add: in_call_def)
  have "alone ?send s ?numbered s1"
    unfolding SendAudioFrame_task_def s1_def using connected alone_until_number [OF assms]
    by (auto intro!: alone_pieces)
  moreover have "alone ?start s1 ?headers s2"
  proof -
    have "(client_of s)\<lparr>c_writeMutex := True, c_inCall := True\<rparr> = (client_of s)\<lparr>c_writeMutex := True\<rparr>"
      using connected(2) by (cases "client_of s") simp
    then show ?thesis unfolding StartVoiceCall_task_def s1_def s2_def using connected(1)
      by (auto intro!: alone_pieces alone_refl)
  qed
  moreover have "alone ?numbered s2 Return (on ?frame s)"
    unfolding s2_def by (rule alone_numbered_send [OF assms])
  moreover have "alone ?headers (on ?frame s) Return (on (\<lambda>c. headers_sent env ?header (?frame c)) s)"
    using alone_headers [of "on ?frame s"] assms(2) by (simp add: writeMutex_TransmitRaw)
  ultimately have "can_reach (s, [?send, ?start])
      (on (\<lambda>c. headers_sent env ?header (?frame c)) s, [Return, Return])"
    using can_reach_alone [of "[?send, ?start]" 0 s ?numbered s1]
      can_reach_alone [of "[?numbered, ?start]" 1 s1 ?headers s2]
      can_reach_alone [of "[?numbered, ?headers]" 0 s2 Return "on ?frame s"]
      can_reach_alone [of "[Return, ?headers]" 1 "on ?frame s" Return] by (simp add: can_reach_refl)
  then show "\<exists>is s'. schedule is (s, [?send, ?start]) = (s', [Return, Return]) \<and>
    datagrams (actions (client_of s')) = datagrams (actions (client_of s)) @
      voice_packets (host_order env) (c_serverEndpoint (client_of s)) n
        ((DMR_AUDIO_FRAME, f) # replicate 3 (DMR_DATA_BASE + 1, ?header))"
    using in_call_TransmitRaw [OF assms(1), of env DMR_AUDIO_FRAME f]
      headers_sent_packets [OF in_call_TransmitRaw(1) [OF assms(1)], of env ?header]
    unfolding can_reach_def by fastforce
qed

lemma frame_after_end:
  assumes "in_call n (client_of s)" "\<not> c_writeMutex (client_of s)"
  shows "\<exists>is s'. schedule is (s, [SendAudioFrame_task env f Return, EndVoiceCall_task env Return]) =
      (s', [Return, Return]) \<and> \<not> c_inCall (client_of s') \<and>
    datagrams (actions (client_of s')) = datagrams (actions (client_of s)) @
      voice_packets (host_order env) (c_serverEndpoint (client_of s)) n
        [(DMR_DATA_BASE + 2, []), (DMR_AUDIO_FRAME, f)]"
proof -
  let ?frame = "TransmitRaw env DMR_AUDIO_FRAME REAL_TIME_1 f"
  let ?send = "SendAudioFrame_task env f Return :: 'a shared task"
  let ?transmit = "TransmitRaw_task env DMR_AUDIO_FRAME REAL_TIME_1 f Return :: 'a shared task"
  let ?finish = "EndVoiceCall_task env Return :: 'a shared task"
  have "alone ?send s ?transmit s"
    unfolding SendAudioFrame_task_def using assms(1) by (auto simp: in_call_def intro!: alone_pieces alone_refl)
  moreover have "alone ?finish s Return (on (EndVoiceCall env) s)"
    by (rule alone_call_operations(3) [OF assms(2)])
  moreover have ended: "EndVoiceCall env (client_of s) =
      (TransmitRaw env (DMR_DATA_BASE + 2) REAL_TIME_1 [] (client_of s))\<lparr>c_inCall := False\<rparr>"
    using assms(1) by (simp add: EndVoiceCall_def in_call_def)
  then have "alone ?transmit (on (EndVoiceCall env) s) Return (on (\<lambda>c. ?frame (EndVoiceCall env c)) s)"
    using assms(2) by (intro alone_TransmitRaw alone_refl) (simp_all add: writeMutex_TransmitRaw)
  ultimately have "can_reach (s, [?send, ?finish]) (on (\<lambda>c. ?frame (EndVoiceCall env c)) s, [Return, Return])"
    using can_reach_alone [of "[?send, ?finish]" 0 s ?transmit s] can_reach_alone [of "[?transmit, ?finish]" 1 s Return]
      can_reach_alone [of "[?transmit, Return]" 0 "on (EndVoiceCall env) s" Return] by (simp add: can_reach_refl)
  then show "\<exists>is s'. schedule is (s, [?send, ?finish]) = (s', [Return, Return]) \<and> \<not> c_inCall (client_of s') \<and>
    datagrams (actions (client_of s')) = datagrams (actions (client_of s)) @
      voice_packets (host_order env) (c_serverEndpoint (client_of s)) n [(DMR_DATA_BASE + 2, []), (DMR_AUDIO_FRAME, f)]"
    using ended in_call_TransmitRaw [OF assms(1), of env "DMR_DATA_BASE + 2" "[]"] assms(1)
    unfolding can_reach_def
    by (fastforce simp: in_call_def TransmitRaw_open(4) next_packet_def next_header_def)
qed

section \<open>Properties\<close>

text \<open>C29. Two threads in a call can harm it. The start of a call beside the sending of a frame: in
  some schedule the reset of the real-time counter is lost, and the headers of the new call
  follow the old numbers. The end of a call beside the sending of a frame: in some schedule the
  frame is sent after the terminator.\<close>

theorem Call_races:
  assumes "in_call n (client_of s)" "\<not> c_writeMutex (client_of s)"
  shows "(\<exists>is s'. schedule is (s, [SendAudioFrame_task env f Return, StartVoiceCall_task env src dest g Return]) =
      (s', [Return, Return]) \<and>
    datagrams (actions (client_of s')) = datagrams (actions (client_of s)) @
      voice_packets (host_order env) (c_serverEndpoint (client_of s)) n
        ((DMR_AUDIO_FRAME, f) # replicate 3 (DMR_DATA_BASE + 1, voice_header src dest g))) \<and>
    (\<exists>is s'. schedule is (s, [SendAudioFrame_task env f Return, EndVoiceCall_task env Return]) =
      (s', [Return, Return]) \<and> \<not> c_inCall (client_of s') \<and>
    datagrams (actions (client_of s')) = datagrams (actions (client_of s)) @
      voice_packets (host_order env) (c_serverEndpoint (client_of s)) n
        [(DMR_DATA_BASE + 2, []), (DMR_AUDIO_FRAME, f)])"
  using reset_lost [OF assms] frame_after_end [OF assms] by blast

text \<open>A call in which three packets have been sent.\<close>

definition sample_call :: "nat shared" where
  "sample_call = on (StartVoiceCall calm 1 91 True) sample_shared"

theorem Call_races_witness:
  "\<exists>is s'. schedule is (sample_call, [SendAudioFrame_task calm [1] Return, EndVoiceCall_task calm Return]) =
      (s', [Return, Return]) \<and> length (datagrams (actions (client_of s'))) = length (datagrams (actions (client_of sample_call))) + 2"
proof -
  have "in_call 3 (client_of sample_call)"
    using StartVoiceCall_packets(1) [OF connected_run(2,3)] by (simp add: sample_call_def sample_shared_def)
  moreover have "\<not> c_writeMutex (client_of sample_call)"
    using sample_shared_free(1) connected_run(2)
    by (simp add: sample_call_def StartVoiceCall_def sample_shared_def Let_def writeMutex_TransmitRaw)
  ultimately show ?thesis using Call_races [of 3 sample_call calm "[1]"] by fastforce
qed

end
