(* ===== verification/Client_Resolve.thy ===== *)
theory Client_Resolve
  imports Client_Races
begin

text \<open>
  The handler of the resolution, access by access, against a \<open>Disconnect\<close> of the application.
  The handler holds \<open>connectionMutex_\<close> while it tests the state and opens the socket, but
  \<open>Disconnect\<close> does not take it: it can close the socket in between, before it is open.
\<close>

section \<open>The handler as a task\<close>

definition StartReceiveLoop_task :: "'ep shared task \<Rightarrow> 'ep shared task" where
  "StartReceiveLoop_task next =
    branch (\<lambda>s. c_state (client_of s) = DISCONNECTED) next
    (branch (\<lambda>s. \<not> socket_open (client_of s)) next
      (then_do (on (act ReceiveFrom)) next))"

definition SendKeepAlive_task :: "'ep env \<Rightarrow> 'ep shared task \<Rightarrow> 'ep shared task" where
  "SendKeepAlive_task env next =
    reading (\<lambda>s. SerializeVersionData (host_order env) \<lparr>v_dmrId = c_dmrId (client_of s),
        v_service = OPEN_TERMINAL, v_description = c_description (client_of s)\<rparr>) (\<lambda>payload.
    TransmitRaw_task env KEEP_ALIVE NONE payload next)"

definition resolve_failed_task :: "'ep env \<Rightarrow> ClientError \<Rightarrow> string \<Rightarrow> 'ep shared task \<Rightarrow> 'ep shared task" where
  "resolve_failed_task env err msg next =
    then_do (on (\<lambda>c. c\<lparr>c_lastError := err\<rparr>))
    (then_do (on (call onError (OnError err msg)))
    (Disconnect_task env Io (notify_all (unlock_connection next))))"

definition open_socket :: "'ep \<Rightarrow> 'ep client \<Rightarrow> 'ep client" where
  "open_socket ep c = (act (OpenSocket ep) c)\<lparr>socket_open := True\<rparr>"

text \<open>From the assignment of the endpoint on.\<close>

definition bind_task :: "'ep env \<Rightarrow> error_code option \<Rightarrow> 'ep shared task \<Rightarrow> 'ep shared task" where
  "bind_task env bindEc next =
    then_do (on (act BindSocket))
    (case bindEc of
       Some e \<Rightarrow> resolve_failed_task env SOCKET_IO (''Failed to bind socket: '' @ ec_message e) next
     | None \<Rightarrow> StartReceiveLoop_task (SendKeepAlive_task env (unlock_connection next)))"

definition open_task :: "'ep env \<Rightarrow> 'ep \<Rightarrow> error_code option \<Rightarrow> error_code option \<Rightarrow>
    'ep shared task \<Rightarrow> 'ep shared task" where
  "open_task env ep openEc bindEc next =
    then_do (on (\<lambda>c. c\<lparr>c_serverEndpoint := ep\<rparr>))
    (case openEc of
       Some e \<Rightarrow> then_do (on (act (OpenSocket ep)))
         (resolve_failed_task env SOCKET_IO (''Failed to open socket: '' @ ec_message e) next)
     | None \<Rightarrow> then_do (on (open_socket ep)) (bind_task env bindEc next))"

definition on_resolve_task :: "'ep env \<Rightarrow> error_code option \<Rightarrow> 'ep list \<Rightarrow> error_code option \<Rightarrow>
    error_code option \<Rightarrow> 'ep shared task \<Rightarrow> 'ep shared task" where
  "on_resolve_task env ec endpoints openEc bindEc next =
    lock_connection
      (branch (\<lambda>s. c_state (client_of s) \<noteq> CONNECTING) (unlock_connection next)
        (case (ec, endpoints) of
           (Some e, _) \<Rightarrow> resolve_failed_task env DNS_RESOLVE (''DNS resolution failed: '' @ ec_message e) next
         | (None, []) \<Rightarrow> resolve_failed_task env DNS_RESOLVE
             (''DNS resolution failed: '' @ ''No endpoints resolved'') next
         | (None, ep # _) \<Rightarrow> open_task env ep openEc bindEc next))"

section \<open>Alone\<close>

lemma alone_SendKeepAlive:
  "\<not> c_writeMutex (client_of s) \<Longrightarrow> alone next (on (SendKeepAlive env) s) t s' \<Longrightarrow>
    alone (SendKeepAlive_task env next) s t s'"
  by (auto simp: SendKeepAlive_task_def SendKeepAlive_def Let_def on_def intro!: alone_pieces alone_TransmitRaw)

lemma alone_StartReceiveLoop:
  "alone next (on StartReceiveLoop s) t s' \<Longrightarrow> alone (StartReceiveLoop_task next) s t s'"
  by (auto simp: StartReceiveLoop_task_def StartReceiveLoop_def on_def intro!: alone_pieces)

lemma alone_resolve_failed:
  assumes "\<not> c_writeMutex (client_of s)"
  shows "alone (resolve_failed_task env err msg next) s next
    (wakes True (on (\<lambda>c. (resolve_failed env err msg c)\<lparr>c_connectionMutex := False\<rparr>) s))"
  using assms
  by (auto simp: resolve_failed_task_def resolve_failed_def unlock_connection_def notify_all_def Let_def wakes_on
      intro!: alone_pieces alone_Disconnect alone_refl)

lemma alone_resolve_failed_on:
  assumes "\<not> c_writeMutex (f (client_of s))"
    and "s' = wakes True (on (\<lambda>c. (resolve_failed env err msg (f c))\<lparr>c_connectionMutex := False\<rparr>) s)"
  shows "alone (resolve_failed_task env err msg next) (on f s) next s'"
  using alone_resolve_failed [of "on f s" env err msg "next"] assms by simp

text \<open>Alone, it does what its function does, and wakes the waiting thread if it fails.\<close>

lemma alone_on_resolve:
  assumes "\<not> c_writeMutex (client_of s)" "\<not> c_connectionMutex (client_of s)"
  shows "alone (on_resolve_task env ec endpoints openEc bindEc next) s next
    (wakes (c_state (client_of s) = CONNECTING \<and>
        (ec \<noteq> None \<or> endpoints = [] \<or> openEc \<noteq> None \<or> bindEc \<noteq> None))
      (on (on_resolve env ec endpoints openEc bindEc) s))"
proof (cases "c_state (client_of s) = CONNECTING")
  case False
  then have "on (on_resolve env ec endpoints openEc bindEc) s = s"
    using assms(2) by (intro on_same) (simp add: on_resolve_def Let_def)
  with False assms show ?thesis
    by (auto simp: on_resolve_task_def lock_connection_def unlock_connection_def on_same
        intro!: alone_locked alone_pieces alone_refl)
next
  case True
  note task_defs = on_resolve_task_def lock_connection_def unlock_connection_def open_task_def bind_task_def
  note start = alone_locked alone_pieces(1,2)
  show ?thesis
  proof (cases "ec = None \<and> endpoints \<noteq> [] \<and> openEc = None \<and> bindEc = None")
    case ok: True
    then obtain ep eps where "endpoints = ep # eps" by (cases endpoints) auto
    with ok True assms show ?thesis
      by (auto simp: task_defs on_resolve_def open_socket_def Let_def StartReceiveLoop_def SendKeepAlive_def
          intro!: start alone_StartReceiveLoop alone_SendKeepAlive alone_refl)
  next
    case failed: False
    with True assms show ?thesis
      by (cases ec; cases endpoints; cases openEc; cases bindEc)
        (auto simp: task_defs on_resolve_def open_socket_def Let_def
          intro!: start alone_resolve_failed_on)
  qed
qed

section \<open>The socket left open\<close>

lemma io_stopped_endpoint [simp]: "io_stopped (c\<lparr>c_serverEndpoint := ep\<rparr>) = io_stopped c"
  by (simp add: io_stopped_def)

lemma io_stopped_TransmitRaw [simp]: "io_stopped (TransmitRaw env t f p c) = io_stopped c"
proof (cases "socket_open c")
  case False
  then show ?thesis by (simp add: TransmitRaw_closed)
next
  case True
  have "IoStop \<in> set (since_restart (as @ [SendTo q ep, Called cb k w])) \<longleftrightarrow> IoStop \<in> set (since_restart as)"
    for as :: "'a action list" and q ep cb k w
    using since_restart_snoc [of "as @ [SendTo q ep]"] by simp
  with True show ?thesis
    by (simp add: io_stopped_def TransmitRaw_open(6) split: option.split)
qed

text \<open>What the rest of the handler makes of a session that has ended meanwhile.\<close>

definition late_open :: "'ep env \<Rightarrow> 'ep \<Rightarrow> 'ep client \<Rightarrow> 'ep client" where
  "late_open env ep c =
    (SendKeepAlive env (act BindSocket (open_socket ep (c\<lparr>c_serverEndpoint := ep\<rparr>))))\<lparr>c_connectionMutex := False\<rparr>"

lemma alone_late_open:
  assumes "\<not> c_writeMutex (client_of s)" "c_state (client_of s) = DISCONNECTED"
  shows "alone (open_task env ep None None next) s next (on (late_open env ep) s)"
  using assms
  by (auto simp: open_task_def bind_task_def unlock_connection_def StartReceiveLoop_def late_open_def open_socket_def
      intro!: alone_pieces(1) alone_StartReceiveLoop alone_SendKeepAlive alone_refl)

lemma late_open_frame [simp]:
  "socket_open (late_open env ep c)" "c_state (late_open env ep c) = c_state c"
  "ioThread_joinable (late_open env ep c) = ioThread_joinable c"
  "io_stopped (late_open env ep c) = io_stopped c"
  by (simp_all add: late_open_def open_socket_def SendKeepAlive_def Let_def)

definition next_registration :: "'ep env \<Rightarrow> 'ep client \<Rightarrow> bytes" where
  "next_registration env c = next_packet env KEEP_ALIVE NONE (SerializeVersionData (host_order env)
     \<lparr>v_dmrId = c_dmrId c, v_service = OPEN_TERMINAL, v_description = c_description c\<rparr>) c"

lemma datagrams_late_open:
  "datagrams (actions (late_open env ep c)) = datagrams (actions c) @ [(next_registration env c, ep)]"
  by (simp add: late_open_def open_socket_def SendKeepAlive_def Let_def TransmitRaw_open(6) next_registration_def
      next_packet_def next_header_def split: option.split)

lemma ended_closed:
  assumes "\<not> socket_open c"
  shows "datagrams (actions (ended env c)) = datagrams (actions c)"
    "next_registration env (ended env c) = next_registration env c"
    "c_writeMutex (ended env c) = c_writeMutex c"
  using assms by (simp_all add: ended_def closed_def Let_def StopKeepAliveTimer_def next_registration_def
      next_packet_def next_header_def)

lemma next_registration_mutex [simp]:
  "next_registration env (c\<lparr>c_connectionMutex := b\<rparr>) = next_registration env c"
  by (simp add: next_registration_def next_packet_def next_header_def)

text \<open>C24. A \<open>Disconnect\<close> of the application does not keep the handler of the resolution from opening
  the socket: some schedule of the two threads' accesses ends with both returned, the session
  disconnected and the background thread joined, but with the socket open and a registration
  sent to the server after everything was closed.\<close>

theorem Disconnect_leaves_socket:
  assumes "c_state (client_of s) = CONNECTING" "ioThread_joinable (client_of s)" "io_running s"
    and "\<not> c_writeMutex (client_of s)" "\<not> c_connectionMutex (client_of s)" "\<not> io_stopped (client_of s)"
    and "\<not> socket_open (client_of s)"
  shows "\<exists>is s'. schedule is (s, [io_thread [on_resolve_task env None (ep # eps) None None],
      Disconnect_task env App Return]) = (s', [Return, Return]) \<and>
    c_state (client_of s') = DISCONNECTED \<and> socket_open (client_of s') \<and>
    \<not> ioThread_joinable (client_of s') \<and>
    datagrams (actions (client_of s')) =
      datagrams (actions (client_of s)) @ [(next_registration env (client_of s), ep)]"
proof -
  let ?lock = "on (\<lambda>c. c\<lparr>c_connectionMutex := True\<rparr>)"
  let ?io = "io_thread [on_resolve_task env None (ep # eps) None None]"
  let ?open = "open_task env ep None None (io_thread [])" and ?join = "join_task App Return :: 'a shared task"
  define s1 where "s1 = on (ended env) (?lock s)"
  define s2 where "s2 = (on (late_open env ep) s1)\<lparr>io_running := False\<rparr>"
  let ?q = "(on (joined App) s2, [Return, Return])"
  have test: "alone ?io s ?open (?lock s)"
    using assms(1,5,6) unfolding io_thread.simps(2) on_resolve_task_def lock_connection_def
    by - (rule alone_pieces(2), simp, rule alone_locked, simp, rule alone_pieces(2), simp add: alone.stop)
  have disconnect: "alone (Disconnect_task env App Return) (?lock s) ?join s1"
    using assms(1,4) unfolding s1_def by (intro alone_until_join) simp_all
  have "alone ?open s1 (io_thread []) (on (late_open env ep) s1)"
    using assms(4,7) by (intro alone_late_open) (simp_all add: s1_def ended_closed)
  then have late: "alone ?open s1 Return s2"
    unfolding s2_def by (rule alone_trans) (rule alone_io_end, simp add: s1_def)
  have join: "alone ?join s2 Return (on (joined App) s2)"
    by (intro alone_join alone.stop) (simp add: s2_def)
  have "can_reach (s2, [Return, ?join]) ?q"
    using can_reach_alone [of "[Return, ?join]" 1 s2 Return] join by (simp add: can_reach_refl)
  then have "can_reach (s1, [?open, ?join]) ?q"
    using can_reach_alone [of "[?open, ?join]" 0 _ Return s2] late by simp
  then have "can_reach (?lock s, [?open, Disconnect_task env App Return]) ?q"
    using can_reach_alone [of "[?open, Disconnect_task env App Return]" 1 _ ?join] disconnect by simp
  then have "can_reach (s, [?io, Disconnect_task env App Return]) ?q"
    using can_reach_alone [of "[?io, Disconnect_task env App Return]" 0 s ?open] test
    by (simp del: io_thread.simps)
  then obtain "is" where "schedule is (s, [?io, Disconnect_task env App Return]) = ?q"
    unfolding can_reach_def by blast
  then show ?thesis
    using assms(7)
    by (intro exI [of _ "is"] exI [of _ "on (joined App) s2"])
      (simp add: s2_def s1_def datagrams_late_open ended_closed joined_def del: io_thread.simps)
qed

definition sample_resolving :: "nat shared" where
  "sample_resolving = sample_waiting\<lparr>client_of := (client_of sample_waiting)\<lparr>c_state := CONNECTING,
     socket_open := False\<rparr>\<rparr>"

theorem Disconnect_leaves_socket_witness:
  "\<exists>is s'. schedule is (sample_resolving, [io_thread [on_resolve_task calm None [3] None None],
      Disconnect_task calm App Return]) = (s', [Return, Return]) \<and>
    c_state (client_of s') = DISCONNECTED \<and> socket_open (client_of s')"
  using Disconnect_leaves_socket [of sample_resolving calm 3 "[]"] sample_waiting_free
  by (auto simp: sample_resolving_def simp del: io_thread.simps)

end
