(* ===== verification/Test_Cases.thy ===== *)
theory Test_Cases
  imports Protocol Sha256_Vectors
begin

text \<open>
  The test cases of \<open>tests/test_protocol.cpp\<close>, as functions of the host's byte order, and the
  proof that they pass. A test case yields the values of the expectations it evaluates; a
  failed \<open>ASSERT\<close> ends it.
\<close>

type_synonym test = "bool list cxx"

definition passes :: "test \<Rightarrow> bool" where
  "passes t = (case t of Inl _ \<Rightarrow> False | Inr bs \<Rightarrow> list_all (\<lambda>b. b) bs)"

definition assert_some :: "'a option \<Rightarrow> ('a \<Rightarrow> bool list) \<Rightarrow> bool list" where
  "assert_some x expectations = (case x of None \<Rightarrow> [False] | Some y \<Rightarrow> True # expectations y)"

lemma passes_simps [simp]: "passes (Inr bs) \<longleftrightarrow> list_all (\<lambda>b. b) bs" "\<not> passes (Inl a)"
  by (simp_all add: passes_def)

lemma assert_some_simps [simp]: "assert_some (Some x) f = True # f x" "assert_some None f = [False]"
  by (simp_all add: assert_some_def)

section \<open>The digest\<close>

text \<open>The published digests of \<open>""\<close> and \<open>"abc"\<close>.\<close>

definition expected1 :: bytes where
  "expected1 =
    [0xE3, 0xB0, 0xC4, 0x42, 0x98, 0xFC, 0x1C, 0x14, 0x9A, 0xFB, 0xF4, 0xC8, 0x99, 0x6F, 0xB9, 0x24,
     0x27, 0xAE, 0x41, 0xE4, 0x64, 0x9B, 0x93, 0x4C, 0xA4, 0x95, 0x99, 0x1B, 0x78, 0x52, 0xB8, 0x55]"

definition expected2 :: bytes where
  "expected2 =
    [0xBA, 0x78, 0x16, 0xBF, 0x8F, 0x01, 0xCF, 0xEA, 0x41, 0x41, 0x40, 0xDE, 0x5D, 0xAE, 0x22, 0x23,
     0xB0, 0x03, 0x61, 0xA3, 0x96, 0x17, 0x7A, 0x9C, 0xB4, 0x10, 0xFF, 0x61, 0xF2, 0x00, 0x15, 0xAD]"

definition Sha256TestVectors :: test where
  "Sha256TestVectors =
    andThen (Sha256 []) (\<lambda>hash1.
    andThen (Sha256 [0x61, 0x62, 0x63]) (\<lambda>hash2.
    Inr (map (\<lambda>i. hash1 ! i = expected1 ! i) [0..<32] @ map (\<lambda>i. hash2 ! i = expected2 ! i) [0..<32])))"

lemma digest_test: "passes Sha256TestVectors"
proof -
  have "Sha256 [] = Inr expected1" "Sha256 [0x61, 0x62, 0x63] = Inr expected2"
    using Sha256_test_vectors unfolding expected1_def expected2_def by blast+
  then show ?thesis by (simp add: Sha256TestVectors_def list_all_iff)
qed

section \<open>The formats\<close>

definition HeaderRoundTrip :: "endian \<Rightarrow> test" where
  "HeaderRoundTrip host =
    (let h = \<lparr>h_type = KEEP_ALIVE, h_flags = REAL_TIME_1, h_number = 123456, h_length = 789\<rparr>;
         bs = SerializeHeader host h
     in andThen (DeserializeHeader host bs) (\<lambda>resOpt.
       Inr ((length bs = 18) # assert_some resOpt (\<lambda>result.
         [h_type result = h_type h, h_flags result = h_flags h, h_number result = h_number h,
          h_length result = h_length h]))))"

text \<open>The second signature is \<open>"BADSIGN1"\<close>.\<close>

definition HeaderFailures :: "endian \<Rightarrow> test" where
  "HeaderFailures host =
    (let badSignBytes = [0x42, 0x41, 0x44, 0x53, 0x49, 0x47, 0x4E, 0x31] @ replicate 10 0
     in andThen (DeserializeHeader host [1, 2, 3]) (\<lambda>short.
        andThen (DeserializeHeader host badSignBytes) (\<lambda>bad.
        Inr [short = None, bad = None])))"

text \<open>\<open>"TestTerminal v1.2.3"\<close>.\<close>

definition VersionDataRoundTrip :: "endian \<Rightarrow> test" where
  "VersionDataRoundTrip host =
    (let v = \<lparr>v_dmrId = 268999, v_service = OPEN_TERMINAL, v_description =
           [0x54, 0x65, 0x73, 0x74, 0x54, 0x65, 0x72, 0x6D, 0x69, 0x6E, 0x61, 0x6C, 0x20, 0x76, 0x31,
            0x2E, 0x32, 0x2E, 0x33]\<rparr>;
         bs = SerializeVersionData host v
     in andThen (DeserializeVersionData host bs) (\<lambda>resOpt.
       Inr ((length bs = 5 + length (v_description v)) # assert_some resOpt (\<lambda>result.
         [v_dmrId result = v_dmrId v, v_service result = v_service v,
          v_description result = v_description v]))))"

definition SubscriptionDataRoundTrip :: "endian \<Rightarrow> test" where
  "SubscriptionDataRoundTrip host =
    (let sub = \<lparr>sub_type = 7, sub_number = 91\<rparr>;
         bs = SerializeSubscription host sub
     in andThen (DeserializeSubscription host bs) (\<lambda>resOpt.
       Inr ((length bs = 8) # assert_some resOpt (\<lambda>result.
         [sub_type result = sub_type sub, sub_number result = sub_number sub]))))"

text \<open>\<open>"Hello Brandmeister! "\<close>, the radio U+1F4FB, and \<open>" Testing 123"\<close>, in code points.\<close>

definition radio_text :: "nat list" where
  "radio_text = [0x48, 0x65, 0x6C, 0x6C, 0x6F, 0x20, 0x42, 0x72, 0x61, 0x6E, 0x64, 0x6D, 0x65, 0x69, 0x73,
     0x74, 0x65, 0x72, 0x21, 0x20, 0x1F4FB, 0x20, 0x54, 0x65, 0x73, 0x74, 0x69, 0x6E, 0x67, 0x20, 0x31,
     0x32, 0x33]"

definition TextMessageRoundTrip :: "endian \<Rightarrow> test" where
  "TextMessageRoundTrip host =
    (let textMsg = \<lparr>text_sourceId = 12345, text_destinationId = 91, text_isGroup = True,
           text_text = utf8_text radio_text\<rparr>
     in andThen (SerializeTextMessage host textMsg) (\<lambda>bs.
        andThen (DeserializeTextMessage host bs) (\<lambda>textOpt. Inr (assert_some textOpt (\<lambda>result.
          [text_sourceId result = text_sourceId textMsg,
           text_destinationId result = text_destinationId textMsg,
           text_isGroup result = text_isGroup textMsg, text_text result = text_text textMsg])))))"

text \<open>\<open>"$GPRMC,123519,A,4807.038,N,01131.000,E,022.4,084.4,230394,003.1,W*6A"\<close>.\<close>

definition position_text :: bytes where
  "position_text = [0x24, 0x47, 0x50, 0x52, 0x4D, 0x43, 0x2C, 0x31, 0x32, 0x33, 0x35, 0x31, 0x39, 0x2C,
     0x41, 0x2C, 0x34, 0x38, 0x30, 0x37, 0x2E, 0x30, 0x33, 0x38, 0x2C, 0x4E, 0x2C, 0x30, 0x31, 0x31, 0x33,
     0x31, 0x2E, 0x30, 0x30, 0x30, 0x2C, 0x45, 0x2C, 0x30, 0x32, 0x32, 0x2E, 0x34, 0x2C, 0x30, 0x38, 0x34,
     0x2E, 0x34, 0x2C, 0x32, 0x33, 0x30, 0x33, 0x39, 0x34, 0x2C, 0x30, 0x30, 0x33, 0x2E, 0x31, 0x2C, 0x57,
     0x2A, 0x36, 0x41]"

definition LocationReportRoundTrip :: "endian \<Rightarrow> test" where
  "LocationReportRoundTrip host =
    (let loc = \<lparr>loc_format = 0, loc_nmea = position_text\<rparr>;
         bs = SerializeLocationReport host loc
     in andThen (DeserializeLocationReport host bs) (\<lambda>resOpt.
       Inr (assert_some resOpt (\<lambda>result.
         [loc_format result = loc_format loc, loc_nmea result = loc_nmea loc]))))"

text \<open>They pass by the contracts of the formats.\<close>

lemma header_tests: "passes (HeaderRoundTrip host)" "passes (HeaderFailures host)"
proof -
  show "passes (HeaderRoundTrip host)"
    by (simp add: HeaderRoundTrip_def Let_def header.total.decode_encode header.length_encode)
  have "DeserializeHeader host [1, 2, 3] = Inr None" by (simp add: header.decode_short)
  moreover have "DeserializeHeader host ([0x42, 0x41, 0x44, 0x53, 0x49, 0x47, 0x4E, 0x31] @ replicate 10 0) = Inr None"
    by (simp add: DeserializeHeader_def read_bytes_def wire_simps SIGN_LENGTH_def PROTOCOL_SIGN_def)
  ultimately show "passes (HeaderFailures host)" by (simp add: HeaderFailures_def Let_def)
qed

lemma data_tests:
  "passes (VersionDataRoundTrip host)" "passes (SubscriptionDataRoundTrip host)"
  "passes (LocationReportRoundTrip host)"
proof -
  show "passes (VersionDataRoundTrip host)"
    by (simp add: VersionDataRoundTrip_def Let_def version.decode_encode) (simp add: wire_simps)
  show "passes (SubscriptionDataRoundTrip host)"
    by (simp add: SubscriptionDataRoundTrip_def Let_def subscription.total.decode_encode subscription.length_encode)
  have "0 \<notin> set position_text" "length position_text < 65535" by (simp_all add: position_text_def)
  then show "passes (LocationReportRoundTrip host)"
    by (simp add: LocationReportRoundTrip_def Let_def location.decode_encode)
qed

lemma text_test: "passes (TextMessageRoundTrip host)"
proof -
  have "sendable_text radio_text"
    by (simp add: radio_text_def sendable_text_def scalar_def utf16_text_def utf16_of_def)
  from TextMessage_sendable [OF this] show ?thesis
    by (simp add: TextMessageRoundTrip_def Let_def andThen_assoc [symmetric])
qed

end
