(* ===== verification/Handshake.thy ===== *)
theory Handshake
  imports Client_Traffic
begin

text \<open>
  Both ends of the handshake. The server is the \<open>MockServer\<close> of \<open>tests/test_client.cpp\<close>, the
  repository's description of what the client talks to; the network delivers what one side sent
  to the other, in order. The theory proves that the two complete the handshake exactly when
  the digests agree.
\<close>

section \<open>The server\<close>

record server =
  expectedPassword :: bytes
  server_salt :: bytes
  receivedVersionDmrId :: u32
  receivedPackets :: "bytes list"
  sentPackets :: "bytes list"
  receiving :: bool

definition MockServer :: "bytes \<Rightarrow> bytes \<Rightarrow> server" where
  "MockServer pw salt =
    \<lparr>expectedPassword = pw, server_salt = salt, receivedVersionDmrId = 0, receivedPackets = [],
     sentPackets = [], receiving = True\<rparr>"

definition SendPacket :: "endian \<Rightarrow> u16 \<Rightarrow> u16 \<Rightarrow> bytes \<Rightarrow> server \<Rightarrow> server" where
  "SendPacket host type flags payload s =
    (let h = \<lparr>h_type = type, h_flags = flags, h_number = 0, h_length = of_nat (length payload)\<rparr>;
         pkt = SerializeHeader host h;
         pkt = pkt @ payload
     in s\<lparr>sentPackets := sentPackets s @ [pkt]\<rparr>)"

definition ProcessIncoming :: "endian \<Rightarrow> bytes \<Rightarrow> server \<Rightarrow> server cxx" where
  "ProcessIncoming host pkt s =
    andThen (DeserializeHeader host pkt) (\<lambda>headerOpt.
    case headerOpt of
      None \<Rightarrow> Inr s
    | Some header \<Rightarrow>
         andThen (subspan pkt 18 (unat (h_length header))) (\<lambda>payload.
         if h_type header = KEEP_ALIVE \<and> h_length header > 0 then
           andThen (DeserializeVersionData host payload) (\<lambda>vOpt.
           case vOpt of
             None \<Rightarrow> Inr s
           | Some v \<Rightarrow>
               let s = s\<lparr>receivedVersionDmrId := v_dmrId v\<rparr>
               in Inr (SendPacket host CHALLENGE 0 (server_salt s) s))
         else if h_type header = AUTHENTICATION then
           andThen (Sha256 (server_salt s @ expectedPassword s)) (\<lambda>expectedDigest.
           let matches = (length payload = 32 \<and>
                 list_all (\<lambda>i. payload ! i = expectedDigest ! i) [0..<32])
           in Inr (if matches then SendPacket host KEEP_ALIVE 0 [] s else s))
         else Inr s))"

text \<open>The handler of the server's receive, whose buffer has 1024 bytes. It asks for the next
  datagram, except after an empty one.\<close>

definition server_receive :: "endian \<Rightarrow> bytes \<Rightarrow> server \<Rightarrow> server cxx" where
  "server_receive host data s =
    (if \<not> receiving s then Inr s
     else
       let pkt = take 1024 data
       in if pkt \<noteq> [] then
            ProcessIncoming host pkt (s\<lparr>receivedPackets := receivedPackets s @ [pkt]\<rparr>)
          else Inr (s\<lparr>receiving := False\<rparr>))"

section \<open>The network\<close>

text \<open>One exchange: the server gets what the client sent and it has not received yet, then the
  client gets the server's answers.\<close>

definition exchange :: "'ep env \<Rightarrow> endian \<Rightarrow> 'ep \<Rightarrow> 'ep client \<times> server \<Rightarrow> ('ep client \<times> server) cxx" where
  "exchange env shost ep = (\<lambda>(c, s).
    andThen (for_each (drop (length (receivedPackets s)) (datagrams (actions c)))
      (\<lambda>(p, _). server_receive shost p) s) (\<lambda>s'.
    andThen (run env (map (\<lambda>p. Received None p ep) (drop (length (sentPackets s)) (sentPackets s'))) c)
      (\<lambda>c'. Inr (c', s'))))"

definition handshake :: "'ep env \<Rightarrow> endian \<Rightarrow> 'ep \<Rightarrow> bytes \<Rightarrow> 'ep client \<Rightarrow> server \<Rightarrow>
    ('ep client \<times> server) cxx" where
  "handshake env shost ep pw c s =
    andThen (run env [ConnectCalled (\<lambda>_. None) [] 62031 pw 5000, Resolved None [ep] None None] c) (\<lambda>c.
    andThen (exchange env shost ep (c, s)) (exchange env shost ep))"

section \<open>Each side's steps\<close>

lemma SendPacket_sends:
  "SendPacket host t f p s = s\<lparr>sentPackets := sentPackets s @ [packet_bytes host
     \<lparr>h_type = t, h_flags = f, h_number = 0, h_length = of_nat (length p)\<rparr> p]\<rparr>"
  by (simp add: SendPacket_def packet_bytes_def)

lemma ProcessIncoming_split:
  "split_packet host pkt = Some (h, p) \<Longrightarrow> ProcessIncoming host pkt s =
    (if h_type h = KEEP_ALIVE \<and> h_length h > 0 then
       (case parsed (DeserializeVersionData host p) of
          None \<Rightarrow> Inr s
        | Some v \<Rightarrow> Inr (SendPacket host CHALLENGE 0 (server_salt s) (s\<lparr>receivedVersionDmrId := v_dmrId v\<rparr>)))
     else if h_type h = AUTHENTICATION then
       Inr (if p = sha256 (server_salt s @ expectedPassword s) then SendPacket host KEEP_ALIVE 0 [] s else s)
     else Inr s)"
proof -
  assume "split_packet host pkt = Some (h, p)"
  then have "DeserializeHeader host pkt = Inr (Some h)" "subspan pkt 18 (unat (h_length h)) = Inr p"
    by (auto simp: split_packet_def subspan_def split: option.splits if_splits)
  moreover have "length p = 32 \<and> list_all (\<lambda>i. p ! i = d ! i) [0..<32] \<longleftrightarrow> p = d"
    if "length d = 32" for d :: bytes
    using that by (auto simp: list_all_iff intro: nth_equalityI)
  ultimately show ?thesis
    using decoders_return(2) [of host p]
    by (auto simp: ProcessIncoming_def Sha256_digest length_sha256 Let_def split: option.split)
qed

lemma split_packet_bytes':
  "length p < 65536 \<Longrightarrow> split_packet host' (packet_bytes host
    \<lparr>h_type = t, h_flags = f, h_number = n, h_length = of_nat (length p)\<rparr> p) =
   Some (\<lparr>h_type = t, h_flags = f, h_number = n, h_length = of_nat (length p)\<rparr>, p)"
  by (simp add: split_packet_bytes unat_length_u16)

text \<open>The client has opened its socket and registered.\<close>

definition registration :: "'ep env \<Rightarrow> u32 \<Rightarrow> bytes \<Rightarrow> bytes" where
  "registration env d desc =
    SerializeVersionData (host_order env) \<lparr>v_dmrId = d, v_service = OPEN_TERMINAL, v_description = desc\<rparr>"

definition register_packet :: "'ep env \<Rightarrow> u32 \<Rightarrow> u32 \<Rightarrow> bytes \<Rightarrow> bytes" where
  "register_packet env n d desc =
    packet_bytes (host_order env) \<lparr>h_type = KEEP_ALIVE, h_flags = NONE, h_number = n,
      h_length = of_nat (length (registration env d desc))\<rparr> (registration env d desc)"

definition waits_for_challenge :: "'ep \<Rightarrow> bytes \<Rightarrow> 'ep client \<Rightarrow> bool" where
  "waits_for_challenge ep pw c \<longleftrightarrow> c_state c = CONNECTING \<and> socket_open c \<and> c_serverEndpoint c = ep \<and>
    c_password c = pw \<and> length (c_receiveBuffer c) = 1024"

lemma registers:
  obtains c1 where "run env [ConnectCalled (\<lambda>_. None) host port pw ms, Resolved None [ep] None None]
      (new_client d desc ep0 hks) = Inr c1"
    "waits_for_challenge ep pw c1"
    "datagrams (actions c1) = [(register_packet env 0 d desc, ep)]" "c_routineSeq c1 = 1"
  by (simp add: Connect_def new_client_def on_resolve_def StartReceiveLoop_def SendKeepAlive_def Let_def
      waits_for_challenge_def next_packet_def next_header_def registration_def register_packet_def
      TransmitRaw_open(3))

lemma server_registers:
  assumes "length desc \<le> 1001" "receiving s"
  shows "server_receive shost (register_packet env n d desc) s =
    Inr (SendPacket shost CHALLENGE 0 (server_salt s) (s\<lparr>receivedPackets := receivedPackets s @
      [register_packet env n d desc], receivedVersionDmrId := d\<rparr>))"
proof -
  let ?p = "registration env d desc" and ?pkt = "register_packet env n d desc"
  have len: "length ?p = length desc + 5" by (simp add: registration_def wire_simps)
  then have "length ?pkt = length desc + 23" by (simp add: register_packet_def)
  then have pkt: "take 1024 ?pkt = ?pkt" "?pkt \<noteq> []" using assms(1) by auto
  have "unat (of_nat (length ?p) :: u16) \<noteq> 0"
    using len assms by (subst unat_length_u16) simp_all
  then have pos: "0 < (of_nat (length ?p) :: u16)" by (simp only: word_less_nat_alt unat_0 neq0_conv)
  obtain v where v: "DeserializeVersionData shost ?p = Inr (Some v)" "v_dmrId v = d"
    by (simp add: registration_def VersionData_serialized)
  have "split_packet shost ?pkt = Some (\<lparr>h_type = KEEP_ALIVE, h_flags = NONE, h_number = n,
      h_length = of_nat (length ?p)\<rparr>, ?p)"
    unfolding register_packet_def using len assms by (intro split_packet_bytes') simp
  from ProcessIncoming_split [OF this] pos v
  have "ProcessIncoming shost ?pkt s' =
      Inr (SendPacket shost CHALLENGE 0 (server_salt s') (s'\<lparr>receivedVersionDmrId := d\<rparr>))" for s'
    by (simp del: of_nat_add)
  with pkt assms(2) show ?thesis by (simp add: server_receive_def)
qed

text \<open>The challenge and its answer.\<close>

definition challenge_of :: "endian \<Rightarrow> bytes \<Rightarrow> bytes" where
  "challenge_of shost salt =
    packet_bytes shost \<lparr>h_type = CHALLENGE, h_flags = 0, h_number = 0, h_length = of_nat (length salt)\<rparr> salt"

definition accept_of :: "endian \<Rightarrow> bytes" where
  "accept_of shost = packet_bytes shost \<lparr>h_type = KEEP_ALIVE, h_flags = 0, h_number = 0, h_length = 0\<rparr> []"

definition answer_packet :: "'ep env \<Rightarrow> u32 \<Rightarrow> bytes \<Rightarrow> bytes" where
  "answer_packet env n digest = packet_bytes (host_order env)
     \<lparr>h_type = AUTHENTICATION, h_flags = NONE, h_number = n, h_length = of_nat (length digest)\<rparr> digest"

lemma client_answers:
  assumes "waits_for_challenge ep pw c" "length salt \<le> 1006"
  obtains c' auth where "exec env (Received None (challenge_of shost salt) ep) c = Inr c'"
    "c_state c' = AUTHENTICATING" "socket_open c'" "c_serverEndpoint c' = ep"
    "length (c_receiveBuffer c') = 1024"
    "datagrams (actions c') = datagrams (actions c) @ [(auth, ep)]"
    "length auth = 50"
    "split_packet shost auth = Some (\<lparr>h_type = AUTHENTICATION, h_flags = NONE,
       h_number = c_routineSeq c, h_length = 32\<rparr>, sha256 (salt @ pw))"
    "auth = answer_packet env (c_routineSeq c) (sha256 (salt @ pw))" "c_routineSeq c' = c_routineSeq c + 1"
proof -
  let ?chal = "challenge_of shost salt"
  have "length ?chal = length salt + 18" by (simp add: challenge_of_def)
  then have fits: "fits c ?chal = ?chal" using assms by (simp add: fits_def waits_for_challenge_def)
  have "split_packet (host_order env) ?chal = Some (\<lparr>h_type = CHALLENGE, h_flags = 0, h_number = 0,
      h_length = of_nat (length salt)\<rparr>, salt)"
    unfolding challenge_of_def using assms(2) by (intro split_packet_bytes') simp
  with fits assms(1) have reply: "exec env (Received None ?chal ep) c =
    Inr (act ReceiveFrom (TransmitRaw env AUTHENTICATION NONE (sha256 (salt @ pw))
      ((arrive ?chal ep c)\<lparr>c_state := AUTHENTICATING\<rparr>)))"
    by (subst challenge_reply) (auto simp: waits_for_challenge_def)
  show thesis
    by (rule that [OF reply, of "next_packet env AUTHENTICATION NONE (sha256 (salt @ pw))
        ((arrive ?chal ep c)\<lparr>c_state := AUTHENTICATING\<rparr>)"])
      (use assms(1) in \<open>simp_all add: waits_for_challenge_def split_packet_bytes length_sha256
        next_header_def next_packet_def answer_packet_def TransmitRaw_open(3)\<close>)
qed

lemma server_checks:
  assumes "split_packet shost auth = Some (h, digest)" "h_type h = AUTHENTICATION" "length auth = 50"
    and "receiving s"
  shows "server_receive shost auth s = Inr
    (let s' = s\<lparr>receivedPackets := receivedPackets s @ [auth]\<rparr>
     in if digest = sha256 (server_salt s @ expectedPassword s)
        then s'\<lparr>sentPackets := sentPackets s @ [accept_of shost]\<rparr> else s')"
proof -
  have "take 1024 auth = auth" "auth \<noteq> []" using assms(3) by auto
  moreover have "AUTHENTICATION \<noteq> KEEP_ALIVE" by (simp add: message_type_defs)
  ultimately show ?thesis
    using assms by (simp add: server_receive_def ProcessIncoming_split SendPacket_sends accept_of_def Let_def)
qed

lemma client_accepts:
  assumes "c_state c = AUTHENTICATING" "c_serverEndpoint c = ep" "length (c_receiveBuffer c) = 1024"
  obtains c' where "exec env (Received None (accept_of shost) ep) c = Inr c'" "c_state c' = CONNECTED"
    "socket_open c' = socket_open c" "c_serverEndpoint c' = ep" "c_routineSeq c' = c_routineSeq c"
    "datagrams (actions c') = datagrams (actions c)"
proof -
  let ?acc = "accept_of shost"
  have "length ?acc = 18" by (simp add: accept_of_def)
  then have fits: "fits c ?acc = ?acc" "?acc \<noteq> []" using assms(3) by (auto simp: fits_def)
  have "split_packet (host_order env) ?acc = Some (\<lparr>h_type = KEEP_ALIVE, h_flags = 0, h_number = 0,
      h_length = 0\<rparr>, [])"
    unfolding accept_of_def by (intro split_packet_bytes) simp
  with fits assms(1,2) have "exec env (Received None ?acc ep) c =
      Inr (StartReceiveLoop (handle_keep_alive 0 (arrive ?acc ep c)))"
    by (simp add: exec_Received processed_accept del: exec.simps)
  then show thesis
    by (rule that) (use assms(1,2) in \<open>simp_all add: handle_keep_alive_def StartReceiveLoop_def
      StartKeepAliveTimer_def Let_def\<close>)
qed

section \<open>The handshake\<close>

text \<open>Two exchanges take a registered client and a new server to the end of the login.\<close>

lemma login_exchanges:
  assumes "length desc \<le> 1001" "length salt \<le> 1006"
    and "waits_for_challenge ep pw c1" "datagrams (actions c1) = [(register_packet env 0 d desc, ep)]"
  obtains c2 s1 c3 s2 auth where "exchange env shost ep (c1, MockServer expected salt) = Inr (c2, s1)"
    "exchange env shost ep (c2, s1) = Inr (c3, s2)" "receivedVersionDmrId s2 = d"
    "receivedPackets s2 = map fst (datagrams (actions c3))" "datagrams (actions c3) = [(register_packet env 0 d desc, ep), (auth, ep)]" "length auth = 50"
    "server_salt s2 = salt" "expectedPassword s2 = expected" "receiving s2"
    "socket_open c3" "c_serverEndpoint c3 = ep"
    "c_routineSeq c3 = c_routineSeq c1 + 1"
    "if sha256 (salt @ pw) = sha256 (salt @ expected) then c_state c3 = CONNECTED
     else c_state c3 = AUTHENTICATING"
proof -
  let ?s0 = "MockServer expected salt" and ?reg = "register_packet env 0 d desc"
  define s1 where "s1 = SendPacket shost CHALLENGE 0 salt (?s0\<lparr>receivedPackets := [?reg], receivedVersionDmrId := d\<rparr>)"
  have s1: "server_receive shost ?reg ?s0 = Inr s1" "sentPackets s1 = [challenge_of shost salt]"
    "receivedPackets s1 = [?reg]" "receivedVersionDmrId s1 = d" "server_salt s1 = salt"
    "expectedPassword s1 = expected" "receiving s1"
    using server_registers [OF assms(1), of ?s0 shost env 0 d]
    by (simp_all add: s1_def MockServer_def SendPacket_sends challenge_of_def)
  obtain c2 auth where c2: "exec env (Received None (challenge_of shost salt) ep) c1 = Inr c2"
    "c_state c2 = AUTHENTICATING" "socket_open c2" "c_serverEndpoint c2 = ep"
    "length (c_receiveBuffer c2) = 1024" "datagrams (actions c2) = [(?reg, ep), (auth, ep)]"
    "length auth = 50" "split_packet shost auth = Some (\<lparr>h_type = AUTHENTICATION, h_flags = NONE,
       h_number = c_routineSeq c1, h_length = 32\<rparr>, sha256 (salt @ pw))"
      "auth = answer_packet env (c_routineSeq c1) (sha256 (salt @ pw))" "c_routineSeq c2 = c_routineSeq c1 + 1"
    by (rule client_answers [OF assms(3,2), of env shost]) (simp add: assms(4))
  have ex1: "exchange env shost ep (c1, ?s0) = Inr (c2, s1)"
    using s1 assms(4) c2(1) by (simp add: exchange_def MockServer_def del: exec.simps)
  define agree where "agree \<longleftrightarrow> sha256 (salt @ pw) = sha256 (salt @ expected)"
  define s2 where "s2 = (let s' = s1\<lparr>receivedPackets := receivedPackets s1 @ [auth]\<rparr>
     in if agree then s'\<lparr>sentPackets := sentPackets s1 @ [accept_of shost]\<rparr> else s')"
  have s2: "server_receive shost auth s1 = Inr s2"
    using server_checks [OF c2(8) _ c2(7), of s1] s1 by (simp add: s2_def agree_def)
  obtain c3 where c3: "exec env (Received None (accept_of shost) ep) c2 = Inr c3" "c_state c3 = CONNECTED"
      "socket_open c3 = socket_open c2" "c_serverEndpoint c3 = ep" "c_routineSeq c3 = c_routineSeq c2"
      "datagrams (actions c3) = datagrams (actions c2)"
    by (rule client_accepts [OF c2(2,4,5)])
  have ex2: "exchange env shost ep (c2, s1) = Inr (if agree then c3 else c2, s2)"
    using s1(2,3) c2(6) s2 c3(1) by (simp add: exchange_def s2_def Let_def del: exec.simps)
  show thesis
    by (rule that [OF ex1 ex2]) (use s1 c2 c3 in \<open>simp_all add: s2_def Let_def agree_def\<close>)
qed

lemma handshake_result:
  assumes "length desc \<le> 1001" "length salt \<le> 1006"
  shows "\<exists>c s. handshake env shost ep pw (new_client d desc ep0 hks) (MockServer expected salt) = Inr (c, s) \<and>
    receivedVersionDmrId s = d \<and> length (receivedPackets s) = 2 \<and>
    (if sha256 (salt @ pw) = sha256 (salt @ expected)
     then c_state c = CONNECTED
     else c_state c = AUTHENTICATING)"
proof -
  obtain c1 where c1: "run env [ConnectCalled (\<lambda>_. None) [] 62031 pw 5000, Resolved None [ep] None None]
      (new_client d desc ep0 hks) = Inr c1" "waits_for_challenge ep pw c1"
      "datagrams (actions c1) = [(register_packet env 0 d desc, ep)]" "c_routineSeq c1 = 1"
    by (rule registers)
  show ?thesis
    by (rule login_exchanges [OF assms c1(2,3), of shost expected])
      (auto simp: handshake_def c1(1) simp del: run_simps)
qed

section \<open>Properties\<close>

text \<open>C4. The client and the server of the tests complete the handshake exactly when the digests
  of the salt with their passwords agree, in particular with equal passwords: after two exchanges
  the client is connected, otherwise it is still authenticating; in both cases the server knows
  the client's id. The description and the salt have to fit into the 1024 bytes of the buffers.\<close>

theorem Handshake_completes:
  assumes "length desc \<le> 1001" and "length salt \<le> 1006"
  shows "\<exists>c s. handshake env shost ep pw (new_client d desc ep0 hks) (MockServer expected salt) = Inr (c, s) \<and>
    receivedVersionDmrId s = d \<and> length (receivedPackets s) = 2 \<and>
    (if sha256 (salt @ pw) = sha256 (salt @ expected)
     then c_state c = CONNECTED
     else c_state c = AUTHENTICATING)"
  using assms by (rule handshake_result)

theorem Handshake_completes_witness:
  "\<exists>c s. handshake calm Big 7 [0x70, 0x77] (new_client 268999 [0x55] 0 (\<lambda>_. True))
     (MockServer [0x70, 0x77] [0x73, 0x61, 0x6C, 0x74]) = Inr (c, s) \<and> c_state c = CONNECTED"
  using Handshake_completes [of "[0x55]" "[0x73, 0x61, 0x6C, 0x74]" calm Big 7 "[0x70, 0x77]"
      268999 0 "\<lambda>_. True" "[0x70, 0x77]"] by auto

text \<open>C35. A client whose password the server does not accept is told of a timeout, never of a
  wrong password: when the connection timer of a client without write errors expires, the
  session ends with \<open>RESPONSE_TIMEOUT\<close>, and \<open>ConnectSync\<close> returns that.\<close>

theorem Rejected_client_times_out:
  assumes "c_state c = AUTHENTICATING" "\<And>n p ep. send_to env n p ep = None"
  shows "\<exists>c'. exec env (ConnectTimeout None) c = Inr c' \<and> c_lastError c' = RESPONSE_TIMEOUT \<and>
    NotifyAll \<in> set (emitted c c') \<and> wait_connected [c, c'] = Some RESPONSE_TIMEOUT"
proof -
  have "loud c (on_connect_timeout env None c)"
    using assms by (intro on_connect_timeout_loud) (simp_all add: aborted_def)
  moreover have "c_lastError (on_connect_timeout env None c) = RESPONSE_TIMEOUT"
    "c_state (on_connect_timeout env None c) = DISCONNECTED"
    using assms by (simp_all add: on_connect_timeout_def aborted_def Disconnect_def Let_def
        StopKeepAliveTimer_def on_connect_timeout_state TransmitRaw_open TransmitRaw_closed send_result_def)
  ultimately show ?thesis using assms(1) by (simp add: loud_emitted)
qed

theorem Rejected_client_times_out_witness:
  "\<exists>c'. exec calm (ConnectTimeout None) challenged = Inr c' \<and> c_lastError c' = RESPONSE_TIMEOUT"
  using Rejected_client_times_out [OF challenged_run(2), of calm] by (auto simp: calm_def)

end
