(* ===== verification/Client_Output.thy ===== *)
theory Client_Output
  imports Client_Session
begin

text \<open>
  What the client puts out. Every datagram of every run has one of ten types, each with its own
  flag and its own form of payload; and the hooks \<open>onConnected\<close> and \<open>onDisconnected\<close> tell the
  application of every beginning and every end of a session, once.
\<close>

section \<open>The types of packets\<close>

text \<open>The packets a client of a given id and description may send: type, flag and payload.\<close>

inductive outgoing :: "endian \<Rightarrow> u32 \<Rightarrow> bytes \<Rightarrow> u16 \<Rightarrow> u16 \<Rightarrow> bytes \<Rightarrow> bool" for host dmrId description where
  registration: "outgoing host dmrId description KEEP_ALIVE NONE (SerializeVersionData host
    \<lparr>v_dmrId = dmrId, v_service = OPEN_TERMINAL, v_description = description\<rparr>)"
| closing: "outgoing host dmrId description CLOSE NONE []"
| authentication: "length digest = 32 \<Longrightarrow> outgoing host dmrId description AUTHENTICATION NONE digest"
| subscription: "outgoing host dmrId description SUBSCRIPTION NONE (SerializeSubscription host
    \<lparr>sub_type = SESSION_TYPE_GROUP_VOICE, sub_number = talkgroup\<rparr>)"
| cancelling: "outgoing host dmrId description CANCELLING NONE (SerializeSubscription host
    \<lparr>sub_type = SESSION_TYPE_GROUP_VOICE, sub_number = talkgroup\<rparr>)"
| voice_header: "outgoing host dmrId description (DMR_DATA_BASE + 1) REAL_TIME_1 (voice_header source destination g)"
| audio: "outgoing host dmrId description DMR_AUDIO_FRAME REAL_TIME_1 ambe"
| terminator: "outgoing host dmrId description (DMR_DATA_BASE + 2) REAL_TIME_1 []"
| message: "SerializeTextMessage host \<lparr>text_sourceId = dmrId, text_destinationId = destination,
    text_isGroup = g, text_text = msg\<rparr> = Inr payload \<Longrightarrow>
    outgoing host dmrId description MESSAGE_TEXT NONE payload"
| location: "outgoing host dmrId description LOCATION_REPORT NONE (SerializeLocationReport host
    \<lparr>loc_format = 0, loc_nmea = nmea\<rparr>)"

inductive_simps outgoing_keep_alive: "outgoing host dmrId description KEEP_ALIVE flag payload"

text \<open>A datagram that is such a packet, under some number.\<close>

definition typed_datagram :: "endian \<Rightarrow> u32 \<Rightarrow> bytes \<Rightarrow> bytes \<Rightarrow> bool" where
  "typed_datagram host dmrId description p \<longleftrightarrow>
    (\<exists>type flag number payload. outgoing host dmrId description type flag payload \<and>
      p = packet_bytes host \<lparr>h_type = type, h_flags = flag, h_number = number,
        h_length = of_nat (length payload)\<rparr> payload)"

section \<open>Invariants of what is sent\<close>

text \<open>The contract of a property that only looks at the client's identity, hooks and actions, and
  that a send of a typed packet, a hook call and a request to Asio keep: every event keeps it.\<close>

locale transmitter =
  fixes env :: "'ep env" and kept :: "'ep client \<Rightarrow> bool"
  assumes kept_cong: "kept c \<Longrightarrow> c_dmrId c' = c_dmrId c \<Longrightarrow> c_description c' = c_description c \<Longrightarrow>
      hooks c' = hooks c \<Longrightarrow> actions c' = actions c \<Longrightarrow> kept c'"
    and kept_act: "kept c \<Longrightarrow> datagrams [a] = [] \<Longrightarrow> kept (act a c)"
    and kept_send: "kept c \<Longrightarrow> outgoing (host_order env) (c_dmrId c) (c_description c) t f p \<Longrightarrow>
      kept (act (SendTo (next_packet env t f p c) ep) c)"
begin

lemma kept_updates:
  assumes "kept c"
  shows "kept (c\<lparr>c_state := st\<rparr>)" "kept (c\<lparr>c_password := pw\<rparr>)" "kept (c\<lparr>c_connectionMutex := b\<rparr>)"
    "kept (c\<lparr>c_lastError := e\<rparr>)" "kept (c\<lparr>c_routineSeq := n\<rparr>)" "kept (c\<lparr>c_realTimeSeq := n\<rparr>)"
    "kept (c\<lparr>c_inCall := b\<rparr>)" "kept (c\<lparr>socket_open := b\<rparr>)" "kept (c\<lparr>c_serverEndpoint := ep\<rparr>)"
    "kept (c\<lparr>ioThread_joinable := b\<rparr>)" "kept (arrive data sender c)"
  by (rule kept_cong [OF assms]; simp)+

lemma kept_call: "kept c \<Longrightarrow> kept (call h cb c)"
  by (simp add: call_def kept_act)

lemma kept_TransmitRaw:
  assumes "kept c" "outgoing (host_order env) (c_dmrId c) (c_description c) t f p"
  shows "kept (TransmitRaw env t f p c)"
proof (cases "socket_open c")
  case True
  let ?c1 = "act (SendTo (next_packet env t f p c) (c_serverEndpoint c)) c"
  have sent: "kept ?c1" using assms by (rule kept_send)
  then have report: "kept (act (Called cb m w) ?c1)" for cb m w by (rule kept_act) simp
  show ?thesis
  proof (cases "send_result env t f p c")
    case None
    with True show ?thesis by (intro kept_cong [OF sent]) (simp_all add: TransmitRaw_open)
  next
    case (Some e)
    show ?thesis
    proof (cases "hooks c onError")
      case True
      with Some \<open>socket_open c\<close> show ?thesis
        by (intro kept_cong [OF report]) (simp_all add: TransmitRaw_open)
    next
      case False
      with Some \<open>socket_open c\<close> show ?thesis
        by (intro kept_cong [OF sent]) (simp_all add: TransmitRaw_open)
    qed
  qed
qed (simp add: TransmitRaw_closed assms)

lemmas kept_steps = kept_updates kept_act kept_call kept_TransmitRaw outgoing.intros

lemma kept_helpers:
  assumes "kept c"
  shows "kept (SendKeepAlive env c)" "kept (StartKeepAliveTimer c)" "kept (StartReceiveLoop c)"
    "kept (Disconnect env t c)" "kept (resolve_failed env e m c)"
proof -
  have disconnect: "kept (Disconnect env t c)" if "kept c" for t c
    using that by (auto simp: Disconnect_def StopKeepAliveTimer_def Let_def intro!: kept_steps)
  then show "kept (Disconnect env t c)" using assms .
  show "kept (SendKeepAlive env c)" "kept (StartKeepAliveTimer c)" "kept (StartReceiveLoop c)"
    "kept (resolve_failed env e m c)"
    using assms
    by (auto simp: SendKeepAlive_def StartKeepAliveTimer_def StartReceiveLoop_def resolve_failed_def Let_def
        intro!: kept_steps disconnect)
qed

lemma kept_handlers:
  assumes "kept c"
  shows "kept (on_resolve env ec eps openEc bindEc c)" "kept (on_connect_timeout env ec c)"
    "kept (on_keep_alive env ec c)" "kept (handle_keep_alive n c)"
  using assms
  by (auto simp: on_resolve_def on_connect_timeout_def on_keep_alive_def handle_keep_alive_def Let_def
      split: option.split list.split intro!: kept_helpers kept_updates kept_act kept_call)

lemma kept_requests:
  assumes "kept c"
  shows "kept (Subscribe env tg c)" "kept (Unsubscribe env tg c)" "kept (StartVoiceCall env src dest g c)"
    "kept (SendAudioFrame env ambe c)" "kept (EndVoiceCall env c)" "kept (SendLocationReport env nmea c)"
    "SendTextMessage env d g msg c = Inr c' \<Longrightarrow> kept c'"
  using assms
  by (auto simp: Subscribe_def Unsubscribe_def StartVoiceCall_def SendAudioFrame_def EndVoiceCall_def
      SendLocationReport_def SendTextMessage_def andThen_eq_Inr Let_def intro!: kept_steps split: if_splits)

lemma kept_Connect: "kept c \<Longrightarrow> Connect throws h port pw ms c = Inr (r, c') \<Longrightarrow> kept c'"
proof -
  assume c: "kept c" "Connect throws h port pw ms c = Inr (r, c')"
  then have "kept (act IoRestart (c\<lparr>c_connectionMutex := True, c_password := pw, c_routineSeq := 0,
      c_realTimeSeq := 0, c_inCall := False, c_lastError := SUCCESS\<rparr>))"
    by (intro kept_act kept_updates) simp_all
  with c show ?thesis
    by (auto simp: Connect_def startup_failed_def Let_def split: if_splits option.splits
        intro!: kept_updates kept_act kept_call)
qed

lemma kept_processed:
  assumes "kept c"
  shows "kept (processed env packet c)"
proof (cases "split_packet (host_order env) packet")
  case (Some hp)
  then obtain h p where hp: "processed env packet c = dispatched env h p c"
    by (cases hp) (simp add: processed_def)
  consider "h_type h = CHALLENGE" | "h_type h = KEEP_ALIVE" | "hook_only c (dispatched env h p c)"
    using dispatched_other by blast
  then show ?thesis using assms
    by cases (auto simp: hp dispatched_simps hook_only_def length_sha256
        intro!: kept_TransmitRaw kept_updates kept_call kept_handlers outgoing.authentication)
qed (simp add: processed_def assms)

lemma kept_exec:
  assumes "kept c" "exec env e c = Inr c'"
  shows "kept c'"
proof (cases e)
  case (ConnectCalled throws host port pw ms)
  with assms show ?thesis by (auto simp: andThen_eq_Inr dest: kept_Connect)
next
  case (Received ec data sender)
  with assms show ?thesis
    by (auto simp: exec_Received Let_def simp del: exec.simps split: if_splits option.splits
        intro!: kept_helpers kept_processed kept_updates kept_call)
qed (use assms kept_requests in \<open>auto intro!: kept_helpers kept_handlers\<close>)

end

section \<open>Who the client is\<close>

interpretation identity: transmitter env "\<lambda>c. c_dmrId c = dmrId \<and> c_description c = description \<and> hooks c = hks"
  for env dmrId description hks
  by unfold_locales simp_all

lemma hooks_exec: "exec env e c = Inr c' \<Longrightarrow> hooks c' = hooks c"
  using identity.kept_exec [of c "c_dmrId c" "c_description c" "hooks c"] by blast

section \<open>Every datagram has a type\<close>

definition typed :: "'ep env \<Rightarrow> 'ep client \<Rightarrow> bool" where
  "typed env c \<longleftrightarrow>
    list_all (\<lambda>(p, ep). typed_datagram (host_order env) (c_dmrId c) (c_description c) p) (datagrams (actions c))"

interpretation typed: transmitter env "typed env" for env
proof
  fix c t f p ep
  assume c: "typed env c" and "outgoing (host_order env) (c_dmrId c) (c_description c) t f p"
  then have "typed_datagram (host_order env) (c_dmrId c) (c_description c) (next_packet env t f p c)"
    by (auto simp: typed_datagram_def next_packet_def next_header_def)
  with c show "typed env (act (SendTo (next_packet env t f p c) ep) c)"
    by (simp add: typed_def)
qed (auto simp: typed_def)

lemma typed_reachable: "reachable env c \<Longrightarrow> typed env c"
proof (induction rule: reachable.induct)
  case (event c e c')
  then show ?case using typed.kept_exec by blast
qed (simp add: typed_def new_client_def)

section \<open>The beginnings and ends the application is told of\<close>

text \<open>\<open>True\<close> for a call of \<open>onConnected\<close>, \<open>False\<close> for one of \<open>onDisconnected\<close>.\<close>

fun announcement :: "callback \<Rightarrow> bool list" where
  "announcement OnConnected = [True]"
| "announcement (OnDisconnected e) = [False]"
| "announcement _ = []"

fun announcements :: "'ep action list \<Rightarrow> bool list" where
  "announcements [] = []"
| "announcements (Called cb connection write # as) = announcement cb @ announcements as"
| "announcements (_ # as) = announcements as"

lemma announcements_append [simp]: "announcements (as @ bs) = announcements as @ announcements bs"
  by (induction as rule: announcements.induct) simp_all

definition told :: "'ep client \<Rightarrow> bool list" where
  "told c = announcements (actions c)"

lemma told_updates [simp]:
  "told (c\<lparr>c_state := st\<rparr>) = told c" "told (c\<lparr>c_password := pw\<rparr>) = told c"
  "told (c\<lparr>c_connectionMutex := b\<rparr>) = told c" "told (c\<lparr>c_lastError := e\<rparr>) = told c"
  "told (c\<lparr>c_routineSeq := n\<rparr>) = told c" "told (c\<lparr>c_realTimeSeq := n\<rparr>) = told c"
  "told (c\<lparr>c_inCall := b\<rparr>) = told c" "told (c\<lparr>socket_open := b\<rparr>) = told c"
  "told (c\<lparr>c_serverEndpoint := ep\<rparr>) = told c" "told (c\<lparr>ioThread_joinable := b\<rparr>) = told c"
  "told (arrive data sender c) = told c" "told (act a c) = told c @ announcements [a]"
  "told (call h cb c) = told c @ (if hooks c h then announcement cb else [])"
  by (simp_all add: told_def called_def)

lemma told_TransmitRaw [simp]: "told (TransmitRaw env t f p c) = told c"
  by (cases "socket_open c")
    (auto simp: told_def TransmitRaw_open TransmitRaw_closed split: option.split)

text \<open>What is announced when the session goes from one state to another.\<close>

definition change :: "(hook \<Rightarrow> bool) \<Rightarrow> State \<Rightarrow> State \<Rightarrow> bool list" where
  "change hks st st' =
    (if hks onConnected \<and> st \<noteq> CONNECTED \<and> st' = CONNECTED then [True]
     else if hks onDisconnected \<and> st \<noteq> DISCONNECTED \<and> st' = DISCONNECTED then [False] else [])"

lemma change_same [simp]: "change hks st st = []"
  by (simp add: change_def)

lemma told_helpers [simp]:
  "told (SendKeepAlive env c) = told c" "told (StartKeepAliveTimer c) = told c"
  "told (StartReceiveLoop c) = told c" "told (StopKeepAliveTimer c) = told c"
  "told (Disconnect env t c) = told c @ change (hooks c) (c_state c) DISCONNECTED"
  "told (resolve_failed env e m c) = told c @ change (hooks c) (c_state c) DISCONNECTED"
  by (auto simp: SendKeepAlive_def StartKeepAliveTimer_def StartReceiveLoop_def StopKeepAliveTimer_def
      Disconnect_def resolve_failed_def change_def Let_def)

lemma told_handlers:
  "told (on_resolve env ec eps openEc bindEc c) =
    told c @ change (hooks c) (c_state c) (c_state (on_resolve env ec eps openEc bindEc c))"
  "told (on_connect_timeout env ec c) =
    told c @ change (hooks c) (c_state c) (c_state (on_connect_timeout env ec c))"
  "told (on_keep_alive env ec c) = told c"
  "told (handle_keep_alive n c) = told c @ change (hooks c) (c_state c) (c_state (handle_keep_alive n c))"
  by (auto simp: on_resolve_def on_connect_timeout_def on_keep_alive_def handle_keep_alive_def Let_def
      change_def StartKeepAliveTimer_def split: option.split list.split)

lemma told_requests [simp]:
  "told (Subscribe env tg c) = told c" "told (Unsubscribe env tg c) = told c"
  "told (StartVoiceCall env src dest g c) = told c" "told (SendAudioFrame env ambe c) = told c"
  "told (EndVoiceCall env c) = told c" "told (SendLocationReport env nmea c) = told c"
  by (simp_all add: Subscribe_def Unsubscribe_def StartVoiceCall_def SendAudioFrame_def EndVoiceCall_def
      SendLocationReport_def Let_def)

lemma told_Connect:
  "Connect throws h port pw ms c = Inr (r, c') \<Longrightarrow> told c' = told c @ change (hooks c) (c_state c) (c_state c')"
  by (auto simp: Connect_def startup_failed_def change_def Let_def split: if_splits option.splits)

text \<open>A packet is announced by its handler only; the other cases of the switch call other hooks.\<close>

lemma told_dispatched:
  "told (dispatched env h p c) = told c @ change (hooks c) (c_state c) (c_state (dispatched env h p c))"
proof -
  consider (challenge) "h_type h = CHALLENGE" | (keep_alive) "h_type h = KEEP_ALIVE"
    | (other) "h_type h \<noteq> CHALLENGE" "h_type h \<noteq> KEEP_ALIVE" by blast
  then show ?thesis
  proof cases
    case other
    then have "told (dispatched env h p c) = told c"
      by (simp add: dispatched_def dispatch_def handle_text_total handle_reports_total handle_default_def
          handle_voice_header_total Let_def split: option.split prod.split)
    moreover have "c_state (dispatched env h p c) = c_state c"
      using dispatched_other [OF other, of c env p] by (auto simp: hook_only_def)
    ultimately show ?thesis by simp
  qed (auto simp: dispatched_simps told_handlers change_def)
qed

lemma told_processed:
  "told (processed env packet c) = told c @ change (hooks c) (c_state c) (c_state (processed env packet c))"
  by (auto simp: processed_def told_dispatched split: option.split)

text \<open>Every event announces exactly what it does to the session.\<close>

lemma told_exec:
  assumes "exec env e c = Inr c'"
  shows "told c' = told c @ change (hooks c) (c_state c) (c_state c')"
proof (cases e)
  case (ConnectCalled throws host port pw ms)
  with assms show ?thesis by (auto simp: andThen_eq_Inr dest: told_Connect)
next
  case (SendTextMessageCalled dest g msg)
  with assms SendTextMessage_result [of env dest g msg c c'] show ?thesis by auto
next
  case (Received ec data sender)
  with assms show ?thesis
    by (auto simp: exec_Received Let_def told_processed simp del: exec.simps split: if_splits option.splits)
qed (use assms in \<open>auto simp: told_handlers\<close>)

text \<open>With both hooks set, the last announcement is the state of the session, and no beginning is
  announced twice.\<close>

definition informed :: "'ep client \<Rightarrow> bool" where
  "informed c \<longleftrightarrow> (c_state c = CONNECTED \<longleftrightarrow> told c \<noteq> [] \<and> last (told c)) \<and>
    successively (\<lambda>before after. \<not> (before \<and> after)) (told c)"

lemma informed_exec:
  assumes "informed c" "hooks c onConnected" "hooks c onDisconnected" "exec env e c = Inr c'"
  shows "informed c'"
proof -
  have "told c' = told c @ change (hooks c) (c_state c) (c_state c')"
    using assms(4) by (rule told_exec)
  moreover have "c_state c = CONNECTED \<Longrightarrow> c_state c' \<noteq> CONNECTED \<Longrightarrow> c_state c' = DISCONNECTED"
    using session_steps [OF assms(4), of "c_state c'"] by (auto elim: advances_cases)
  ultimately show ?thesis
    using assms(1-3) by (auto simp: informed_def change_def successively_append_iff)
qed

lemma informed_reachable:
  "reachable env c \<Longrightarrow> hooks c onConnected \<Longrightarrow> hooks c onDisconnected \<Longrightarrow> informed c"
proof (induction rule: reachable.induct)
  case (event c e c')
  then show ?case using informed_exec hooks_exec by metis
qed (simp add: informed_def told_def new_client_def)

section \<open>Properties\<close>

lemma outgoing_flag:
  "outgoing host d desc t f p \<Longrightarrow>
    f = (if t \<in> {DMR_DATA_BASE + 1, DMR_DATA_BASE + 2, DMR_AUDIO_FRAME} then REAL_TIME_1 else NONE)"
  by (erule outgoing.cases) (simp_all add: message_type_defs)

text \<open>C12. Every datagram of every run is typed: it is a packet of one of the ten types, with the
  client's own id in registrations and messages, the form of payload and the flag of its type,
  and any receiver takes it apart into just these (if its payload fits the length field).\<close>

theorem Datagrams_typed:
  assumes "reachable env c" "(p, ep) \<in> set (datagrams (actions c))"
  shows "\<exists>type flag number payload. outgoing (host_order env) (c_dmrId c) (c_description c) type flag payload \<and>
    flag = (if type \<in> {DMR_DATA_BASE + 1, DMR_DATA_BASE + 2, DMR_AUDIO_FRAME} then REAL_TIME_1 else NONE) \<and>
    length p = 18 + length payload \<and>
    (length payload \<le> 65535 \<longrightarrow> split_packet host p = Some (\<lparr>h_type = type, h_flags = flag,
      h_number = number, h_length = of_nat (length payload)\<rparr>, payload))"
proof -
  have "typed_datagram (host_order env) (c_dmrId c) (c_description c) p"
    using typed_reachable [OF assms(1)] assms(2) by (auto simp: typed_def list_all_iff)
  then obtain t f n payload where p: "outgoing (host_order env) (c_dmrId c) (c_description c) t f payload"
    "p = packet_bytes (host_order env) \<lparr>h_type = t, h_flags = f, h_number = n,
      h_length = of_nat (length payload)\<rparr> payload"
    by (auto simp: typed_datagram_def)
  moreover have "length p = 18 + length payload"
    by (simp add: p(2) packet_bytes_def header.length_encode)
  moreover have "length payload \<le> 65535 \<longrightarrow> split_packet host p = Some (\<lparr>h_type = t, h_flags = f,
      h_number = n, h_length = of_nat (length payload)\<rparr>, payload)"
    by (simp add: p(2) split_packet_bytes unat_length_u16)
  ultimately show ?thesis using outgoing_flag [OF p(1)] by blast
qed

lemma sample_output:
  "reachable calm waiting" "reachable calm challenged" "hooks challenged = (\<lambda>_. True)"
  "datagrams (actions waiting) \<noteq> []"
proof -
  show waiting: "reachable calm waiting"
    using run_reachable [OF waiting_run(1) sample_reachable(2)] .
  show "reachable calm challenged" using run_reachable [OF challenged_run(1) waiting] .
  show "hooks challenged = (\<lambda>_. True)"
    using hooks_exec [OF sample_steps(2)] hooks_exec [OF sample_steps(3)] starting_run(5) by simp
  show "datagrams (actions waiting) \<noteq> []"
    by (simp add: waiting_def on_resolve_def starting_run Let_def StartReceiveLoop_def SendKeepAlive_def)
qed

theorem Datagrams_typed_witness:
  "\<exists>p ep. (p, ep) \<in> set (datagrams (actions waiting)) \<and>
    (\<exists>type flag payload. outgoing Little (c_dmrId waiting) (c_description waiting) type flag payload \<and>
      length p = 18 + length payload)"
proof -
  obtain p ep where "(p, ep) \<in> set (datagrams (actions waiting))"
    using sample_output(4) by (metis list.set_sel(1) surj_pair)
  with Datagrams_typed [OF sample_output(1) this, of Little] show ?thesis
    unfolding host_order_calm by blast
qed

text \<open>C13. The application knows: with \<open>onConnected\<close> and \<open>onDisconnected\<close> set, every event of a run
  calls \<open>onConnected\<close> exactly once if it connects the session, \<open>onDisconnected\<close> exactly once if it
  ends it, and neither otherwise; so the session is connected exactly if the last of these calls
  was one of \<open>onConnected\<close>.\<close>

theorem Application_informed:
  assumes "reachable env c" "hooks c onConnected" "hooks c onDisconnected" "exec env e c = Inr c'"
  shows "announcements (actions c') = announcements (actions c) @
      (if c_state c \<noteq> CONNECTED \<and> c_state c' = CONNECTED then [True]
       else if c_state c \<noteq> DISCONNECTED \<and> c_state c' = DISCONNECTED then [False] else []) \<and>
    (c_state c' = CONNECTED \<longleftrightarrow> announcements (actions c') \<noteq> [] \<and> last (announcements (actions c')))"
proof -
  have "informed c'"
    using informed_exec [OF informed_reachable assms(2-4)] assms(1-3) by blast
  with told_exec [OF assms(4)] assms(2,3) show ?thesis
    by (simp add: informed_def told_def change_def)
qed

theorem Application_informed_witness: "last (announcements (actions connected))"
  using Application_informed [OF sample_output(2) _ _ sample_steps(4)] sample_output(3)
    connected_run(2) challenged_run(2) by simp

end
