(* ===== verification/Server.thy ===== *)
theory Server
  imports Handshake Client_Output
begin

text \<open>
  The mock server against the client as a whole, over every datagram of every run of it. Those
  that fit into the server's buffer of 1024 bytes are handled within its bounds: the server
  records them, and answers registrations and the right digest, and nothing else. The first one
  that does not fit is cut, and the server then reads outside it.
\<close>

section \<open>What the server answers\<close>

text \<open>The answers to a packet, as a function of the packet alone.\<close>

definition answers_to :: "endian \<Rightarrow> bytes \<Rightarrow> bytes \<Rightarrow> bytes \<Rightarrow> bytes list" where
  "answers_to shost pw salt p =
    (case split_packet shost p of
       None \<Rightarrow> []
     | Some (h, payload) \<Rightarrow>
         if h_type h = KEEP_ALIVE \<and> payload \<noteq> [] then [challenge_of shost salt]
         else if h_type h = AUTHENTICATION \<and> payload = sha256 (salt @ pw) then [accept_of shost]
         else [])"

text \<open>What the server has become, up to the id it remembers.\<close>

definition server_state :: "bytes \<Rightarrow> bytes \<Rightarrow> bytes list \<Rightarrow> bytes list \<Rightarrow> server \<Rightarrow> bool" where
  "server_state pw salt received sent s \<longleftrightarrow> expectedPassword s = pw \<and> server_salt s = salt \<and>
    receivedPackets s = received \<and> sentPackets s = sent \<and> receiving s"

lemma server_state_MockServer: "server_state pw salt [] [] (MockServer pw salt)"
  by (simp add: server_state_def MockServer_def)

text \<open>A packet with as many bytes as it announces, within the 1024 of the buffer. The id of a
  registration has to be there; in the client's packets it is.\<close>

lemma server_receive_packet:
  assumes "server_state pw salt received sent s"
    and "split_packet shost p = Some (h, payload)" "unat (h_length h) = length payload" "length p \<le> 1024"
    and "h_type h = KEEP_ALIVE \<Longrightarrow> payload \<noteq> [] \<Longrightarrow> parsed (DeserializeVersionData shost payload) \<noteq> None"
  shows "\<exists>s'. server_receive shost p s = Inr s' \<and>
    server_state pw salt (received @ [p]) (sent @ answers_to shost pw salt p) s'"
proof -
  have p: "take 1024 p = p" "p \<noteq> []" using assms(2,4) by auto
  have len: "h_length h > 0 \<longleftrightarrow> payload \<noteq> []"
    using assms(3) by (metis length_greater_0_conv unat_gt_0 word_neq_0_conv)
  have "AUTHENTICATION \<noteq> KEEP_ALIVE" by (simp add: message_type_defs)
  with assms p len show ?thesis
    by (auto simp: server_receive_def server_state_def ProcessIncoming_split SendPacket_sends answers_to_def
        challenge_of_def accept_of_def Let_def)
qed

text \<open>A packet that is longer: the server trusts the length its header announces.\<close>

lemma server_receive_long:
  assumes "server_state pw salt received sent s"
    and "split_packet shost p = Some (h, payload)" "unat (h_length h) = length payload" "length p > 1024"
    and "length p = 18 + length payload"
  shows "server_receive shost p s = Inl UB"
proof -
  have "DeserializeHeader shost (take 1024 p) = Inr (Some h)"
    using assms(2) by (auto simp: split_packet_def header.decode_take split: option.splits if_splits)
  moreover have "take 1024 p \<noteq> []" using assms(4) by auto
  moreover have "subspan (take 1024 p) 18 (unat (h_length h)) = Inl UB"
    using assms(3-5) by (simp add: subspan_def)
  ultimately show ?thesis
    using assms(1) by (simp add: server_receive_def server_state_def ProcessIncoming_def Let_def)
qed

section \<open>The datagrams of a client\<close>

lemma typed_is_packet:
  assumes "typed_datagram host dmrId desc p" "length p \<le> 65507"
  shows "\<exists>h payload. split_packet shost p = Some (h, payload) \<and> unat (h_length h) = length payload \<and>
    length p = 18 + length payload \<and>
    (h_type h = KEEP_ALIVE \<longrightarrow> parsed (DeserializeVersionData shost payload) \<noteq> None)"
proof -
  obtain t f n payload where p: "outgoing host dmrId desc t f payload" "p = packet_bytes host
      \<lparr>h_type = t, h_flags = f, h_number = n, h_length = of_nat (length payload)\<rparr> payload"
    using assms(1) by (auto simp: typed_datagram_def)
  have "length payload < 65536" using assms(2) p(2) by simp
  moreover have "t = KEEP_ALIVE \<longrightarrow> parsed (DeserializeVersionData shost payload) \<noteq> None"
    using p(1) by (auto simp: outgoing_keep_alive VersionData_serialized; simp add: message_type_defs)
  ultimately show ?thesis using p(2) by (simp add: split_packet_bytes' unat_length_u16)
qed

text \<open>The server reads all of the datagrams, or aborts at the first one that is too long.\<close>

lemma server_receives_all:
  assumes "server_state pw salt received sent s"
    and "list_all (\<lambda>(p, ep). typed_datagram host dmrId desc p \<and> length p \<le> 65507) ds"
  shows "if list_all (\<lambda>(p, ep). length p \<le> 1024) ds
    then \<exists>s'. for_each ds (\<lambda>(p, _). server_receive shost p) s = Inr s' \<and>
      server_state pw salt (received @ map fst ds) (sent @ concat (map (\<lambda>d. answers_to shost pw salt (fst d)) ds)) s'
    else for_each ds (\<lambda>(p, _). server_receive shost p) s = Inl UB"
  using assms
proof (induction ds arbitrary: received sent s)
  case (Cons d ds)
  obtain p ep where d: "d = (p, ep)" by (cases d)
  with Cons.prems(2) have "typed_datagram host dmrId desc p" "length p \<le> 65507" by simp_all
  then obtain h payload where p: "split_packet shost p = Some (h, payload)" "unat (h_length h) = length payload"
    "length p = 18 + length payload"
    "h_type h = KEEP_ALIVE \<longrightarrow> parsed (DeserializeVersionData shost payload) \<noteq> None"
    using typed_is_packet by blast
  show ?case
  proof (cases "length p \<le> 1024")
    case True
    then obtain s1 where s1: "server_receive shost p s = Inr s1"
      "server_state pw salt (received @ [p]) (sent @ answers_to shost pw salt p) s1"
      using server_receive_packet [OF Cons.prems(1) p(1,2)] p(4) by blast
    with Cons.IH [OF s1(2)] Cons.prems(2) d True show ?thesis by auto
  next
    case False
    then have "server_receive shost p s = Inl UB" using server_receive_long [OF Cons.prems(1) p(1,2)] p(3) by simp
    with d False show ?thesis by simp
  qed
qed simp

lemma server_receives_short:
  assumes "server_state pw salt received sent s"
    and "list_all (\<lambda>(p, ep). typed_datagram host dmrId desc p \<and> length p \<le> 1024) ds"
  obtains s' where "for_each ds (\<lambda>(p, _). server_receive shost p) s = Inr s'"
    "server_state pw salt (received @ map fst ds) (sent @ concat (map (answers_to shost pw salt \<circ> fst) ds)) s'"
proof -
  have "list_all (\<lambda>(p, ep). typed_datagram host dmrId desc p \<and> length p \<le> 65507) ds"
    "list_all (\<lambda>(p, ep). length p \<le> 1024) ds" using assms(2) by (auto simp: list_all_iff)
  from server_receives_all [OF assms(1) this(1), of shost] this(2) that show thesis by (auto simp: comp_def)
qed

section \<open>Properties\<close>

text \<open>C5. The mock server on the datagrams that a client ever sends, in every run of it, if each is
  at most as long as UDP can carry. If all of them fit into its buffer of 1024 bytes it records
  every one without reading outside an array, and it has sent one challenge for each registration, one
  acceptance for each digest of its salt and password, and nothing else. If one is longer the
  server makes a span that leaves the bytes it received, which is undefined behaviour.\<close>

theorem Server_exact:
  assumes "reachable env c" "list_all (\<lambda>(p, ep). length p \<le> 65507) (datagrams (actions c))"
  shows "if list_all (\<lambda>(p, ep). length p \<le> 1024) (datagrams (actions c))
    then \<exists>s. for_each (datagrams (actions c)) (\<lambda>(p, _). server_receive shost p) (MockServer pw salt) = Inr s \<and>
      receivedPackets s = map fst (datagrams (actions c)) \<and>
      sentPackets s = concat (map (\<lambda>(p, _).
        case split_packet shost p of
          Some (h, payload) \<Rightarrow>
            if h_type h = KEEP_ALIVE \<and> payload \<noteq> [] then [challenge_of shost salt]
            else if h_type h = AUTHENTICATION \<and> payload = sha256 (salt @ pw) then [accept_of shost]
            else []
        | None \<Rightarrow> []) (datagrams (actions c)))
    else for_each (datagrams (actions c)) (\<lambda>(p, _). server_receive shost p) (MockServer pw salt) = Inl UB"
proof -
  have "list_all (\<lambda>(p, ep). typed_datagram (host_order env) (c_dmrId c) (c_description c) p \<and> length p \<le> 65507)
      (datagrams (actions c))"
    using typed_reachable [OF assms(1)] assms(2) by (auto simp: typed_def list_all_iff)
  from server_receives_all [OF server_state_MockServer this, of shost pw salt]
  show ?thesis
    by (auto simp: server_state_def answers_to_def comp_def case_prod_unfold split: option.splits if_splits)
qed

theorem Server_exact_witness:
  "(\<exists>s. for_each (datagrams (actions waiting)) (\<lambda>(p, _). server_receive Big p) (MockServer [0x70] [0x73]) = Inr s \<and>
     receivedPackets s = map fst (datagrams (actions waiting))) \<and>
   (\<exists>c. reachable calm c \<and> length (datagrams (actions c)) = 1 \<and>
     for_each (datagrams (actions c)) (\<lambda>(p, _). server_receive Big p) (MockServer [0x70] [0x73]) = Inl UB)"
proof
  have "list_all (\<lambda>(p, ep). length p \<le> 1024) (datagrams (actions waiting))"
    by (simp add: waiting_def starting_def Connect_def new_client_def on_resolve_def Let_def
        StartReceiveLoop_def SendKeepAlive_def length_next_packet wire_simps)
  moreover from this have "list_all (\<lambda>(p, ep). length p \<le> 65507) (datagrams (actions waiting))"
    by (auto simp: list_all_iff)
  ultimately show "\<exists>s. for_each (datagrams (actions waiting)) (\<lambda>(p, _). server_receive Big p)
      (MockServer [0x70] [0x73]) = Inr s \<and> receivedPackets s = map fst (datagrams (actions waiting))"
    using Server_exact [OF sample_output(1), of Big "[0x70]" "[0x73]"] by auto
next
  let ?desc = "replicate 1002 0x41 :: bytes" and ?c0 = "new_client 5 (replicate 1002 0x41) 0 (\<lambda>_. True) :: nat client"
  obtain c where c: "run calm [ConnectCalled (\<lambda>_. None) [] 1 [] 1, Resolved None [7] None None] ?c0 = Inr c"
    "datagrams (actions c) = [(register_packet calm 0 5 ?desc, 7)]"
    by (rule registers)
  have reached: "reachable calm c"
    by (rule run_reachable [OF c(1) reachable.start])
  have "length (register_packet calm 0 5 ?desc) = 1025"
    by (simp add: register_packet_def registration_def wire_simps)
  with Server_exact [OF reached, of Big "[0x70]" "[0x73]"] reached c(2)
  show "\<exists>c :: nat client. reachable calm c \<and> length (datagrams (actions c)) = 1 \<and>
      for_each (datagrams (actions c)) (\<lambda>(p, _). server_receive Big p) (MockServer [0x70] [0x73]) = Inl UB"
    by (intro exI [of _ c]) simp
qed

end
