(* ===== verification/Audio_Tools.thy ===== *)
theory Audio_Tools
  imports Client_Traffic
begin

text \<open>
  The two programs built on the library: \<open>examples/play_audio.cpp\<close> streams frames of 27 bytes
  from its standard input into a call, \<open>examples/record_audio.cpp\<close> writes the frames it hears
  to a file. The main thread of each is a function; what the client's background thread does
  meanwhile is given as lists of events, one for every point at which the main thread waits.
  An exception that leaves \<open>main\<close> stops the program. Console output is left out, the file is
  the bytes written to it. The theory ends with what a recorder makes of a played stream.
\<close>

section \<open>Command line\<close>

text \<open>\<open>std::stoul\<close> in base 10, with the 64-bit \<open>unsigned long\<close> of LP64: leading white space, a
  sign, digits. It throws if there is no digit or the number is too big; a sign negates.\<close>

definition isspace :: "u8 \<Rightarrow> bool" where
  "isspace b \<longleftrightarrow> b = 0x20 \<or> 0x09 \<le> b \<and> b \<le> 0x0D"

definition isdigit :: "u8 \<Rightarrow> bool" where
  "isdigit b \<longleftrightarrow> 0x30 \<le> b \<and> b \<le> 0x39"

definition number_of :: "bytes \<Rightarrow> nat" where
  "number_of ds = foldl (\<lambda>n d. 10 * n + (unat d - 48)) 0 ds"

definition stoul :: "bytes \<Rightarrow> u64 cxx" where
  "stoul str =
    (let s = dropWhile isspace str;
         negative = (s \<noteq> [] \<and> hd s = 0x2D);
         s = (if s \<noteq> [] \<and> (hd s = 0x2D \<or> hd s = 0x2B) then tl s else s);
         ds = takeWhile isdigit s
     in if ds = [] \<or> number_of ds \<ge> 2 ^ 64 then Inl Terminate
        else Inr (if negative then - of_nat (number_of ds) else of_nat (number_of ds)))"

text \<open>How a program ends: with its exit status and its client, if it got so far as to have one;
  or not yet, because the main thread still waits.\<close>

datatype 'ep outcome = Exit nat "'ep client option" | Blocked "'ep client"

text \<open>The connection both programs make: \<open>ConnectSync\<close> with its default timeout, \<open>io\<close> being
  what the background thread does until the wait is over. On failure the program returns 1 and
  the destructor of the client runs.\<close>

definition connect_or_fail :: "'ep env \<Rightarrow> (startup_point \<Rightarrow> string option) \<Rightarrow> 'ep event list \<Rightarrow>
    bytes \<Rightarrow> u16 \<Rightarrow> bytes \<Rightarrow> ('ep client \<Rightarrow> 'ep outcome cxx) \<Rightarrow> 'ep client \<Rightarrow> 'ep outcome cxx" where
  "connect_or_fail env throws io serverAddress serverPort password continue client =
    andThen (Connect throws serverAddress serverPort password 5000 client) (\<lambda>(startErr, c).
    if startErr \<noteq> SUCCESS then Inr (Exit 1 (Some (destroy env c)))
    else andThen (run env io c) (\<lambda>c.
      case wait_connected [c] of
        None \<Rightarrow> Inr (Blocked c)
      | Some r \<Rightarrow> if r \<noteq> SUCCESS then Inr (Exit 1 (Some (destroy env c))) else continue c))"

section \<open>Playing\<close>

text \<open>The loop over the standard input: \<open>cin.read(frameBuffer.data(), 27)\<close> fails on fewer than
  27 bytes. \<open>io k\<close> happens before frame \<open>k\<close> is sent.\<close>

function stream_frames :: "'ep env \<Rightarrow> (nat \<Rightarrow> 'ep event list) \<Rightarrow> nat \<Rightarrow> bytes \<Rightarrow> 'ep client \<Rightarrow>
    'ep client cxx" where
  "stream_frames env io count input c =
    (if length input < 27 then Inr c
     else andThen (run env (io count) c) (\<lambda>c.
       stream_frames env io (count + 1) (drop 27 input) (SendAudioFrame env (take 27 input) c)))"
  by pat_completeness auto
termination by (relation "measure (\<lambda>(_, _, _, input, _). length input)") auto

declare stream_frames.simps [simp del]

definition transmit :: "'ep env \<Rightarrow> (nat \<Rightarrow> 'ep event list) \<Rightarrow> u32 \<Rightarrow> u32 \<Rightarrow> bytes \<Rightarrow> 'ep client \<Rightarrow>
    'ep client cxx" where
  "transmit env io srcId groupId input c =
    (let c = StartVoiceCall env srcId groupId True c
     in andThen (stream_frames env io 0 input c) (\<lambda>c. Inr (EndVoiceCall env c)))"

text \<open>\<open>"libOpenDTP play_audio v1.0"\<close>, and the hooks the program sets.\<close>

definition play_description :: bytes where
  "play_description = [0x6C, 0x69, 0x62, 0x4F, 0x70, 0x65, 0x6E, 0x44, 0x54, 0x50, 0x20, 0x70, 0x6C,
     0x61, 0x79, 0x5F, 0x61, 0x75, 0x64, 0x69, 0x6F, 0x20, 0x76, 0x31, 0x2E, 0x30]"

definition play_hooks :: "hook \<Rightarrow> bool" where
  "play_hooks h \<longleftrightarrow> h \<in> {onConnected, onDisconnected, onError, onDebugReport, onTextMessage}"

definition play_audio :: "'ep env \<Rightarrow> 'ep \<Rightarrow> (startup_point \<Rightarrow> string option) \<Rightarrow> 'ep event list \<Rightarrow>
    'ep event list \<Rightarrow> (nat \<Rightarrow> 'ep event list) \<Rightarrow> bytes list \<Rightarrow> bytes \<Rightarrow> 'ep outcome cxx" where
  "play_audio env ep throws connecting pausing io argv input =
    (if length argv < 7 then Inr (Exit 1 None)
     else
       andThen (stoul (argv ! 1)) (\<lambda>n. let clientNumber = ucast n :: u32; password = argv ! 2;
         serverAddress = argv ! 3 in
       andThen (stoul (argv ! 4)) (\<lambda>n. let serverPort = ucast n :: u16 in
       andThen (stoul (argv ! 5)) (\<lambda>n. let srcId = ucast n :: u32 in
       andThen (stoul (argv ! 6)) (\<lambda>n. let groupId = ucast n :: u32 in
       connect_or_fail env throws connecting serverAddress serverPort password
         (\<lambda>c. let c = Subscribe env groupId c
              in andThen (run env pausing c) (\<lambda>c.
                 andThen (transmit env io srcId groupId input c) (\<lambda>c.
                 let c = Disconnect env App c
                 in Inr (Exit 0 (Some (destroy env c))))))
         (new_client clientNumber play_description ep play_hooks))))))"

section \<open>Recording\<close>

text \<open>The handler of the interrupt signal, on the flag \<open>running\<close>.\<close>

definition SIGINT :: int where "SIGINT = 2"

definition SignalHandler :: "int \<Rightarrow> bool \<Rightarrow> bool" where
  "SignalHandler signalNum running = (if signalNum = SIGINT then False else running)"

text \<open>The monitor loop. Each tick of 100 ms brings some signals and some events; \<open>False\<close> if it
  still runs after the last one.\<close>

fun monitor :: "'ep env \<Rightarrow> bool \<Rightarrow> (int list \<times> 'ep event list) list \<Rightarrow> 'ep client \<Rightarrow>
    (bool \<times> 'ep client) cxx" where
  "monitor env running [] c = Inr (\<not> running, c)"
| "monitor env running ((signals, events) # ticks) c =
    (if running then
       andThen (run env events c) (\<lambda>c. monitor env (fold SignalHandler signals running) ticks c)
     else Inr (True, c))"

text \<open>The hook \<open>onAudioFrame\<close>, over everything the client has called: the contents of the file.\<close>

fun recorded :: "'ep action list \<Rightarrow> bytes" where
  "recorded [] = []"
| "recorded (Called (OnAudioFrame frame) connection write # as) =
    (if ambeData frame \<noteq> [] then ambeData frame else []) @ recorded as"
| "recorded (_ # as) = recorded as"

text \<open>\<open>"libOpenDTP record_audio v1.0"\<close>, and the hooks the program sets. \<open>early\<close> are the signals
  that arrive before the monitor loop.\<close>

definition record_description :: bytes where
  "record_description = [0x6C, 0x69, 0x62, 0x4F, 0x70, 0x65, 0x6E, 0x44, 0x54, 0x50, 0x20, 0x72,
     0x65, 0x63, 0x6F, 0x72, 0x64, 0x5F, 0x61, 0x75, 0x64, 0x69, 0x6F, 0x20, 0x76, 0x31, 0x2E, 0x30]"

definition record_hooks :: "hook \<Rightarrow> bool" where
  "record_hooks h \<longleftrightarrow> h \<in> {onConnected, onDisconnected, onError, onDebugReport, onVoiceHeader,
     onAudioFrame, onVoiceTerminator}"

definition record_audio :: "'ep env \<Rightarrow> 'ep \<Rightarrow> (startup_point \<Rightarrow> string option) \<Rightarrow> 'ep event list \<Rightarrow>
    int list \<Rightarrow> (int list \<times> 'ep event list) list \<Rightarrow> 'ep event list \<Rightarrow> bool \<Rightarrow> bytes list \<Rightarrow> 'ep outcome cxx" where
  "record_audio env ep throws connecting early ticks leaving is_open argv =
    (if length argv < 7 then Inr (Exit 1 None)
     else
       andThen (stoul (argv ! 1)) (\<lambda>n. let clientNumber = ucast n :: u32; password = argv ! 2;
         serverAddress = argv ! 3 in
       andThen (stoul (argv ! 4)) (\<lambda>n. let serverPort = ucast n :: u16 in
       andThen (stoul (argv ! 5)) (\<lambda>n. let groupId = ucast n :: u32 in
       if \<not> is_open then Inr (Exit 1 None)
       else connect_or_fail env throws connecting serverAddress serverPort password
         (\<lambda>c. let c = Subscribe env groupId c
              in andThen (monitor env (fold SignalHandler early True) ticks c) (\<lambda>(interrupted, c).
                 if \<not> interrupted then Inr (Blocked c)
                 else let c = Unsubscribe env groupId c
                   in andThen (run env leaving c) (\<lambda>c.
                      let c = Disconnect env App c
                      in Inr (Exit 0 (Some (destroy env c))))))
         (new_client clientNumber record_description ep record_hooks)))))"

section \<open>What goes on beside a call\<close>

text \<open>The real-time packets among some datagrams.\<close>

definition voice_only :: "endian \<Rightarrow> (bytes \<times> 'ep) list \<Rightarrow> (bytes \<times> 'ep) list" where
  "voice_only host ds = filter (\<lambda>(p, ep). case parsed (DeserializeHeader host p) of
     None \<Rightarrow> False | Some h \<Rightarrow> h_flags h AND REAL_TIME_1 \<noteq> 0) ds"

lemma voice_only_append [simp]: "voice_only host (ds @ ds') = voice_only host ds @ voice_only host ds'"
  by (simp add: voice_only_def)

lemma voice_only_Nil [simp]: "voice_only host [] = []"
  by (simp add: voice_only_def)

lemma voice_only_packet [simp]:
  "voice_only host [(packet_bytes host' h p, ep)] =
    (if h_flags h AND REAL_TIME_1 \<noteq> 0 then [(packet_bytes host' h p, ep)] else [])"
  by (simp add: voice_only_def packet_bytes_def header.decode_append)

lemma voice_only_routine [simp]:
  "voice_only host [(next_packet env t NONE p c, ep)] = []"
  by (simp add: next_packet_def next_header_def)

lemma voice_only_voice [simp]:
  "voice_only host (voice_packets host' ep n tps) = voice_packets host' ep n tps"
proof (induction tps arbitrary: n)
  case (Cons tp tps)
  obtain t p where "tp = (t, p)" by (cases tp)
  with Cons [of "Suc n"] show ?case
    by (simp add: voice_only_def packet_bytes_def header.decode_append)
qed simp

text \<open>The call of \<open>c\<close> goes on in \<open>c'\<close>, which has sent no voice.\<close>

definition same_call :: "'ep client \<Rightarrow> 'ep client \<Rightarrow> bool" where
  "same_call c c' \<longleftrightarrow> c_state c' = c_state c \<and> socket_open c' = socket_open c \<and>
    c_inCall c' = c_inCall c \<and> c_realTimeSeq c' = c_realTimeSeq c \<and>
    c_serverEndpoint c' = c_serverEndpoint c \<and>
    (\<forall>host. voice_only host (datagrams (actions c')) = voice_only host (datagrams (actions c)))"

lemma same_call_refl [simp]: "same_call c c"
  by (simp add: same_call_def)

lemma same_call_trans: "same_call c c' \<Longrightarrow> same_call c' c'' \<Longrightarrow> same_call c c''"
  by (simp add: same_call_def)

lemma same_call_act: "datagrams [a] = [] \<Longrightarrow> same_call c (act a c)"
  by (simp add: same_call_def)

lemma same_call_call: "same_call c (call h cb c)"
  by (simp add: same_call_def)

lemma same_call_TransmitRaw: "same_call c (TransmitRaw env t NONE p c)"
  by (cases "socket_open c") (simp_all add: same_call_def TransmitRaw_open(4) TransmitRaw_closed)

lemma same_call_arrive: "same_call c (arrive data sender c)"
  by (simp add: same_call_def)

lemma same_call_timers: "same_call c (StartReceiveLoop c)" "same_call c (StartKeepAliveTimer c)"
  by (simp_all add: StartReceiveLoop_def StartKeepAliveTimer_def same_call_act)

lemma same_call_processed:
  assumes "c_state c = CONNECTED"
  shows "same_call c (processed env packet c)"
proof (cases "split_packet (host_order env) packet")
  case (Some hp)
  then obtain h p where hp: "processed env packet c = dispatched env h p c"
    by (cases hp) (simp add: processed_def)
  consider "h_type h = CHALLENGE" | "h_type h = KEEP_ALIVE" | "hook_only c (dispatched env h p c)"
    using dispatched_other by blast
  then show ?thesis using assms
    by cases (auto simp: hp dispatched_simps hook_only_def same_call_call handle_keep_alive_def)
qed (simp add: processed_def)

text \<open>What the background thread may do in a call without ending it: keep-alives, datagrams of
  any kind from anyone, a cancelled receive, late completions of the connection's start. What is
  left of the completions are the receive errors.\<close>

fun background :: "'ep event \<Rightarrow> bool" where
  "background (KeepAliveTick ec) = True"
| "background (Received ec data sender) = (ec = None \<or> aborted ec)"
| "background (ConnectTimeout ec) = True"
| "background (Resolved ec endpoints openEc bindEc) = True"
| "background _ = False"

lemma background_same_call:
  assumes "background e" "c_state c = CONNECTED"
  shows "\<exists>c'. exec env e c = Inr c' \<and> same_call c c'"
proof (cases e)
  case (KeepAliveTick ec)
  have "same_call c (SendKeepAlive env c)" by (simp add: SendKeepAlive_def Let_def same_call_TransmitRaw)
  then have "same_call c (on_keep_alive env ec c)"
    by (auto simp: on_keep_alive_def intro: same_call_trans same_call_timers)
  with KeepAliveTick show ?thesis by simp
next
  case (Received ec data sender)
  have "same_call c (processed env (fits c data) (arrive data sender c))"
    using assms(2) by (intro same_call_trans [OF same_call_arrive same_call_processed]) simp
  with Received assms show ?thesis
    by (auto simp: exec_Received Let_def aborted_def simp del: exec.simps split: option.split
        intro: same_call_trans [OF _ same_call_timers(1)] same_call_arrive)
qed (use assms in \<open>auto simp: on_connect_timeout_def on_resolve_def same_call_def Let_def\<close>)

text \<open>A session that is over: no completion brings it back or sends anything.\<close>

definition gone :: "'ep client \<Rightarrow> bool" where
  "gone c \<longleftrightarrow> c_state c = DISCONNECTED \<and> \<not> socket_open c"

lemma completion_gone:
  assumes "completion e" "gone c"
  shows "\<exists>c'. exec env e c = Inr c' \<and> gone c' \<and> datagrams (actions c') = datagrams (actions c)"
proof (cases e)
  case (Received ec data sender)
  with assms(2) show ?thesis by (simp add: exec_Received gone_def del: exec.simps)
qed (use assms in \<open>auto simp: gone_def on_connect_timeout_def on_resolve_def on_keep_alive_def Let_def\<close>)

lemma completion_in_call:
  assumes "completion e" "c_state c = CONNECTED" "socket_open c"
  shows "\<exists>c'. exec env e c = Inr c' \<and> (if background e then same_call c c'
    else gone c' \<and> (\<forall>host. voice_only host (datagrams (actions c')) = voice_only host (datagrams (actions c))))"
proof (cases "background e")
  case True
  then show ?thesis using background_same_call [OF True assms(2)] by auto
next
  case False
  then obtain err data sender where e: "e = Received (Some err) data sender" "\<not> ec_aborted err"
    using assms(1) by (cases e) (auto simp: aborted_def split: option.splits)
  with False assms(2,3) show ?thesis
    by (simp add: exec_Received gone_def Disconnect_datagrams del: exec.simps)
qed

lemma completions_gone:
  "list_all completion es \<Longrightarrow> gone c \<Longrightarrow>
    \<exists>c'. run env es c = Inr c' \<and> gone c' \<and> datagrams (actions c') = datagrams (actions c)"
proof (induction es arbitrary: c)
  case (Cons e es)
  then show ?case using completion_gone [of e c env] by fastforce
qed simp

lemma completions_in_call:
  assumes "list_all completion es" "c_state c = CONNECTED" "socket_open c"
  shows "\<exists>c'. run env es c = Inr c' \<and> (if list_all background es then same_call c c'
    else gone c' \<and> (\<forall>host. voice_only host (datagrams (actions c')) = voice_only host (datagrams (actions c))))"
  using assms
proof (induction es arbitrary: c)
  case (Cons e es)
  then obtain c1 where c1: "exec env e c = Inr c1" "if background e then same_call c c1
      else gone c1 \<and> (\<forall>host. voice_only host (datagrams (actions c1)) = voice_only host (datagrams (actions c)))"
    using completion_in_call [of e c env] by auto
  show ?case
  proof (cases "background e")
    case True
    with c1 Cons.prems have "same_call c c1" "c_state c1 = CONNECTED" "socket_open c1"
      by (simp_all add: same_call_def)
    with Cons True c1(1) show ?thesis by (fastforce simp: same_call_def)
  next
    case False
    with c1 Cons.prems completions_gone [of es c1 env] show ?thesis by force
  qed
qed simp

lemma same_call_in_call: "same_call c c' \<Longrightarrow> in_call n c \<Longrightarrow> in_call n c'"
  by (simp add: same_call_def in_call_def)

section \<open>The stream on the wire\<close>

text \<open>The frames of an input: its pieces of 27 bytes, without an incomplete last one.\<close>

function frames_of :: "bytes \<Rightarrow> bytes list" where
  "frames_of input = (if length input < 27 then [] else take 27 input # frames_of (drop 27 input))"
  by pat_completeness auto
termination by (relation "measure length") auto

declare frames_of.simps [simp del]

lemma concat_frames: "concat (frames_of input) = take (27 * (length input div 27)) input"
proof (induction input rule: frames_of.induct)
  case (1 input)
  show ?case
  proof (cases "length input < 27")
    case False
    then have "length input div 27 = Suc ((length input - 27) div 27)" by (simp add: le_div_geq)
    with 1 False show ?thesis by (simp add: frames_of.simps [of input] take_add)
  qed (simp add: frames_of.simps [of input])
qed

lemma length_frames: "f \<in> set (frames_of input) \<Longrightarrow> length f = 27"
proof (induction input rule: frames_of.induct)
  case (1 input)
  then show ?case by (cases "length input < 27") (auto simp: frames_of.simps [of input])
qed

lemma SendAudioFrame_in_call:
  assumes "in_call n c"
  shows "in_call (Suc n) (SendAudioFrame env f c)"
    "c_serverEndpoint (SendAudioFrame env f c) = c_serverEndpoint c"
    "datagrams (actions (SendAudioFrame env f c)) =
      datagrams (actions c) @ voice_packets (host_order env) (c_serverEndpoint c) n [(DMR_AUDIO_FRAME, f)]"
proof -
  have "SendAudioFrame env f c = TransmitRaw env DMR_AUDIO_FRAME REAL_TIME_1 f c"
    using assms by (simp add: in_call_def SendAudioFrame_def)
  then show "in_call (Suc n) (SendAudioFrame env f c)"
    "c_serverEndpoint (SendAudioFrame env f c) = c_serverEndpoint c"
    "datagrams (actions (SendAudioFrame env f c)) =
      datagrams (actions c) @ voice_packets (host_order env) (c_serverEndpoint c) n [(DMR_AUDIO_FRAME, f)]"
    using in_call_TransmitRaw [OF assms] by simp_all
qed

lemma length_frames_of: "length (frames_of input) = length input div 27"
proof (induction input rule: frames_of.induct)
  case (1 input)
  then show ?case
    by (cases "length input < 27") (simp_all add: frames_of.simps [of input] le_div_geq)
qed

lemma concat_take_frames: "concat (take m (frames_of input)) = take (27 * m) (take (27 * (length input div 27)) input)"
proof (induction input arbitrary: m rule: frames_of.induct)
  case (1 input)
  show ?case
  proof (cases "length input < 27")
    case False
    then have "length input div 27 = Suc ((length input - 27) div 27)" by (simp add: le_div_geq)
    with 1 False show ?thesis
      by (cases m) (simp_all add: frames_of.simps [of input] take_add min_def)
  qed (simp add: frames_of.simps [of input])
qed

lemma stream_frames_gone:
  assumes "gone c" "\<forall>k. list_all completion (io k)"
  shows "\<exists>c'. stream_frames env io count input c = Inr c' \<and> gone c' \<and>
    datagrams (actions c') = datagrams (actions c)"
  using assms(1)
proof (induction input arbitrary: count c rule: frames_of.induct)
  case (1 input)
  show ?case
  proof (cases "length input < 27")
    case True
    with 1 show ?thesis by (simp add: stream_frames.simps [of _ _ _ input])
  next
    case False
    obtain c1 where c1: "run env (io count) c = Inr c1" "gone c1" "datagrams (actions c1) = datagrams (actions c)"
      using completions_gone [of "io count" c env] assms(2) 1(2) by auto
    then have "SendAudioFrame env (take 27 input) c1 = c1" by (simp add: SendAudioFrame_def gone_def)
    with 1(1) [OF False c1(2), of "count + 1"] c1 False show ?thesis by (simp add: stream_frames.simps [of _ _ _ input])
  qed
qed

text \<open>The stream, with whatever completes beside it: all frames are sent, or those before the first
  receive error.\<close>

definition streamed :: "nat \<Rightarrow> 'ep \<Rightarrow> nat \<Rightarrow> bool \<Rightarrow> nat \<Rightarrow> 'ep client \<Rightarrow> bool" where
  "streamed n ep frames undisturbed m c \<longleftrightarrow>
    (if c_state c = CONNECTED then in_call (n + m) c \<and> m = frames \<and> c_serverEndpoint c = ep
     else gone c \<and> m \<le> frames \<and> \<not> undisturbed)"

lemma stream_frames_sends:
  assumes "in_call n c" "\<forall>k. list_all completion (io k)"
  shows "\<exists>c' m. stream_frames env io count input c = Inr c' \<and>
    streamed n (c_serverEndpoint c) (length (frames_of input)) (\<forall>k. list_all background (io k)) m c' \<and>
    voice_only host (datagrams (actions c')) = voice_only host (datagrams (actions c)) @
      voice_packets (host_order env) (c_serverEndpoint c) n (map (\<lambda>f. (DMR_AUDIO_FRAME, f)) (take m (frames_of input)))"
  using assms(1)
proof (induction input arbitrary: n count c rule: frames_of.induct)
  case (1 input)
  show ?case
  proof (cases "length input < 27")
    case True
    with 1 show ?thesis
      by (simp add: stream_frames.simps [of _ _ _ input] frames_of.simps [of input] streamed_def in_call_def)
  next
    case False
    note unfolded = stream_frames.simps [of _ _ _ input] frames_of.simps [of input]
    obtain c1 where c1: "run env (io count) c = Inr c1" "if list_all background (io count) then same_call c c1
        else gone c1 \<and> (\<forall>host. voice_only host (datagrams (actions c1)) = voice_only host (datagrams (actions c)))"
      using completions_in_call [of "io count" c env] assms(2) 1(2) by (auto simp: in_call_def)
    show ?thesis
    proof (cases "list_all background (io count)")
      case True
      with c1(2) have same: "same_call c c1" by simp
      note sent = SendAudioFrame_in_call [OF same_call_in_call [OF same 1(2)], of env "take 27 input"]
      obtain c' m where "stream_frames env io (count + 1) (drop 27 input) (SendAudioFrame env (take 27 input) c1) = Inr c'"
        "streamed (Suc n) (c_serverEndpoint c1) (length (frames_of (drop 27 input)))
          (\<forall>k. list_all background (io k)) m c'"
        "voice_only host (datagrams (actions c')) = voice_only host (datagrams (actions c1)) @
          voice_packets (host_order env) (c_serverEndpoint c1) n [(DMR_AUDIO_FRAME, take 27 input)] @
          voice_packets (host_order env) (c_serverEndpoint c1) (Suc n)
            (map (\<lambda>f. (DMR_AUDIO_FRAME, f)) (take m (frames_of (drop 27 input))))"
        using 1(1) [OF False sent(1), where count = "count + 1"] sent(2,3) by auto
      with c1(1) same False show ?thesis
        by (intro exI [of _ c'] exI [of _ "Suc m"]) (auto simp: unfolded same_call_def streamed_def split: if_splits)
    next
      case gone: False
      with c1(2) have g: "gone c1"
        "voice_only host (datagrams (actions c1)) = voice_only host (datagrams (actions c))" by simp_all
      then have "SendAudioFrame env (take 27 input) c1 = c1" by (simp add: SendAudioFrame_def gone_def)
      moreover obtain c2 where "stream_frames env io (count + 1) (drop 27 input) c1 = Inr c2" "gone c2"
        "datagrams (actions c2) = datagrams (actions c1)"
        using stream_frames_gone [OF g(1) assms(2)] by blast
      moreover have "\<not> (\<forall>k. list_all background (io k))" using gone by blast
      ultimately show ?thesis using c1(1) g(2) False
        by (intro exI [of _ c2] exI [of _ 0]) (simp add: unfolded streamed_def gone_def)
    qed
  qed
qed

text \<open>The packets of a transmission that ends after \<open>m\<close> frames, and those of a whole one.\<close>

definition part_packets :: "u32 \<Rightarrow> u32 \<Rightarrow> bytes \<Rightarrow> nat \<Rightarrow> bool \<Rightarrow> (u16 \<times> bytes) list" where
  "part_packets srcId groupId input m whole =
    replicate 3 (DMR_DATA_BASE + 1, voice_header srcId groupId True) @
    map (\<lambda>f. (DMR_AUDIO_FRAME, f)) (take m (frames_of input)) @ (if whole then [(DMR_DATA_BASE + 2, [])] else [])"

definition call_packets :: "u32 \<Rightarrow> u32 \<Rightarrow> bytes \<Rightarrow> (u16 \<times> bytes) list" where
  "call_packets srcId groupId input =
    replicate 3 (DMR_DATA_BASE + 1, voice_header srcId groupId True) @
    map (\<lambda>f. (DMR_AUDIO_FRAME, f)) (frames_of input) @ [(DMR_DATA_BASE + 2, [])]"

lemma transmit_sends:
  assumes "c_state c = CONNECTED" "socket_open c" "\<forall>k. list_all completion (io k)"
  shows "\<exists>c' m. transmit env io srcId groupId input c = Inr c' \<and>
    (if c_state c' = CONNECTED then m = length input div 27
     else c_state c' = DISCONNECTED \<and> m \<le> length input div 27 \<and> \<not> (\<forall>k. list_all background (io k))) \<and>
    voice_only host (datagrams (actions c')) = voice_only host (datagrams (actions c)) @
      voice_packets (host_order env) (c_serverEndpoint c) 0
        (part_packets srcId groupId input m (c_state c' = CONNECTED))"
proof -
  let ?c1 = "StartVoiceCall env srcId groupId True c"
  note start = StartVoiceCall_packets [OF assms(1,2), of env srcId groupId True]
  have v1: "voice_only host (datagrams (actions ?c1)) = voice_only host (datagrams (actions c)) @
      voice_packets (host_order env) (c_serverEndpoint c) 0
        (replicate 3 (DMR_DATA_BASE + 1, voice_header srcId groupId True))"
    by (simp only: start(2) voice_only_append voice_only_voice)
  obtain c2 m where 2: "stream_frames env io 0 input ?c1 = Inr c2"
    "streamed 3 (c_serverEndpoint c) (length input div 27) (\<forall>k. list_all background (io k)) m c2"
    "voice_only host (datagrams (actions c2)) = voice_only host (datagrams (actions ?c1)) @
      voice_packets (host_order env) (c_serverEndpoint c) 3 (map (\<lambda>f. (DMR_AUDIO_FRAME, f)) (take m (frames_of input)))"
    using stream_frames_sends [OF start(1) assms(3), of env 0 input host] start(3) by (auto simp: length_frames_of)
  have run: "transmit env io srcId groupId input c = Inr (EndVoiceCall env c2)"
    using 2(1) by (simp add: transmit_def)
  show ?thesis
  proof (cases "c_state c2 = CONNECTED")
    case True
    with 2(2) have c2: "in_call (3 + m) c2" "m = length input div 27" "c_serverEndpoint c2 = c_serverEndpoint c"
      by (auto simp: streamed_def)
    note stop = in_call_TransmitRaw [OF c2(1), of env "DMR_DATA_BASE + 2" "[]"]
    have "EndVoiceCall env c2 = (TransmitRaw env (DMR_DATA_BASE + 2) REAL_TIME_1 [] c2)\<lparr>c_inCall := False\<rparr>"
      using c2(1) by (simp add: EndVoiceCall_def in_call_def)
    moreover have "voice_only host (datagrams (actions (TransmitRaw env (DMR_DATA_BASE + 2) REAL_TIME_1 [] c2))) =
        voice_only host (datagrams (actions c2)) @ voice_packets (host_order env) (c_serverEndpoint c2)
          (3 + m) [(DMR_DATA_BASE + 2, [])]"
      by (simp only: stop(2) voice_only_append voice_only_voice)
    ultimately show ?thesis using run True c2 2(3) v1
      by (intro exI [of _ "EndVoiceCall env c2"] exI [of _ m])
        (simp add: part_packets_def voice_packets_append length_frames_of del: voice_packets_simps)
  next
    case False
    with 2(2) have c2: "c_state c2 = DISCONNECTED" "m \<le> length input div 27" "\<not> (\<forall>k. list_all background (io k))"
      by (simp_all add: streamed_def gone_def)
    then have "EndVoiceCall env c2 = c2" by (simp add: EndVoiceCall_def)
    with run c2 2(3) v1 show ?thesis
      by (intro exI [of _ c2] exI [of _ m])
        (simp add: part_packets_def voice_packets_append del: voice_packets_simps)
  qed
qed

section \<open>The recorder\<close>

lemma recorded_append [simp]: "recorded (as @ bs) = recorded as @ recorded bs"
  by (induction as rule: recorded.induct) simp_all

definition listening :: "'ep \<Rightarrow> 'ep client \<Rightarrow> bool" where
  "listening ep r \<longleftrightarrow> c_state r = CONNECTED \<and> hooks r onAudioFrame \<and>
    length (c_receiveBuffer r) = 1024 \<and> c_serverEndpoint r = ep"

text \<open>The part of a call that a recorder keeps.\<close>

definition audio_of :: "(u16 \<times> bytes) list \<Rightarrow> bytes" where
  "audio_of tps = concat (map snd (filter (\<lambda>(t, p). t = DMR_AUDIO_FRAME) tps))"

lemma recorder_step:
  assumes "listening ep r" "t \<in> {DMR_DATA_BASE + 1, DMR_DATA_BASE + 2, DMR_AUDIO_FRAME}" "length p \<le> 1006"
  shows "\<exists>r'. exec env (Received None (packet_bytes host \<lparr>h_type = t, h_flags = REAL_TIME_1, h_number = n,
      h_length = of_nat (length p)\<rparr> p) ep) r = Inr r' \<and> listening ep r' \<and>
    recorded (actions r') = recorded (actions r) @ audio_of [(t, p)]"
proof -
  let ?h = "\<lparr>h_type = t, h_flags = REAL_TIME_1, h_number = n, h_length = of_nat (length p)\<rparr>"
  let ?pkt = "packet_bytes host ?h p" and ?r = "arrive (packet_bytes host ?h p) ep r"
  have "length ?pkt = 18 + length p" by (simp add: packet_bytes_def header.length_encode)
  then have fits: "fits r ?pkt = ?pkt" "?pkt \<noteq> []" using assms(1,3) by (auto simp: fits_def listening_def)
  have "split_packet (host_order env) ?pkt = Some (?h, p)"
    using assms(3) by (intro split_packet_bytes) (simp add: unat_length_u16)
  then have "processed env ?pkt ?r = dispatched env ?h p ?r" by (simp add: processed_def)
  then have run: "exec env (Received None ?pkt ep) r = Inr (StartReceiveLoop (dispatched env ?h p ?r))"
    using fits assms(1) by (simp add: exec_Received listening_def del: exec.simps)
  have hook: "dispatched env ?h p ?r =
      (if t = DMR_DATA_BASE + 1 then projr (handle_voice_header p ?r)
       else if t = DMR_DATA_BASE + 2 then call onVoiceTerminator OnVoiceTerminator ?r
       else call onAudioFrame (OnAudioFrame \<lparr>sequenceNumber = n, ambeData = p\<rparr>) ?r)"
    using assms(2) by (auto simp: dispatched_def dispatch_types)
  have ne: "DMR_DATA_BASE + 1 \<noteq> DMR_AUDIO_FRAME" "DMR_DATA_BASE + 2 \<noteq> DMR_AUDIO_FRAME"
    by (simp_all add: message_type_defs)
  have "listening ep (StartReceiveLoop (dispatched env ?h p ?r))"
    using assms(1,2) by (auto simp: hook listening_def StartReceiveLoop_def handle_voice_header_total)
  moreover have "recorded (actions (StartReceiveLoop (dispatched env ?h p ?r))) =
      recorded (actions r) @ audio_of [(t, p)]"
    using assms(1,2) ne
    by (auto simp: hook listening_def StartReceiveLoop_def handle_voice_header_total audio_of_def called_def)
  ultimately show ?thesis using run by blast
qed

lemma recorder_run:
  assumes "listening ep r"
    "list_all (\<lambda>(t, p). t \<in> {DMR_DATA_BASE + 1, DMR_DATA_BASE + 2, DMR_AUDIO_FRAME} \<and> length p \<le> 1006) tps"
  shows "\<exists>r'. run env (map (\<lambda>(p, _). Received None p ep) (voice_packets host ep' n tps)) r = Inr r' \<and>
    listening ep r' \<and> recorded (actions r') = recorded (actions r) @ audio_of tps"
  using assms
proof (induction tps arbitrary: n r)
  case Nil
  then show ?case by (simp add: audio_of_def)
next
  case (Cons tp tps)
  obtain t p where tp: "tp = (t, p)" by (cases tp)
  with Cons.prems obtain r1 where r1: "exec env (Received None (packet_bytes host \<lparr>h_type = t,
      h_flags = REAL_TIME_1, h_number = of_nat n, h_length = of_nat (length p)\<rparr> p) ep) r = Inr r1"
    "listening ep r1" "recorded (actions r1) = recorded (actions r) @ audio_of [(t, p)]"
    using recorder_step [of ep r t p env host "of_nat n"] by auto
  from Cons.IH [OF r1(2), of "Suc n"] Cons.prems(2) obtain r2 where
    "run env (map (\<lambda>(p, _). Received None p ep) (voice_packets host ep' (Suc n) tps)) r1 = Inr r2"
    "listening ep r2" "recorded (actions r2) = recorded (actions r1) @ audio_of tps" by auto
  with r1 tp show ?case by (simp add: audio_of_def del: exec.simps)
qed

lemma audio_of_part:
  "m \<le> length input div 27 \<Longrightarrow> audio_of (part_packets srcId groupId input m whole) = take (27 * m) input"
proof -
  have "DMR_DATA_BASE + 1 \<noteq> DMR_AUDIO_FRAME" "DMR_DATA_BASE + 2 \<noteq> DMR_AUDIO_FRAME"
    by (simp_all add: message_type_defs)
  moreover assume "m \<le> length input div 27"
  ultimately show ?thesis
    by (simp add: audio_of_def part_packets_def filter_map comp_def concat_take_frames numeral_3_eq_3 min_def)
qed

lemma part_packets_ok:
  "list_all (\<lambda>(t, p). t \<in> {DMR_DATA_BASE + 1, DMR_DATA_BASE + 2, DMR_AUDIO_FRAME} \<and> length p \<le> 1006)
    (part_packets srcId groupId input m whole)"
  using length_frames by (auto simp: part_packets_def list_all_iff dest!: in_set_takeD)

section \<open>Ways to end\<close>

lemma stoul_no_digit:
  assumes "list_all (\<lambda>b. \<not> isdigit b) str"
  shows "stoul str = Inl Terminate"
proof -
  have none: "takeWhile isdigit s = []" if "set s \<subseteq> set str" for s
    using that assms by (cases s) (auto simp: list_all_iff)
  have "set (dropWhile isspace str) \<subseteq> set str" by (auto dest: set_dropWhileD)
  moreover have "set (tl s) \<subseteq> set s" for s :: bytes by (cases s) auto
  ultimately have "set (dropWhile isspace str) \<subseteq> set str" "set (tl (dropWhile isspace str)) \<subseteq> set str"
    by blast+
  then show ?thesis by (simp add: stoul_def Let_def none)
qed

lemma stoul_digits:
  assumes "list_all isdigit str" "str \<noteq> []"
  shows "stoul str = (if number_of str < 2 ^ 64 then Inr (of_nat (number_of str)) else Inl Terminate)"
proof -
  obtain b bs where str: "str = b # bs" "isdigit b" using assms by (cases str) auto
  then have "0x30 \<le> b" by (simp add: isdigit_def)
  then have "\<not> isspace b" "b \<noteq> 0x2D" "b \<noteq> 0x2B"
    using order_trans [of "0x30" b "0x0D"] by (auto simp: isspace_def)
  moreover have digits: "takeWhile isdigit bs = bs"
    using assms(1) str by (simp add: takeWhile_eq_all_conv list_all_iff)
  ultimately show ?thesis using str by (simp add: stoul_def Let_def digits)
qed

text \<open>A client that a program has left behind as it should.\<close>

definition finished :: "'ep client \<Rightarrow> bool" where
  "finished d \<longleftrightarrow> c_state d = DISCONNECTED \<and> \<not> ioThread_joinable d"

lemma finished_destroy [simp]: "finished (destroy env c)"
  by (simp add: finished_def destroy_def)

text \<open>The login of a program, by the answer of \<open>ConnectSync\<close>.\<close>

lemma connect_or_fail_cases:
  assumes "list_all completion io" "\<not> ioThread_joinable c"
  obtains c1 r where "run env (ConnectCalled throws a p pw 5000 # io) c = Inr c1"
    "ConnectSync throws a p pw 5000 [c1] c = Inr r"
    "case r of
       None \<Rightarrow> connect_or_fail env throws io a p pw continue c = Inr (Blocked c1)
     | Some err \<Rightarrow> if err = SUCCESS then connect_or_fail env throws io a p pw continue c = continue c1
         else \<exists>d. connect_or_fail env throws io a p pw continue c = Inr (Exit 1 (Some d)) \<and> finished d"
proof -
  obtain e c0 where c0: "Connect throws a p pw 5000 c = Inr (e, c0)"
    using assms(2) Connect_aborts [of throws a p pw 5000 c] by (cases "Connect throws a p pw 5000 c") auto
  obtain c1 where c1: "run env io c0 = Inr c1" using completions_run [OF assms(1)] by blast
  show thesis
  proof (rule that)
    show "run env (ConnectCalled throws a p pw 5000 # io) c = Inr c1" using c0 c1 by simp
    show "ConnectSync throws a p pw 5000 [c1] c = Inr (if e \<noteq> SUCCESS then Some e else wait_connected [c1])"
      using c0 by (simp add: ConnectSync_def)
  qed (use c0 c1 in \<open>auto simp: connect_or_fail_def simp del: wait_connected.simps split: option.split\<close>)
qed

lemma stream_returns:
  assumes "\<forall>k. list_all completion (io k)"
  shows "\<exists>c'. stream_frames env io count input c = Inr c'"
proof (induction input arbitrary: count c rule: frames_of.induct)
  case (1 input)
  obtain c1 where "run env (io count) c = Inr c1" using completions_run assms by blast
  with 1 show ?case by (cases "length input < 27") (simp_all add: stream_frames.simps [of _ _ _ input])
qed

lemma transmit_returns:
  "\<forall>k. list_all completion (io k) \<Longrightarrow> \<exists>c'. transmit env io srcId groupId input c = Inr c'"
  using stream_returns [of io env 0 input "StartVoiceCall env srcId groupId True c"] by (auto simp: transmit_def)

lemma signals_stop: "fold SignalHandler signals running \<longleftrightarrow> running \<and> SIGINT \<notin> set signals"
  by (induction signals arbitrary: running) (auto simp: SignalHandler_def)

lemma monitor_returns:
  "list_all (\<lambda>(signals, events). list_all completion events) ticks \<Longrightarrow>
    \<exists>c'. monitor env running ticks c = Inr (\<not> running \<or> (\<exists>(signals, events) \<in> set ticks. SIGINT \<in> set signals), c')"
proof (induction ticks arbitrary: running c)
  case (Cons tick ticks)
  obtain signals events where tick: "tick = (signals, events)" by (cases tick)
  with Cons.prems obtain c1 where c1: "run env events c = Inr c1" using completions_run [of events] by auto
  from Cons.IH [of "fold SignalHandler signals running" c1] Cons.prems tick c1 show ?case
    by (cases running) (auto simp: signals_stop)
qed simp

text \<open>A numeric argument, once it has been accepted.\<close>

definition argument :: "bytes list \<Rightarrow> nat \<Rightarrow> 'a::len word" where
  "argument argv i = ucast (projr (stoul (argv ! i)))"

lemma stoul_aborts: "stoul str = Inl a \<Longrightarrow> a = Terminate"
  by (auto simp: stoul_def Let_def split: if_splits)

lemma stoul_then: "(\<And>n. f n = Inl Terminate) \<Longrightarrow> andThen (stoul str) f = Inl Terminate"
  using stoul_aborts [of str] by (cases "stoul str") auto

lemma stoul_cases: "stoul (argv ! i) \<noteq> Inl Terminate \<Longrightarrow> \<exists>n. stoul (argv ! i) = Inr n \<and> argument argv i = ucast n"
  using stoul_aborts [of "argv ! i"] by (cases "stoul (argv ! i)") (auto simp: argument_def)

lemma new_client_unjoined [simp]: "\<not> ioThread_joinable (new_client d desc ep hks)"
  by (simp add: new_client_def)

lemma player_runs:
  assumes "list_all completion connecting" "list_all completion pausing" "\<forall>k. list_all completion (io k)"
    and "7 \<le> length argv" "list_all (\<lambda>i. stoul (argv ! i) \<noteq> Inl Terminate) [1, 4, 5, 6]"
  shows "\<exists>c r. run env (ConnectCalled throws (argv ! 3) (argument argv 4) (argv ! 2) 5000 # connecting)
       (new_client (argument argv 1) play_description ep play_hooks) = Inr c \<and>
     ConnectSync throws (argv ! 3) (argument argv 4) (argv ! 2) 5000 [c]
       (new_client (argument argv 1) play_description ep play_hooks) = Inr r \<and>
     (case r of
        None \<Rightarrow> play_audio env ep throws connecting pausing io argv input = Inr (Blocked c)
      | Some err \<Rightarrow> \<exists>d. play_audio env ep throws connecting pausing io argv input =
          Inr (Exit (if err = SUCCESS then 0 else 1) (Some d)) \<and> finished d)"
proof -
  define rest where "rest = (\<lambda>c. let c = Subscribe env (argument argv 6) c
    in andThen (run env pausing c) (\<lambda>c. andThen (transmit env io (argument argv 5) (argument argv 6) input c) (\<lambda>c.
       let c = Disconnect env App c in Inr (Exit 0 (Some (destroy env c))))))"
  let ?c0 = "new_client (argument argv 1) play_description ep play_hooks"
  have play: "play_audio env ep throws connecting pausing io argv input =
      connect_or_fail env throws connecting (argv ! 3) (argument argv 4) (argv ! 2) rest ?c0"
    using assms(4,5) stoul_cases [of argv 1] stoul_cases [of argv 4] stoul_cases [of argv 5] stoul_cases [of argv 6]
    by (auto simp: play_audio_def rest_def Let_def argument_def)
  have rest: "\<exists>d. rest c = Inr (Exit 0 (Some d)) \<and> finished d" for c
  proof -
    obtain c2 where c2: "run env pausing (Subscribe env (argument argv 6) c) = Inr c2"
      using completions_run [OF assms(2)] by blast
    obtain c3 where "transmit env io (argument argv 5) (argument argv 6) input c2 = Inr c3"
      using transmit_returns [OF assms(3)] by blast
    with c2 show ?thesis by (simp add: rest_def Let_def)
  qed
  obtain c r where "run env (ConnectCalled throws (argv ! 3) (argument argv 4) (argv ! 2) 5000 # connecting) ?c0 = Inr c"
    "ConnectSync throws (argv ! 3) (argument argv 4) (argv ! 2) 5000 [c] ?c0 = Inr r"
    "case r of
       None \<Rightarrow> play_audio env ep throws connecting pausing io argv input = Inr (Blocked c)
     | Some err \<Rightarrow> if err = SUCCESS then play_audio env ep throws connecting pausing io argv input = rest c
         else \<exists>d. play_audio env ep throws connecting pausing io argv input = Inr (Exit 1 (Some d)) \<and> finished d"
    unfolding play by (rule connect_or_fail_cases [OF assms(1) new_client_unjoined])
  then show ?thesis using rest [of c]
    by (intro exI [of _ c] exI [of _ r]) (auto split: option.splits if_splits)
qed

lemma recorder_runs:
  assumes "list_all completion connecting" "list_all completion leaving"
    and "list_all (\<lambda>(signals, events). list_all completion events) ticks"
    and "7 \<le> length argv" "list_all (\<lambda>i. stoul (argv ! i) \<noteq> Inl Terminate) [1, 4, 5]" "is_open"
  shows "\<exists>c r. run env (ConnectCalled throws (argv ! 3) (argument argv 4) (argv ! 2) 5000 # connecting)
       (new_client (argument argv 1) record_description ep record_hooks) = Inr c \<and>
     ConnectSync throws (argv ! 3) (argument argv 4) (argv ! 2) 5000 [c]
       (new_client (argument argv 1) record_description ep record_hooks) = Inr r \<and>
     (case r of
        None \<Rightarrow> record_audio env ep throws connecting early ticks leaving is_open argv = Inr (Blocked c)
      | Some err \<Rightarrow> \<exists>d. record_audio env ep throws connecting early ticks leaving is_open argv = Inr
          (if err \<noteq> SUCCESS then Exit 1 (Some d)
           else if SIGINT \<in> set early \<or> (\<exists>(signals, events) \<in> set ticks. SIGINT \<in> set signals) then Exit 0 (Some d)
           else Blocked d) \<and>
          (if err \<noteq> SUCCESS \<or> SIGINT \<in> set early \<or> (\<exists>(signals, events) \<in> set ticks. SIGINT \<in> set signals)
           then finished d else True))"
proof -
  define rest where "rest = (\<lambda>c. let c = Subscribe env (argument argv 5) c
    in andThen (monitor env (fold SignalHandler early True) ticks c) (\<lambda>(interrupted, c).
       if \<not> interrupted then Inr (Blocked c)
       else let c = Unsubscribe env (argument argv 5) c
         in andThen (run env leaving c) (\<lambda>c.
            let c = Disconnect env App c
            in Inr (Exit 0 (Some (destroy env c))))))"
  let ?c0 = "new_client (argument argv 1) record_description ep record_hooks"
  let ?int = "SIGINT \<in> set early \<or> (\<exists>(signals, events) \<in> set ticks. SIGINT \<in> set signals)"
  have recording: "record_audio env ep throws connecting early ticks leaving is_open argv =
      connect_or_fail env throws connecting (argv ! 3) (argument argv 4) (argv ! 2) rest ?c0"
    using assms(4-6) stoul_cases [of argv 1] stoul_cases [of argv 4] stoul_cases [of argv 5]
    by (auto simp: record_audio_def rest_def Let_def argument_def cong: if_cong)
  have rest: "\<exists>d. rest c = Inr (if ?int then Exit 0 (Some d) else Blocked d) \<and> (if ?int then finished d else True)" for c
  proof -
    obtain c2 where c2: "monitor env (fold SignalHandler early True) ticks (Subscribe env (argument argv 5) c) =
        Inr (?int, c2)"
      using monitor_returns [OF assms(3), of env "fold SignalHandler early True"] by (auto simp: signals_stop)
    obtain c3 where "run env leaving (Unsubscribe env (argument argv 5) c2) = Inr c3"
      using completions_run [OF assms(2)] by blast
    with c2 show ?thesis by (simp add: rest_def Let_def)
  qed
  obtain c r where cr: "run env (ConnectCalled throws (argv ! 3) (argument argv 4) (argv ! 2) 5000 # connecting) ?c0 = Inr c"
    "ConnectSync throws (argv ! 3) (argument argv 4) (argv ! 2) 5000 [c] ?c0 = Inr r"
    "case r of
       None \<Rightarrow> record_audio env ep throws connecting early ticks leaving is_open argv = Inr (Blocked c)
     | Some err \<Rightarrow> if err = SUCCESS then record_audio env ep throws connecting early ticks leaving is_open argv = rest c
         else \<exists>d. record_audio env ep throws connecting early ticks leaving is_open argv = Inr (Exit 1 (Some d)) \<and> finished d"
    unfolding recording by (rule connect_or_fail_cases [OF assms(1) new_client_unjoined])
  then show ?thesis using rest [of c]
    by (intro exI [of _ c] exI [of _ r]) (auto split: option.splits if_splits)
qed

text \<open>A recorder on its own connection.\<close>

definition sample_recorder :: "nat client" where
  "sample_recorder = (new_client 268999 record_description 7 record_hooks)\<lparr>c_state := CONNECTED,
     socket_open := True, ioThread_joinable := True\<rparr>"

lemma sample_listening: "listening 7 sample_recorder"
  by (simp add: listening_def sample_recorder_def new_client_def record_hooks_def)

section \<open>Properties\<close>

text \<open>C2. A recording is the stream that was played, as far as it was sent. Beside the call the
  player's background thread handles any completions: keep-alives, datagrams, late timers, receive
  errors. Delivered in order and without loss to a client that records, the voice packets sent
  append to the file the player's standard input up to an incomplete last frame of fewer than 27
  bytes; if a receive error ends the session, the frames sent before it.\<close>

theorem Recording_is_the_stream:
  assumes "c_state c = CONNECTED" "socket_open c" "\<forall>k. list_all completion (io k)"
    and "listening ep r"
  shows "\<exists>c' pkts r' m. transmit env io srcId groupId input c = Inr c' \<and>
    voice_only host (datagrams (actions c')) = voice_only host (datagrams (actions c)) @ pkts \<and>
    run env' (map (\<lambda>(p, _). Received None p ep) pkts) r = Inr r' \<and>
    recorded (actions r') = recorded (actions r) @ take (27 * m) input \<and>
    (if c_state c' = CONNECTED then m = length input div 27
     else c_state c' = DISCONNECTED \<and> m \<le> length input div 27 \<and> \<not> (\<forall>k. list_all background (io k)))"
proof -
  obtain c' m where c': "transmit env io srcId groupId input c = Inr c'"
    "if c_state c' = CONNECTED then m = length input div 27
     else c_state c' = DISCONNECTED \<and> m \<le> length input div 27 \<and> \<not> (\<forall>k. list_all background (io k))"
    "voice_only host (datagrams (actions c')) = voice_only host (datagrams (actions c)) @
      voice_packets (host_order env) (c_serverEndpoint c) 0
        (part_packets srcId groupId input m (c_state c' = CONNECTED))"
    using transmit_sends [OF assms(1-3)] by blast
  have "m \<le> length input div 27" using c'(2) by (auto split: if_splits)
  with recorder_run [OF assms(4) part_packets_ok] audio_of_part obtain r' where
    "run env' (map (\<lambda>(p, _). Received None p ep) (voice_packets (host_order env) (c_serverEndpoint c) 0
      (part_packets srcId groupId input m (c_state c' = CONNECTED)))) r = Inr r'"
    "recorded (actions r') = recorded (actions r) @ take (27 * m) input"
    by metis
  with c' show ?thesis by blast
qed

theorem Recording_is_the_stream_witness:
  "\<exists>c' (pkts :: (bytes \<times> nat) list) r'. transmit calm (\<lambda>_. [KeepAliveTick None]) 1 91 (replicate 60 0xAB) connected = Inr c' \<and>
    run calm (map (\<lambda>(p, _). Received None p 7) pkts) sample_recorder = Inr r' \<and>
    recorded (actions r') = recorded (actions sample_recorder) @ replicate 54 0xAB"
proof -
  have bg: "\<forall>k :: nat. list_all completion [KeepAliveTick None]" "\<forall>k :: nat. list_all background [KeepAliveTick None]"
    by simp_all
  have "take (27 * (length (replicate 60 (0xAB :: u8)) div 27)) (replicate 60 0xAB) = replicate 54 (0xAB :: u8)"
    by (simp only: length_replicate take_replicate) simp
  with Recording_is_the_stream [OF connected_run(2,3) bg(1) sample_listening, of calm 1 91
      "replicate 60 0xAB" Little calm] bg(2)
  show ?thesis by (metis (no_types, lifting))
qed

text \<open>C40. How the two programs end, whatever completes on their background thread. With fewer than
  six arguments they end with status 1. Otherwise they end in \<open>std::terminate\<close> exactly if one of
  their numbers (client number, port and group, for the player also the source) is none that
  \<open>std::stoul\<close> accepts; the recorder then ends with status 1 if its file cannot be opened. From there
  on \<open>ConnectSync\<close> decides: the programs wait as long as it does, end with status 1 if it fails, and
  if it succeeds the player ends with status 0, the recorder as soon as it is interrupted. Whenever
  they end, their client is disconnected and its thread joined.\<close>

theorem Programs_end:
  assumes "list_all completion connecting" "list_all completion pausing" "\<forall>k. list_all completion (io k)"
    and "list_all (\<lambda>(signals, events). list_all completion events) ticks" "list_all completion leaving"
  shows "(if length argv < 7 then play_audio env ep throws connecting pausing io argv input = Inr (Exit 1 None)
     else if list_ex (\<lambda>i. stoul (argv ! i) = Inl Terminate) [1, 4, 5, 6] then
       play_audio env ep throws connecting pausing io argv input = Inl Terminate
     else \<exists>c r. run env (ConnectCalled throws (argv ! 3) (argument argv 4) (argv ! 2) 5000 # connecting)
         (new_client (argument argv 1) play_description ep play_hooks) = Inr c \<and>
       ConnectSync throws (argv ! 3) (argument argv 4) (argv ! 2) 5000 [c]
         (new_client (argument argv 1) play_description ep play_hooks) = Inr r \<and>
       (case r of
          None \<Rightarrow> play_audio env ep throws connecting pausing io argv input = Inr (Blocked c)
        | Some err \<Rightarrow> \<exists>d. play_audio env ep throws connecting pausing io argv input =
            Inr (Exit (if err = SUCCESS then 0 else 1) (Some d)) \<and> finished d)) \<and>
    (if length argv < 7 then record_audio env ep throws connecting early ticks leaving is_open argv = Inr (Exit 1 None)
     else if list_ex (\<lambda>i. stoul (argv ! i) = Inl Terminate) [1, 4, 5] then
       record_audio env ep throws connecting early ticks leaving is_open argv = Inl Terminate
     else if \<not> is_open then
       record_audio env ep throws connecting early ticks leaving is_open argv = Inr (Exit 1 None)
     else \<exists>c r. run env (ConnectCalled throws (argv ! 3) (argument argv 4) (argv ! 2) 5000 # connecting)
         (new_client (argument argv 1) record_description ep record_hooks) = Inr c \<and>
       ConnectSync throws (argv ! 3) (argument argv 4) (argv ! 2) 5000 [c]
         (new_client (argument argv 1) record_description ep record_hooks) = Inr r \<and>
       (case r of
          None \<Rightarrow> record_audio env ep throws connecting early ticks leaving is_open argv = Inr (Blocked c)
        | Some err \<Rightarrow> \<exists>d. record_audio env ep throws connecting early ticks leaving is_open argv = Inr
            (if err \<noteq> SUCCESS then Exit 1 (Some d)
             else if SIGINT \<in> set early \<or> (\<exists>(signals, events) \<in> set ticks. SIGINT \<in> set signals) then Exit 0 (Some d)
             else Blocked d) \<and>
            (if err \<noteq> SUCCESS \<or> SIGINT \<in> set early \<or> (\<exists>(signals, events) \<in> set ticks. SIGINT \<in> set signals)
             then finished d else True))) \<and>
    (if list_all (\<lambda>b. \<not> isdigit b) str then stoul str = Inl Terminate
     else if list_all isdigit str then
       stoul str = (if number_of str < 2 ^ 64 then Inr (of_nat (number_of str)) else Inl Terminate)
     else True)"
  (is "?player \<and> ?recorder \<and> ?numbers")
proof (intro conjI)
  consider "length argv < 7" | "7 \<le> length argv" "list_ex (\<lambda>i. stoul (argv ! i) = Inl Terminate) [1, 4, 5, 6]"
    | "7 \<le> length argv" "list_all (\<lambda>i. stoul (argv ! i) \<noteq> Inl Terminate) [1, 4, 5, 6]"
    by (cases "length argv < 7") (auto simp: not_less)
  then show ?player
  proof cases
    case 2
    then show ?thesis by (auto simp: play_audio_def Let_def stoul_then)
  next
    case 3
    from player_runs [OF assms(1-3) this, of env throws ep input] 3 show ?thesis by simp
  qed (simp add: play_audio_def)
  consider "length argv < 7" | "7 \<le> length argv" "list_ex (\<lambda>i. stoul (argv ! i) = Inl Terminate) [1, 4, 5]"
    | "7 \<le> length argv" "list_all (\<lambda>i. stoul (argv ! i) \<noteq> Inl Terminate) [1, 4, 5]"
    by (cases "length argv < 7") (auto simp: not_less)
  then show ?recorder
  proof cases
    case 2
    then show ?thesis by (auto simp: record_audio_def Let_def stoul_then)
  next
    case 3
    show ?thesis
    proof (cases is_open)
      case True
      from recorder_runs [OF assms(1,5,4) 3 True, of env throws ep early] 3 True show ?thesis by simp
    next
      case False
      with 3 stoul_cases [of argv 1] stoul_cases [of argv 4] stoul_cases [of argv 5]
      show ?thesis by (auto simp: record_audio_def Let_def)
    qed
  qed (simp add: record_audio_def)
  show ?numbers using stoul_no_digit [of str] stoul_digits [of str] by (cases str) auto
qed

theorem Programs_end_witness:
  "\<exists>c r. run calm [ConnectCalled (\<lambda>_. None) [] 6 [0x70] 5000, Resolved None [] None None]
      (new_client 5 play_description (0 :: nat) play_hooks) = Inr c \<and>
    (case r of
       None \<Rightarrow> play_audio calm 0 (\<lambda>_. None) [Resolved None [] None None] [] (\<lambda>_. [])
         [[], [0x35], [0x70], [], [0x36], [0x37], [0x39, 0x31]] [] = Inr (Blocked c)
     | Some err \<Rightarrow> \<exists>d. play_audio calm 0 (\<lambda>_. None) [Resolved None [] None None] [] (\<lambda>_. [])
         [[], [0x35], [0x70], [], [0x36], [0x37], [0x39, 0x31]] [] =
         Inr (Exit (if err = SUCCESS then 0 else 1) (Some d)) \<and> finished d)"
proof -
  have numbers: "stoul [0x35] = Inr 5" "stoul [0x36] = Inr 6" "stoul [0x37] = Inr 7" "stoul [0x39, 0x31] = Inr 91"
    by (simp_all add: stoul_def isspace_def isdigit_def number_of_def)
  let ?argv = "[[], [0x35], [0x70], [], [0x36], [0x37], [0x39, 0x31]] :: bytes list"
  have args: "\<not> length ?argv < 7" "\<not> list_ex (\<lambda>i. stoul (?argv ! i) = Inl Terminate) [1, 4, 5, 6]"
    "argument ?argv 1 = (5 :: u32)" "argument ?argv 4 = (6 :: u16)" "?argv ! 2 = [0x70]" "?argv ! 3 = []"
    by (simp_all add: numbers argument_def)
  have "list_all completion [Resolved None [] None None :: nat event]" "list_all completion ([] :: nat event list)"
    "\<forall>k :: nat. list_all completion ([] :: nat event list)"
    "list_all (\<lambda>(signals :: int list, events). list_all completion events) ([] :: (int list \<times> nat event list) list)"
    by simp_all
  from Programs_end [OF this(1-4) this(2), of ?argv calm 0 "\<lambda>_. None" "[]", THEN conjunct1,
      unfolded args if_not_P [OF args(1)] if_not_P [OF args(2)]]
  show ?thesis by blast
qed

end
