(* ===== verification/Sessions.thy ===== *)
theory Sessions
  imports Handshake Audio_Tools Client_Threads Client_Output
begin

text \<open>
  A whole session of a program, from its start to its end: every datagram that \<open>play_audio\<close>
  sends to the server, from the registration to the close.
\<close>

section \<open>Sending in a session\<close>

text \<open>A connected client that has sent \<open>n\<close> routine packets to the server at \<open>ep\<close>.\<close>

definition at_server :: "'ep \<Rightarrow> u32 \<Rightarrow> 'ep client \<Rightarrow> bool" where
  "at_server ep n c \<longleftrightarrow> c_state c = CONNECTED \<and> socket_open c \<and> c_serverEndpoint c = ep \<and> c_routineSeq c = n"

lemma at_server_TransmitRaw:
  assumes "at_server ep n c"
  shows "at_server ep (if flag AND REAL_TIME_1 \<noteq> 0 then n else n + 1) (TransmitRaw env type flag payload c)"
    "datagrams (actions (TransmitRaw env type flag payload c)) = datagrams (actions c) @
      [(packet_bytes (host_order env) \<lparr>h_type = type, h_flags = flag,
          h_number = (if flag AND REAL_TIME_1 \<noteq> 0 then c_realTimeSeq c else n),
          h_length = of_nat (length payload)\<rparr> payload, ep)]"
  using assms by (simp_all add: at_server_def TransmitRaw_open(3) next_packet_def next_header_def)

section \<open>Jobs in a session\<close>

text \<open>A job is a packet to send, by type, flag and payload. The counters after some jobs.\<close>

type_synonym job = "u16 \<times> u16 \<times> bytes"

definition real_time :: "job \<Rightarrow> bool" where
  "real_time = (\<lambda>(type, flag, payload). flag AND REAL_TIME_1 \<noteq> 0)"

definition voice_jobs :: "job list \<Rightarrow> u32" where
  "voice_jobs jobs = of_nat (length (filter real_time jobs))"

definition routine_jobs :: "job list \<Rightarrow> u32" where
  "routine_jobs jobs = of_nat (length (filter (\<lambda>j. \<not> real_time j) jobs))"

lemma job_counts [simp]:
  "voice_jobs [] = 0" "routine_jobs [] = 0"
  "voice_jobs (js @ ks) = voice_jobs js + voice_jobs ks"
  "routine_jobs (js @ ks) = routine_jobs js + routine_jobs ks"
  by (simp_all add: voice_jobs_def routine_jobs_def)

lemma numbered_packets_append:
  "numbered_packets host ep rt ro (js @ ks) = numbered_packets host ep rt ro js @
    numbered_packets host ep (rt + voice_jobs js) (ro + routine_jobs js) ks"
  by (induction js arbitrary: rt ro)
    (auto simp: voice_jobs_def routine_jobs_def real_time_def ac_simps)

lemma numbered_routine:
  "list_all (\<lambda>j. \<not> real_time j) js \<Longrightarrow> numbered_packets host ep rt ro js = numbered_packets host ep rt' ro js"
  by (induction js arbitrary: ro) (auto simp: real_time_def)

lemma voice_jobs_routine: "list_all (\<lambda>j. \<not> real_time j) js \<Longrightarrow> voice_jobs js = 0"
  by (induction js) (simp_all add: voice_jobs_def)

text \<open>From \<open>c\<close> to \<open>c'\<close> the session has gone on and sent exactly these jobs, each under the next
  number of its counter.\<close>

definition sent_jobs :: "'ep env \<Rightarrow> 'ep client \<Rightarrow> job list \<Rightarrow> 'ep client \<Rightarrow> bool" where
  "sent_jobs env c jobs c' \<longleftrightarrow>
    datagrams (actions c') = datagrams (actions c) @
      numbered_packets (host_order env) (c_serverEndpoint c) (c_realTimeSeq c) (c_routineSeq c) jobs \<and>
    c_realTimeSeq c' = c_realTimeSeq c + voice_jobs jobs \<and> c_routineSeq c' = c_routineSeq c + routine_jobs jobs \<and>
    c_state c' = c_state c \<and> socket_open c' = socket_open c \<and> c_serverEndpoint c' = c_serverEndpoint c \<and>
    c_inCall c' = c_inCall c \<and> c_dmrId c' = c_dmrId c \<and> c_description c' = c_description c"

lemma sent_jobs_refl [simp]: "sent_jobs env c [] c"
  by (simp add: sent_jobs_def)

lemma sent_jobs_trans: "sent_jobs env c js c' \<Longrightarrow> sent_jobs env c' ks c'' \<Longrightarrow> sent_jobs env c (js @ ks) c''"
  by (simp add: sent_jobs_def numbered_packets_append ac_simps)

lemma sent_jobs_act: "datagrams [a] = [] \<Longrightarrow> sent_jobs env c js (act a c') = sent_jobs env c js c'"
  by (simp add: sent_jobs_def)

lemma sent_jobs_TransmitRaw:
  assumes "socket_open c"
  shows "sent_jobs env c [(t, f, p)] (TransmitRaw env t f p c)"
  using assms
  by (simp add: sent_jobs_def TransmitRaw_open(3,4) next_packet_def next_header_def voice_jobs_def
      routine_jobs_def real_time_def)

text \<open>What the background thread sends beside a call: one registration for each tick of the
  keep-alive timer.\<close>

fun ticks :: "'ep event \<Rightarrow> bool" where
  "ticks (KeepAliveTick ec) = (\<not> aborted ec)"
| "ticks _ = False"

definition keep_alives :: "job \<Rightarrow> 'ep event list \<Rightarrow> job list" where
  "keep_alives j es = replicate (length (filter ticks es)) j"

definition keep_alive_of :: "'ep env \<Rightarrow> 'ep client \<Rightarrow> job" where
  "keep_alive_of env c = (KEEP_ALIVE, NONE, registration env (c_dmrId c) (c_description c))"

lemma keep_alive_of_cong: "sent_jobs env c js c' \<Longrightarrow> keep_alive_of env c' = keep_alive_of env c"
  by (simp add: sent_jobs_def keep_alive_of_def)

lemma keep_alives_routine: "list_all (\<lambda>j. \<not> real_time j) (keep_alives (keep_alive_of env c) es)"
  by (simp add: keep_alives_def keep_alive_of_def real_time_def list_all_iff)

lemma processed_sends_nothing:
  assumes "c_state c = CONNECTED"
  shows "sent_jobs env c [] (processed env packet c)"
proof (cases "split_packet (host_order env) packet")
  case (Some hp)
  then obtain h p where hp: "processed env packet c = dispatched env h p c"
    by (cases hp) (simp add: processed_def)
  consider "h_type h = CHALLENGE" | "h_type h = KEEP_ALIVE" | "hook_only c (dispatched env h p c)"
    using dispatched_other by blast
  then show ?thesis using assms
    by cases (auto simp: hp dispatched_simps hook_only_def handle_keep_alive_def sent_jobs_def)
qed (simp add: processed_def)

lemma background_sends:
  assumes "background e" "c_state c = CONNECTED" "socket_open c"
  shows "\<exists>c'. exec env e c = Inr c' \<and> sent_jobs env c (keep_alives (keep_alive_of env c) [e]) c'"
proof (cases e)
  case (KeepAliveTick ec)
  with assms(2,3) sent_jobs_TransmitRaw [OF assms(3), of env KEEP_ALIVE NONE] show ?thesis
    by (simp add: on_keep_alive_def keep_alives_def keep_alive_of_def SendKeepAlive_def StartKeepAliveTimer_def
        sent_jobs_act registration_def)
next
  case (Received ec data sender)
  have arrived: "sent_jobs env c [] (arrive data sender c)" by (simp add: sent_jobs_def)
  have "sent_jobs env c [] (processed env (fits c data) (arrive data sender c))"
    using sent_jobs_trans [OF arrived processed_sends_nothing] assms(2) by simp
  with Received assms arrived show ?thesis
    by (auto simp: exec_Received Let_def aborted_def keep_alives_def StartReceiveLoop_def sent_jobs_act
        simp del: exec.simps split: option.split)
qed (use assms in \<open>auto simp: on_connect_timeout_def on_resolve_def Let_def keep_alives_def sent_jobs_def\<close>)

lemma background_run:
  assumes "list_all background es" "c_state c = CONNECTED" "socket_open c"
  shows "\<exists>c'. run env es c = Inr c' \<and> sent_jobs env c (keep_alives (keep_alive_of env c) es) c'"
  using assms
proof (induction es arbitrary: c)
  case (Cons e es)
  then obtain c1 where c1: "exec env e c = Inr c1" "sent_jobs env c (keep_alives (keep_alive_of env c) [e]) c1"
    using background_sends [of e c env] by auto
  with Cons.prems have "c_state c1 = CONNECTED" "socket_open c1" by (simp_all add: sent_jobs_def)
  with Cons obtain c2 where c2: "run env es c1 = Inr c2" "sent_jobs env c1 (keep_alives (keep_alive_of env c1) es) c2"
    by auto
  have "keep_alives j [e] @ keep_alives j es = keep_alives j (e # es)" for j
    by (simp add: keep_alives_def)
  with c1 c2 sent_jobs_trans [OF c1(2) c2(2)] keep_alive_of_cong [OF c1(2)] show ?case by simp
qed (simp add: keep_alives_def)

section \<open>The call of a program\<close>

text \<open>The jobs of the stream: before each frame the keep-alives that came due.\<close>

fun stream_jobs :: "job \<Rightarrow> (nat \<Rightarrow> 'ep event list) \<Rightarrow> nat \<Rightarrow> bytes list \<Rightarrow> job list" where
  "stream_jobs ka io k [] = []"
| "stream_jobs ka io k (f # fs) =
    keep_alives ka (io k) @ (DMR_AUDIO_FRAME, REAL_TIME_1, f) # stream_jobs ka io (k + 1) fs"

definition call_jobs :: "job \<Rightarrow> (nat \<Rightarrow> 'ep event list) \<Rightarrow> u32 \<Rightarrow> u32 \<Rightarrow> bytes \<Rightarrow> job list" where
  "call_jobs ka io srcId groupId input =
    replicate 3 (DMR_DATA_BASE + 1, REAL_TIME_1, voice_header srcId groupId True) @
    stream_jobs ka io 0 (frames_of input) @ [(DMR_DATA_BASE + 2, REAL_TIME_1, [])]"

lemma stream_frames_jobs:
  assumes "c_state c = CONNECTED" "socket_open c" "c_inCall c" "\<forall>k. list_all background (io k)"
  shows "\<exists>c'. stream_frames env io k input c = Inr c' \<and>
    sent_jobs env c (stream_jobs (keep_alive_of env c) io k (frames_of input)) c'"
  using assms(1-3)
proof (induction input arbitrary: k c rule: frames_of.induct)
  case (1 input)
  note unfolded = stream_frames.simps [of _ _ _ input] frames_of.simps [of input]
  show ?case
  proof (cases "length input < 27")
    case True
    then show ?thesis by (simp add: unfolded)
  next
    case False
    let ?ka = "keep_alive_of env c" and ?f = "take 27 input"
    obtain c1 where c1: "run env (io k) c = Inr c1" "sent_jobs env c (keep_alives ?ka (io k)) c1"
      using background_run [of "io k" c env] assms(4) 1(2,3) by blast
    then have in1: "c_state c1 = CONNECTED" "socket_open c1" "c_inCall c1" using 1(2-4) by (simp_all add: sent_jobs_def)
    let ?c2 = "SendAudioFrame env ?f c1"
    have c2: "sent_jobs env c1 [(DMR_AUDIO_FRAME, REAL_TIME_1, ?f)] ?c2"
      using in1 sent_jobs_TransmitRaw by (simp add: SendAudioFrame_def)
    with in1 have in2: "c_state ?c2 = CONNECTED" "socket_open ?c2" "c_inCall ?c2" by (simp_all add: sent_jobs_def)
    have ka: "keep_alive_of env ?c2 = ?ka" using keep_alive_of_cong [OF c1(2)] keep_alive_of_cong [OF c2] by simp
    obtain c3 where c3: "stream_frames env io (k + 1) (drop 27 input) ?c2 = Inr c3"
      "sent_jobs env ?c2 (stream_jobs ?ka io (k + 1) (frames_of (drop 27 input))) c3"
      using 1(1) [OF False in2, of "k + 1"] unfolding ka by blast
    from sent_jobs_trans [OF c1(2) sent_jobs_trans [OF c2 c3(2)]] c1(1) c3(1) False show ?thesis
      by (simp add: unfolded)
  qed
qed

text \<open>A call starts its own counting at zero.\<close>

lemma transmit_jobs:
  assumes "c_state c = CONNECTED" "socket_open c" "\<forall>k. list_all background (io k)"
  shows "\<exists>c'. transmit env io srcId groupId input c = Inr c' \<and> c_state c' = CONNECTED \<and> socket_open c' \<and>
    c_serverEndpoint c' = c_serverEndpoint c \<and>
    c_routineSeq c' = c_routineSeq c + routine_jobs (call_jobs (keep_alive_of env c) io srcId groupId input) \<and>
    datagrams (actions c') = datagrams (actions c) @ numbered_packets (host_order env) (c_serverEndpoint c) 0
      (c_routineSeq c) (call_jobs (keep_alive_of env c) io srcId groupId input)"
proof -
  let ?c0 = "c\<lparr>c_inCall := True, c_realTimeSeq := 0\<rparr>" and ?h = "voice_header srcId groupId True"
  let ?j = "(DMR_DATA_BASE + 1, REAL_TIME_1, ?h) :: job" and ?ka = "keep_alive_of env c"
  let ?c1 = "StartVoiceCall env srcId groupId True c"
  have sends: "sent_jobs env d [?j] (TransmitRaw env (DMR_DATA_BASE + 1) REAL_TIME_1 ?h d)" if "socket_open d" for d
    using that by (rule sent_jobs_TransmitRaw)
  have "socket_open (TransmitRaw env t f p d) = socket_open d" for t f p and d :: "'a client" by simp
  then have c1: "sent_jobs env ?c0 (replicate 3 ?j) ?c1"
    using assms(1,2) sent_jobs_trans [OF sends sent_jobs_trans [OF sends sends]]
    by (simp add: StartVoiceCall_def Let_def numeral_3_eq_3)
  have ka: "keep_alive_of env ?c1 = ?ka" using keep_alive_of_cong [OF c1] by (simp add: keep_alive_of_def)
  have in1: "c_state ?c1 = CONNECTED" "socket_open ?c1" "c_inCall ?c1"
    using c1 assms(1,2) by (simp_all add: sent_jobs_def)
  obtain c2 where c2: "stream_frames env io 0 input ?c1 = Inr c2"
    "sent_jobs env ?c1 (stream_jobs ?ka io 0 (frames_of input)) c2"
    using stream_frames_jobs [OF in1 assms(3), of env 0 input] unfolding ka by blast
  have in2: "c_state c2 = CONNECTED" "socket_open c2" "c_inCall c2" using c2(2) in1 by (simp_all add: sent_jobs_def)
  have "EndVoiceCall env c2 = (TransmitRaw env (DMR_DATA_BASE + 2) REAL_TIME_1 [] c2)\<lparr>c_inCall := False\<rparr>"
    using in2 by (simp add: EndVoiceCall_def)
  moreover have "sent_jobs env ?c0 (call_jobs ?ka io srcId groupId input)
      (TransmitRaw env (DMR_DATA_BASE + 2) REAL_TIME_1 [] c2)"
    using sent_jobs_trans [OF c1 sent_jobs_trans [OF c2(2) sent_jobs_TransmitRaw [OF in2(2)]]]
    by (simp add: call_jobs_def)
  ultimately show ?thesis using c2(1) assms(1,2) by (auto simp: transmit_def sent_jobs_def)
qed

section \<open>The login of a program\<close>

lemma new_client_connects:
  obtains c0 where "Connect (\<lambda>_. None) host port pw ms (new_client d desc ep0 hks) = Inr (SUCCESS, c0)"
  by (simp add: Connect_def new_client_def)

lemma run_identity:
  "run env es c = Inr c' \<Longrightarrow> c_dmrId c' = c_dmrId c \<and> c_description c' = c_description c"
proof (induction es arbitrary: c)
  case (Cons e es)
  then obtain c1 where "exec env e c = Inr c1" "run env es c1 = Inr c'" by (auto simp: andThen_eq_Inr)
  with Cons.IH [of c1] identity.kept_exec [of c "c_dmrId c" "c_description c" "hooks c" env e c1] show ?case by auto
qed simp

text \<open>The server's side of the login, as events of the client.\<close>

definition login :: "endian \<Rightarrow> 'ep \<Rightarrow> bytes \<Rightarrow> 'ep event list" where
  "login shost ep salt = [Resolved None [ep] None None, Received None (challenge_of shost salt) ep,
     Received None (accept_of shost) ep]"

lemma login_connects:
  assumes "length salt \<le> 1006"
  obtains c where "connect_or_fail env (\<lambda>_. None) (login shost ep salt) host port pw continue
      (new_client d desc ep0 hks) = continue c"
    "at_server ep 2 c" "datagrams (actions c) = numbered_packets (host_order env) ep 0 0
      [(KEEP_ALIVE, NONE, registration env d desc), (AUTHENTICATION, NONE, sha256 (salt @ pw))]"
    "c_dmrId c = d" "c_description c = desc"
proof -
  obtain c0 where c0: "Connect (\<lambda>_. None) host port pw 5000 (new_client d desc ep0 hks) = Inr (SUCCESS, c0)"
    by (rule new_client_connects)
  obtain c1 where c1: "run env [ConnectCalled (\<lambda>_. None) host port pw 5000, Resolved None [ep] None None]
      (new_client d desc ep0 hks) = Inr c1" "waits_for_challenge ep pw c1"
      "datagrams (actions c1) = [(register_packet env 0 d desc, ep)]" "c_routineSeq c1 = 1"
    by (rule registers)
  obtain c2 auth where c2: "exec env (Received None (challenge_of shost salt) ep) c1 = Inr c2"
    "c_state c2 = AUTHENTICATING" "socket_open c2" "c_serverEndpoint c2 = ep"
    "length (c_receiveBuffer c2) = 1024" "datagrams (actions c2) = datagrams (actions c1) @ [(auth, ep)]"
    "length auth = 50" "split_packet shost auth = Some (\<lparr>h_type = AUTHENTICATION, h_flags = NONE,
       h_number = c_routineSeq c1, h_length = 32\<rparr>, sha256 (salt @ pw))"
    "auth = answer_packet env (c_routineSeq c1) (sha256 (salt @ pw))" "c_routineSeq c2 = c_routineSeq c1 + 1"
    by (rule client_answers [OF c1(2) assms])
  obtain c3 where c3: "exec env (Received None (accept_of shost) ep) c2 = Inr c3" "c_state c3 = CONNECTED"
    "socket_open c3 = socket_open c2" "c_serverEndpoint c3 = ep" "c_routineSeq c3 = c_routineSeq c2"
    "datagrams (actions c3) = datagrams (actions c2)"
    by (rule client_accepts [OF c2(2,4,5)])
  have ran: "run env (login shost ep salt) c0 = Inr c3"
    using c0 c1(1) c2(1) c3(1) by (auto simp: login_def andThen_eq_Inr simp del: exec.simps(2-))
  from ran have "connect_or_fail env (\<lambda>_. None) (login shost ep salt) host port pw continue
      (new_client d desc ep0 hks) = continue c3"
    using c0 c3(2) by (simp add: connect_or_fail_def)
  moreover have "at_server ep 2 c3" using c1(4) c2(3,10) c3(2-5) by (simp add: at_server_def)
  moreover have "datagrams (actions c3) = numbered_packets (host_order env) ep 0 0
      [(KEEP_ALIVE, NONE, registration env d desc), (AUTHENTICATION, NONE, sha256 (salt @ pw))]"
    using c1(3,4) c2(6,9) c3(6) by (simp add: register_packet_def answer_packet_def)
  moreover have "c_dmrId c3 = d" "c_description c3 = desc"
    using run_identity [of env "ConnectCalled (\<lambda>_. None) host port pw 5000 # login shost ep salt"
      "new_client d desc ep0 hks" c3] c0 ran by (simp_all add: new_client_def)
  ultimately show thesis by (rule that)
qed

section \<open>Properties\<close>

text \<open>C3. A whole session of \<open>play_audio\<close>: with arguments that are numbers, and a server that
  challenges (with a salt of at most 1006 bytes) and accepts it before anything else happens. After
  the login the background thread may handle any datagrams, late timers and ticks of the keep-alive
  timer, in the pause after the subscription and before each frame, but no receive error, which
  would end the session. The program ends with status 0, and it has sent the server exactly the
  registration, the digest of salt and password, the subscription to the talkgroup, the call
  with the frames of its standard input, and the close, with one more registration for each tick
  of the keep-alive timer in the place where it fires; each packet is numbered from its counter.\<close>

theorem Player_session:
  assumes "stoul client = Inr n" "stoul port = Inr p" "stoul source = Inr src" "stoul group_number = Inr talkgroup"
    and "length salt \<le> 1006" "list_all background pausing" "\<forall>k. list_all background (io k)"
  shows "\<exists>c. play_audio env ep0 (\<lambda>_. None) (login shost ep salt) pausing io
      [prog, client, pw, address, port, source, group_number] input = Inr (Exit 0 (Some c)) \<and>
    c_state c = DISCONNECTED \<and>
    datagrams (actions c) = numbered_packets (host_order env) ep 0 0
      (let ka = (KEEP_ALIVE, NONE, registration env (ucast n) play_description)
       in [ka, (AUTHENTICATION, NONE, sha256 (salt @ pw)),
           (SUBSCRIPTION, NONE, SerializeSubscription (host_order env)
              \<lparr>sub_type = SESSION_TYPE_GROUP_VOICE, sub_number = ucast talkgroup\<rparr>)] @
          keep_alives ka pausing @ call_jobs ka io (ucast src) (ucast talkgroup) input @ [(CLOSE, NONE, [])])"
proof -
  define ka where "ka = ((KEEP_ALIVE, NONE, registration env (ucast n) play_description) :: job)"
  define sub where "sub = ((SUBSCRIPTION, NONE, SerializeSubscription (host_order env)
    \<lparr>sub_type = SESSION_TYPE_GROUP_VOICE, sub_number = ucast talkgroup\<rparr>) :: job)"
  define first where "first = [ka, (AUTHENTICATION, NONE, sha256 (salt @ pw))]"
  define rest where "rest = (\<lambda>c. let c = Subscribe env (ucast talkgroup) c
    in andThen (run env pausing c) (\<lambda>c. andThen (transmit env io (ucast src) (ucast talkgroup) input c) (\<lambda>c.
       let c = Disconnect env App c in Inr (Exit 0 (Some (destroy env c))))))"
  obtain c where c: "connect_or_fail env (\<lambda>_. None) (login shost ep salt) address (ucast p) pw rest
      (new_client (ucast n) play_description ep0 play_hooks) = rest c"
    "at_server ep 2 c" "datagrams (actions c) = numbered_packets (host_order env) ep 0 0 first"
    "c_dmrId c = ucast n" "c_description c = play_description"
    unfolding first_def ka_def by (rule login_connects [OF assms(5)])
  note at = c(2) [unfolded at_server_def]
  define c1 where "c1 = Subscribe env (ucast talkgroup) c"
  have c1: "sent_jobs env c [sub] c1"
    using sent_jobs_TransmitRaw [of c env SUBSCRIPTION NONE] at by (simp add: c1_def sub_def Subscribe_def Let_def)
  have ka: "keep_alive_of env c1 = ka" using c(4,5) keep_alive_of_cong [OF c1] by (simp add: keep_alive_of_def ka_def)
  have in1: "c_state c1 = CONNECTED" "socket_open c1" using c1 at by (simp_all add: sent_jobs_def)
  obtain c2 where c2: "run env pausing c1 = Inr c2" "sent_jobs env c1 (keep_alives ka pausing) c2"
    using background_run [OF assms(6) in1, of env] unfolding ka by blast
  define before where "before = first @ [sub] @ keep_alives ka pausing"
  have quiet: "list_all (\<lambda>j. \<not> real_time j) ([sub] @ keep_alives ka pausing)" "list_all (\<lambda>j. \<not> real_time j) before"
    using keep_alives_routine [of env c1 pausing]
    by (simp_all add: ka before_def first_def sub_def real_time_def) (simp_all add: ka_def)
  have sent: "sent_jobs env c ([sub] @ keep_alives ka pausing) c2" by (rule sent_jobs_trans [OF c1 c2(2)])
  have in2: "c_state c2 = CONNECTED" "socket_open c2" "c_serverEndpoint c2 = ep"
    using sent at by (simp_all add: sent_jobs_def)
  have "routine_jobs first = 2" by (simp add: routine_jobs_def first_def ka_def real_time_def)
  then have seq2: "c_routineSeq c2 = routine_jobs before"
    using sent at by (simp add: sent_jobs_def before_def)
  have "datagrams (actions c2) = datagrams (actions c) @
      numbered_packets (host_order env) ep 0 2 ([sub] @ keep_alives ka pausing)"
    using sent at numbered_routine [OF quiet(1)] by (simp add: sent_jobs_def)
  then have before: "datagrams (actions c2) = numbered_packets (host_order env) ep 0 0 before"
    using c(3) \<open>routine_jobs first = 2\<close> voice_jobs_routine [of first] quiet(2)
    by (simp add: before_def numbered_packets_append del: append.simps)
  have ka2: "keep_alive_of env c2 = ka" using ka keep_alive_of_cong [OF c2(2)] by simp
  define call where "call = call_jobs ka io (ucast src) (ucast talkgroup) input"
  obtain c3 where c3: "transmit env io (ucast src) (ucast talkgroup) input c2 = Inr c3"
    "c_state c3 = CONNECTED" "socket_open c3" "c_serverEndpoint c3 = ep"
    "c_routineSeq c3 = routine_jobs (before @ call)"
    "datagrams (actions c3) = numbered_packets (host_order env) ep 0 0 (before @ call)"
    using transmit_jobs [OF in2(1,2) assms(7), of env "ucast src" "ucast talkgroup" input] in2(3) seq2 before
      voice_jobs_routine [OF quiet(2)]
    by (auto simp: ka2 call_def numbered_packets_append)
  let ?c4 = "destroy env (Disconnect env App c3)"
  have "rest c = Inr (Exit 0 (Some ?c4))" using c2(1) c3(1) by (simp add: rest_def c1_def Let_def)
  moreover have "datagrams (actions ?c4) = numbered_packets (host_order env) ep 0 0 ((before @ call) @ [(CLOSE, NONE, [])])"
    using c3(2-6) numbered_packets_append [of "host_order env" ep 0 0 "before @ call" "[(CLOSE, NONE, [])]"]
    by (simp add: destroy_def Disconnect_datagrams)
  ultimately show ?thesis
    using c(1) by (simp add: play_audio_def assms Let_def rest_def destroy_def before_def call_def first_def sub_def ka_def)
qed

theorem Player_session_witness:
  "\<exists>c. play_audio calm 0 (\<lambda>_. None) (login Big 7 [0x73]) [KeepAliveTick None] (\<lambda>k. if k = 1 then [KeepAliveTick None] else [])
      [[], [0x35], [0x70], [], [0x36], [0x37], [0x39, 0x31]] (replicate 60 0xAB) = Inr (Exit 0 (Some c)) \<and>
    length (datagrams (actions c)) = 12"
proof -
  have numbers: "stoul [0x35] = Inr 5" "stoul [0x36] = Inr 6" "stoul [0x37] = Inr 7" "stoul [0x39, 0x31] = Inr 91"
    by (simp_all add: stoul_def isspace_def isdigit_def number_of_def)
  let ?io = "\<lambda>k :: nat. if k = 1 then [KeepAliveTick None] else [] :: nat event list"
  have len: "length (numbered_packets host ep rt ro jobs) = length jobs" for host and ep :: nat and rt ro jobs
    by (induction jobs arbitrary: rt ro) auto
  have bg: "list_all background [KeepAliveTick None :: nat event]" "\<forall>k. list_all background (?io k)" by simp_all
  have "frames_of (replicate 60 (0xAB :: u8)) = replicate 2 (replicate 27 0xAB)"
    by (simp add: frames_of.simps numeral_eq_Suc)
  then have "length (call_jobs ka ?io 7 91 (replicate 60 0xAB)) = 7" for ka
    by (simp add: call_jobs_def keep_alives_def aborted_def numeral_2_eq_2)
  then show ?thesis
    using Player_session [OF numbers _ bg, of "[0x73]" calm 0 Big 7 "[]" "[0x70]" "[]" "replicate 60 0xAB"]
    by (auto simp: len keep_alives_def aborted_def Let_def)
qed

end
