(* ===== verification/Sha256_Digests.thy ===== *)
theory Sha256_Digests
  imports Sha256
begin

text \<open>
  The digests of \<open>tests/test_client.cpp\<close>, evaluated on the model of the code: of the salt
  \<open>"saltsaltsalt"\<close> with the server's password \<open>"supersecretpassword"\<close>, and with the
  \<open>"wrongpassword"\<close> of the test that has to fail.
\<close>

definition test_salt :: bytes where
  "test_salt = [0x73, 0x61, 0x6C, 0x74, 0x73, 0x61, 0x6C, 0x74, 0x73, 0x61, 0x6C, 0x74]"

definition test_password :: bytes where
  "test_password = [0x73, 0x75, 0x70, 0x65, 0x72, 0x73, 0x65, 0x63, 0x72, 0x65, 0x74, 0x70, 0x61, 0x73,
     0x73, 0x77, 0x6F, 0x72, 0x64]"

definition wrong_password :: bytes where
  "wrong_password = [0x77, 0x72, 0x6F, 0x6E, 0x67, 0x70, 0x61, 0x73, 0x73, 0x77, 0x6F, 0x72, 0x64]"

lemma test_digests:
  "Sha256 (test_salt @ test_password) = Inr
    [0xEE, 0x7C, 0xA9, 0xAD, 0x2E, 0x65, 0x87, 0xFC, 0x8D, 0x3B, 0xA8, 0x65, 0xB0, 0xBD, 0xDD, 0xFD,
     0x7D, 0x57, 0xE3, 0xB8, 0x57, 0x81, 0x64, 0x4E, 0x85, 0x6C, 0x10, 0xA0, 0xBB, 0x2A, 0x29, 0xF2] \<and>
   Sha256 (test_salt @ wrong_password) = Inr
    [0x54, 0xB1, 0x44, 0x75, 0x68, 0xA8, 0xEE, 0x03, 0xAF, 0xB7, 0x10, 0x31, 0x83, 0xE0, 0x88, 0x4B,
     0xFA, 0x68, 0x6D, 0xA4, 0x58, 0x1B, 0x69, 0x45, 0x03, 0x05, 0xB5, 0x85, 0x57, 0x29, 0x28, 0x3A]"
  by code_simp

end
