(* ===== verification/Test_Network.thy ===== *)
theory Test_Network
  imports Test_Cases Server Sessions Sha256_Digests
begin

text \<open>
  The test cases of \<open>tests/test_client.cpp\<close>, on the client and the mock server: the network
  delivers what was sent, in order, and the timers fire only when nothing else can happen. The
  salt and the passwords are the ones of the tests; their digests have been evaluated. The
  address is \<open>"127.0.0.1"\<close>, the port of the server an argument.
\<close>

section \<open>The set-up of the tests\<close>

definition loopback :: bytes where
  "loopback = [0x31, 0x32, 0x37, 0x2E, 0x30, 0x2E, 0x30, 0x2E, 0x31]"

text \<open>\<open>"UnitTestTerminal v1"\<close>.\<close>

definition test_description :: bytes where
  "test_description = [0x55, 0x6E, 0x69, 0x74, 0x54, 0x65, 0x73, 0x74, 0x54, 0x65, 0x72, 0x6D, 0x69, 0x6E,
     0x61, 0x6C, 0x20, 0x76, 0x31]"

definition test_client :: "'ep \<Rightarrow> (hook \<Rightarrow> bool) \<Rightarrow> 'ep client" where
  "test_client ep0 hks = new_client 268999 test_description ep0 hks"

definition test_server :: server where
  "test_server = MockServer test_password test_salt"

text \<open>The background thread and the server, from the start of a connection until the wait in
  \<open>ConnectSync\<close> is over: the resolution, two exchanges, and the timeout if that was not enough.\<close>

definition login_or_timeout :: "'ep env \<Rightarrow> endian \<Rightarrow> 'ep \<Rightarrow> 'ep client \<times> server \<Rightarrow> ('ep client \<times> server) cxx" where
  "login_or_timeout env shost ep = (\<lambda>(c, s).
    andThen (run env [Resolved None [ep] None None] c) (\<lambda>c.
    andThen (exchange env shost ep (c, s)) (\<lambda>cs.
    andThen (exchange env shost ep cs) (\<lambda>(c, s).
    andThen (run env (if wait_connected [c] = None then [ConnectTimeout None] else []) c) (\<lambda>c.
    Inr (c, s))))))"

definition connect_sync :: "'ep env \<Rightarrow> endian \<Rightarrow> 'ep \<Rightarrow> u16 \<Rightarrow> bytes \<Rightarrow> 'ep client \<times> server \<Rightarrow>
    (ClientError option \<times> 'ep client \<times> server) cxx" where
  "connect_sync env shost ep port pw = (\<lambda>(c, s).
    andThen (Connect (\<lambda>_. None) loopback port pw 1000 c) (\<lambda>(startErr, c).
    if startErr \<noteq> SUCCESS then Inr (Some startErr, c, s)
    else andThen (login_or_timeout env shost ep (c, s)) (\<lambda>(c, s). Inr (wait_connected [c], c, s))))"

section \<open>The tests\<close>

definition HandshakeSuccess :: "'ep env \<Rightarrow> endian \<Rightarrow> 'ep \<Rightarrow> 'ep \<Rightarrow> u16 \<Rightarrow> test" where
  "HandshakeSuccess env shost ep0 ep port =
    (let c0 = test_client ep0 (\<lambda>_. False)
     in andThen (connect_sync env shost ep port test_password (c0, test_server)) (\<lambda>(result, c, s).
        Inr [\<not> IsConnected c0, result = Some SUCCESS, IsConnected c, \<not> IsConnected (Disconnect env App c)]))"

definition HandshakeInvalidPassword :: "'ep env \<Rightarrow> endian \<Rightarrow> 'ep \<Rightarrow> 'ep \<Rightarrow> u16 \<Rightarrow> test" where
  "HandshakeInvalidPassword env shost ep0 ep port =
    andThen (connect_sync env shost ep port wrong_password (test_client ep0 (\<lambda>_. False), test_server))
      (\<lambda>(result, c, s). Inr [result \<noteq> None \<and> result \<noteq> Some SUCCESS, \<not> IsConnected c])"

text \<open>The loop over the packets of the server, and what it has found.\<close>

record found =
  foundSubscription :: bool
  foundVoiceHeader :: bool
  foundAudioFrame :: bool
  foundVoiceTerminator :: bool
  foundTextMessage :: bool

definition look_at :: "endian \<Rightarrow> bytes \<Rightarrow> found \<Rightarrow> found cxx" where
  "look_at host pkt f =
    andThen (DeserializeHeader host pkt) (\<lambda>headerOpt.
    Inr (case headerOpt of
       None \<Rightarrow> f
     | Some h \<Rightarrow>
         if h_type h = SUBSCRIPTION then f\<lparr>foundSubscription := True\<rparr>
         else if h_type h = DMR_DATA_BASE + 1 then f\<lparr>foundVoiceHeader := True\<rparr>
         else if h_type h = DMR_AUDIO_FRAME then f\<lparr>foundAudioFrame := True\<rparr>
         else if h_type h = DMR_DATA_BASE + 2 then f\<lparr>foundVoiceTerminator := True\<rparr>
         else if h_type h = MESSAGE_TEXT then f\<lparr>foundTextMessage := True\<rparr>
         else f))"

text \<open>\<open>"Hello group!"\<close>, in code points, and the requests of the application.\<close>

definition group_text :: "nat list" where
  "group_text = [0x48, 0x65, 0x6C, 0x6C, 0x6F, 0x20, 0x67, 0x72, 0x6F, 0x75, 0x70, 0x21]"

definition traffic :: "'ep event list" where
  "traffic = [SubscribeCalled 91, StartVoiceCallCalled 268999 91 True] @
     replicate 3 (SendAudioFrameCalled (replicate 27 0xAA)) @
     [EndVoiceCallCalled, SendTextMessageCalled 91 True (utf8_text group_text)]"

definition MessageAndVoiceTraffic :: "'ep env \<Rightarrow> endian \<Rightarrow> 'ep \<Rightarrow> 'ep \<Rightarrow> u16 \<Rightarrow> test" where
  "MessageAndVoiceTraffic env shost ep0 ep port =
    andThen (connect_sync env shost ep port test_password (test_client ep0 (\<lambda>_. False), test_server))
      (\<lambda>(result, c, s). if result \<noteq> Some SUCCESS then Inr [False]
       else andThen (run env traffic c) (\<lambda>c.
       andThen (exchange env shost ep (c, s)) (\<lambda>(c, s).
       andThen (for_each (receivedPackets s) (look_at shost) \<lparr>foundSubscription = False, foundVoiceHeader = False,
             foundAudioFrame = False, foundVoiceTerminator = False, foundTextMessage = False\<rparr>) (\<lambda>f.
       Inr [True, foundSubscription f, foundVoiceHeader f, foundAudioFrame f, foundVoiceTerminator f,
            foundTextMessage f]))))"

text \<open>\<open>"Hello from mock server!"\<close>, and what the hook \<open>onTextMessage\<close> of the test keeps.\<close>

definition server_text :: "nat list" where
  "server_text = [0x48, 0x65, 0x6C, 0x6C, 0x6F, 0x20, 0x66, 0x72, 0x6F, 0x6D, 0x20, 0x6D, 0x6F, 0x63, 0x6B,
     0x20, 0x73, 0x65, 0x72, 0x76, 0x65, 0x72, 0x21]"

fun texts_received :: "'ep action list \<Rightarrow> TextMessage list" where
  "texts_received [] = []"
| "texts_received (Called (OnTextMessage m) connection write # as) = m # texts_received as"
| "texts_received (_ # as) = texts_received as"

definition ServerToClientTextMessage :: "'ep env \<Rightarrow> endian \<Rightarrow> 'ep \<Rightarrow> 'ep \<Rightarrow> u16 \<Rightarrow> test" where
  "ServerToClientTextMessage env shost ep0 ep port =
    andThen (connect_sync env shost ep port test_password
        (test_client ep0 (\<lambda>h. h = onTextMessage), test_server))
      (\<lambda>(result, c, s). if result \<noteq> Some SUCCESS then Inr [False]
       else andThen (SerializeTextMessage shost \<lparr>text_sourceId = 12345, text_destinationId = 268999,
           text_isGroup = False, text_text = utf8_text server_text\<rparr>) (\<lambda>serializedText.
       let s = SendPacket shost MESSAGE_TEXT 0 serializedText s
       in andThen (run env [Received None (last (sentPackets s)) ep] c) (\<lambda>c.
       let ms = texts_received (actions c)
       in Inr [True, ms \<noteq> [], ms \<noteq> [] \<and> sourceId (last ms) = 12345,
            ms \<noteq> [] \<and> message_text (last ms) = utf8_text server_text])))"

text \<open>The test looks at the state right after \<open>Connect\<close>; \<open>quick\<close> if the background thread and
  the server have finished the login by then.\<close>

definition HandshakeSuccessAsync :: "bool \<Rightarrow> 'ep env \<Rightarrow> endian \<Rightarrow> 'ep \<Rightarrow> 'ep \<Rightarrow> u16 \<Rightarrow> test" where
  "HandshakeSuccessAsync quick env shost ep0 ep port =
    andThen (Connect (\<lambda>_. None) loopback port test_password 1000 (test_client ep0 (\<lambda>h. h = onConnected)))
      (\<lambda>(result, c1).
       andThen (login_or_timeout env shost ep (c1, test_server)) (\<lambda>(c2, s).
       Inr [result = SUCCESS, \<not> IsConnected (if quick then c2 else c1),
         list_ex (\<lambda>a. case a of Called OnConnected _ _ \<Rightarrow> True | _ \<Rightarrow> False) (actions c2), IsConnected c2]))"

text \<open>The last error the hook \<open>onError\<close> was called with.\<close>

fun errors_reported :: "'ep action list \<Rightarrow> ClientError list" where
  "errors_reported [] = []"
| "errors_reported (Called (OnError e msg) connection write # as) = e # errors_reported as"
| "errors_reported (_ # as) = errors_reported as"

text \<open>Nobody answers the registration; \<open>"password"\<close>.\<close>

definition HandshakeTimeoutAsync :: "'ep env \<Rightarrow> 'ep \<Rightarrow> 'ep \<Rightarrow> test" where
  "HandshakeTimeoutAsync env ep0 ep =
    andThen (Connect (\<lambda>_. None) loopback 54321 [0x70, 0x61, 0x73, 0x73, 0x77, 0x6F, 0x72, 0x64] 100
        (test_client ep0 (\<lambda>h. h = onError))) (\<lambda>(result, c).
    andThen (run env [Resolved None [ep] None None, ConnectTimeout None] c) (\<lambda>c.
    let es = errors_reported (actions c)
    in Inr [result = SUCCESS, es \<noteq> [], es \<noteq> [] \<and> last es = RESPONSE_TIMEOUT, \<not> IsConnected c]))"

text \<open>The resolution fails with \<open>e\<close>; the name is \<open>"invalid.host.name.that.does.not.exist"\<close>.\<close>

definition invalid_host :: bytes where
  "invalid_host = [0x69, 0x6E, 0x76, 0x61, 0x6C, 0x69, 0x64, 0x2E, 0x68, 0x6F, 0x73, 0x74, 0x2E, 0x6E, 0x61,
     0x6D, 0x65, 0x2E, 0x74, 0x68, 0x61, 0x74, 0x2E, 0x64, 0x6F, 0x65, 0x73, 0x2E, 0x6E, 0x6F, 0x74, 0x2E,
     0x65, 0x78, 0x69, 0x73, 0x74]"

definition DnsResolutionFailureAsync :: "'ep env \<Rightarrow> error_code \<Rightarrow> 'ep \<Rightarrow> test" where
  "DnsResolutionFailureAsync env e ep0 =
    andThen (Connect (\<lambda>_. None) invalid_host 54006 [0x70, 0x61, 0x73, 0x73, 0x77, 0x6F, 0x72, 0x64] 1000
        (test_client ep0 (\<lambda>h. h = onError))) (\<lambda>(result, c).
    andThen (run env [Resolved (Some e) [] None None] c) (\<lambda>c.
    let es = errors_reported (actions c)
    in Inr [result = SUCCESS, es \<noteq> [], es \<noteq> [] \<and> last es = DNS_RESOLVE, \<not> IsConnected c]))"

section \<open>The login\<close>

lemma digests_differ: "sha256 (test_salt @ wrong_password) \<noteq> sha256 (test_salt @ test_password)"
  using test_digests by (simp add: Sha256_digest)

lemma exchange_run:
  assumes "exchange env shost ep (c, s) = Inr (c', s')"
  obtains es where "run env es c = Inr c'"
  using assms by (auto simp: exchange_def andThen_eq_Inr)

lemma hooks_run: "run env es c = Inr c' \<Longrightarrow> hooks c' = hooks c"
  by (induction es arbitrary: c) (auto simp: andThen_eq_Inr simp del: exec.simps dest: hooks_exec)

text \<open>The client after the login, with a server that has received all it sent.\<close>

definition logged_in :: "'ep env \<Rightarrow> 'ep \<Rightarrow> 'ep client \<Rightarrow> server \<Rightarrow> bool" where
  "logged_in env ep c s \<longleftrightarrow> reachable env c \<and> at_server ep 2 c \<and>
    server_state test_password test_salt (map fst (datagrams (actions c))) (sentPackets s) s \<and>
    list_all (\<lambda>(p, ep). length p \<le> 1024) (datagrams (actions c))"

lemma login_result:
  assumes "Connect (\<lambda>_. None) host port pw ms (test_client ep0 hks) = Inr (SUCCESS, c0)"
  obtains c s where "login_or_timeout env shost ep (c0, test_server) = Inr (c, s)" "hooks c = hks"
    "if sha256 (test_salt @ pw) = sha256 (test_salt @ test_password) then logged_in env ep c s
     else c_state c = DISCONNECTED"
proof -
  obtain c1 where c1: "run env [ConnectCalled (\<lambda>_. None) host port pw ms, Resolved None [ep] None None]
      (test_client ep0 hks) = Inr c1" "waits_for_challenge ep pw c1"
      "datagrams (actions c1) = [(register_packet env 0 268999 test_description, ep)]" "c_routineSeq c1 = 1"
    unfolding test_client_def by (rule registers)
  have len: "length test_description \<le> 1001" "length test_salt \<le> 1006"
    by (simp_all add: test_description_def test_salt_def)
  have resolved: "run env [Resolved None [ep] None None] c0 = Inr c1"
    using c1(1) assms by (simp add: andThen_eq_Inr)
  have "reachable env (test_client ep0 hks)" unfolding test_client_def by (rule reachable.intros)
  then have reach: "reachable env c1" using run_reachable [OF c1(1)] by blast
  obtain c2 s1 c3 s2 auth where
      ex: "exchange env shost ep (c1, MockServer test_password test_salt) = Inr (c2, s1)"
        "exchange env shost ep (c2, s1) = Inr (c3, s2)" "receivedVersionDmrId s2 = 268999"
      and s2: "receivedPackets s2 = map fst (datagrams (actions c3))"
      and sent: "datagrams (actions c3) = [(register_packet env 0 268999 test_description, ep), (auth, ep)]"
        "length auth = 50"
      and s2': "server_salt s2 = test_salt" "expectedPassword s2 = test_password" "receiving s2"
      and c3: "socket_open c3" "c_serverEndpoint c3 = ep" "c_routineSeq c3 = c_routineSeq c1 + 1"
        "if sha256 (test_salt @ pw) = sha256 (test_salt @ test_password) then c_state c3 = CONNECTED
         else c_state c3 = AUTHENTICATING"
    by (rule login_exchanges [OF len c1(2,3), of shost test_password])
  obtain es where es: "run env es c1 = Inr c2" using ex(1) by (rule exchange_run)
  obtain es' where es': "run env es' c2 = Inr c3" using ex(2) by (rule exchange_run)
  have hooks: "hooks c3 = hks"
    using hooks_run [OF c1(1)] hooks_run [OF es] hooks_run [OF es'] by (simp add: test_client_def new_client_def)
  show thesis
  proof (cases "sha256 (test_salt @ pw) = sha256 (test_salt @ test_password)")
    case True
    have "logged_in env ep c3 s2"
      using run_reachable [OF es' run_reachable [OF es reach]] True s2 s2' sent c3 c1(4)
      by (simp add: logged_in_def at_server_def server_state_def register_packet_def registration_def
          wire_simps test_description_def)
    moreover have "login_or_timeout env shost ep (c0, test_server) = Inr (c3, s2)"
      using resolved ex c3(4) True by (simp add: login_or_timeout_def test_server_def del: exec.simps)
    ultimately show thesis using hooks True by (intro that) simp_all
  next
    case False
    obtain c4 where c4: "run env [ConnectTimeout None] c3 = Inr c4" "c_state c4 = DISCONNECTED"
      using c3(4) False by (simp add: on_connect_timeout_state aborted_def)
    then have "login_or_timeout env shost ep (c0, test_server) = Inr (c4, s2)"
      using resolved ex c3(4) False by (simp add: login_or_timeout_def test_server_def)
    then show thesis using hooks hooks_run [OF c4(1)] c4(2) False by (intro that) simp_all
  qed
qed

lemma connect_sync_result:
  obtains r c s where "connect_sync env shost ep port pw (test_client ep0 hks, test_server) = Inr (r, c, s)"
    "hooks c = hks"
    "if sha256 (test_salt @ pw) = sha256 (test_salt @ test_password) then r = Some SUCCESS \<and> logged_in env ep c s
     else r \<noteq> None \<and> r \<noteq> Some SUCCESS \<and> c_state c = DISCONNECTED"
proof -
  obtain c0 where c0: "Connect (\<lambda>_. None) loopback port pw 1000 (test_client ep0 hks) = Inr (SUCCESS, c0)"
    unfolding test_client_def by (rule new_client_connects)
  obtain c s where c: "login_or_timeout env shost ep (c0, test_server) = Inr (c, s)" "hooks c = hks"
    "if sha256 (test_salt @ pw) = sha256 (test_salt @ test_password) then logged_in env ep c s
     else c_state c = DISCONNECTED"
    by (rule login_result [OF c0])
  have "connect_sync env shost ep port pw (test_client ep0 hks, test_server) = Inr (wait_connected [c], c, s)"
    using c0 c(1) by (simp add: connect_sync_def)
  moreover have "logged_in env ep c s \<Longrightarrow> c_state c = CONNECTED" by (simp add: logged_in_def at_server_def)
  moreover have "c_state c = DISCONNECTED \<Longrightarrow> wait_connected [c] \<notin> {None, Some SUCCESS}" by simp
  ultimately show thesis using c(2,3) by (intro that [of "wait_connected [c]" c s]) (auto split: if_splits)
qed

section \<open>The traffic\<close>

lemma texts_ok: "list_all scalar group_text" "length (utf16_text group_text) \<le> 400"
  "list_all scalar server_text" "length (utf16_text server_text) \<le> 400"
  by (simp_all add: group_text_def server_text_def scalar_def utf16_text_def utf16_of_def)

text \<open>What the traffic puts on the wire, with the payload of the text.\<close>

definition traffic_packets :: "endian \<Rightarrow> bytes \<Rightarrow> (u16 \<times> u16 \<times> bytes) list" where
  "traffic_packets host payload =
    [(SUBSCRIPTION, NONE, SerializeSubscription host \<lparr>sub_type = SESSION_TYPE_GROUP_VOICE, sub_number = 91\<rparr>)] @
    replicate 3 (DMR_DATA_BASE + 1, REAL_TIME_1, voice_header 268999 91 True) @
    replicate 3 (DMR_AUDIO_FRAME, REAL_TIME_1, replicate 27 0xAA) @
    [(DMR_DATA_BASE + 2, REAL_TIME_1, []), (MESSAGE_TEXT, NONE, payload)]"

lemma traffic_run:
  assumes "at_server ep n c" "SerializeTextMessage (host_order env) \<lparr>text_sourceId = c_dmrId c,
      text_destinationId = 91, text_isGroup = True, text_text = utf8_text group_text\<rparr> = Inr payload"
  shows "\<exists>c'. run env traffic c = Inr c' \<and> datagrams (actions c') = datagrams (actions c) @
    numbered_packets (host_order env) ep 0 n (traffic_packets (host_order env) payload)"
  using assms
  by (simp add: traffic_def numeral_3_eq_3 Subscribe_def StartVoiceCall_def SendAudioFrame_def EndVoiceCall_def
      SendTextMessage_def Let_def at_server_def TransmitRaw_open(3,4) next_packet_def next_header_def
      traffic_packets_def)

lemma numbered_packets_from:
  assumes "(p, e) \<in> set (numbered_packets host ep rt ro jobs)"
  obtains t f payload n where "(t, f, payload) \<in> set jobs" "p = packet_bytes host
    \<lparr>h_type = t, h_flags = f, h_number = n, h_length = of_nat (length payload)\<rparr> payload"
  using assms
proof (induction jobs arbitrary: rt ro)
  case (Cons job jobs)
  obtain t f q where job: "job = (t, f, q)" by (cases job)
  show ?case
  proof (cases "\<exists>rt ro. (p, e) \<in> set (numbered_packets host ep rt ro jobs)")
    case True
    then show ?thesis using Cons.IH Cons.prems(1) by (metis list.set_intros(2))
  next
    case False
    with Cons.prems(2) job obtain n where "p = packet_bytes host
      \<lparr>h_type = t, h_flags = f, h_number = n, h_length = of_nat (length q)\<rparr> q" by (auto split: if_splits)
    then show ?thesis using Cons.prems(1) [of t f q] job by simp
  qed
qed simp

lemma numbered_packets_each:
  "(t, f, payload) \<in> set jobs \<Longrightarrow> \<exists>n. (packet_bytes host \<lparr>h_type = t, h_flags = f, h_number = n,
    h_length = of_nat (length payload)\<rparr> payload, ep) \<in> set (numbered_packets host ep rt ro jobs)"
  by (induction jobs arbitrary: rt ro) (auto simp: ex_disj_distrib)

text \<open>Every packet of the traffic is short, and the server does not answer it.\<close>

lemma traffic_quiet:
  assumes "(p, e) \<in> set (numbered_packets host ep rt ro (traffic_packets host payload))" "length payload \<le> 1006"
  shows "length p \<le> 1024 \<and> answers_to shost pw salt p = []"
proof -
  obtain t f q n where p: "(t, f, q) \<in> set (traffic_packets host payload)" "p = packet_bytes host
      \<lparr>h_type = t, h_flags = f, h_number = n, h_length = of_nat (length q)\<rparr> q"
    by (rule numbered_packets_from [OF assms(1)])
  have "length q \<le> 1006 \<and> t \<noteq> KEEP_ALIVE \<and> t \<noteq> AUTHENTICATION"
    using p(1) assms(2)
    by (auto simp: traffic_packets_def subscription.length_encode message_type_defs)
  with p(2) show ?thesis by (simp add: answers_to_def split_packet_bytes')
qed

lemma text_fits:
  assumes "list_all scalar cps" "length (utf16_text cps) \<le> 400" "text_text d = utf8_text cps"
  obtains payload where "SerializeTextMessage host d = Inr payload" "length payload \<le> 1006"
    "\<And>host'. DeserializeTextMessage host' payload = Inr (Some d)"
proof -
  have us: "Utf8ToUtf16 (text_text d) = Inr (utf16_text cps)"
    using assms by (simp add: utf_conversions list_all_code_point)
  have "length (concat (map lsb_bytes (xs :: u16 list))) = 2 * length xs" for xs
    by (induction xs) simp_all
  then obtain payload where "SerializeTextMessage host d = Inr payload" "length payload \<le> 1006"
    using SerializeTextMessage_bytes [OF us, of host] assms(2) by auto
  moreover have "length (utf16_text cps) < 32760" using assms(2) by simp
  ultimately show thesis
    using text_payload [OF assms(1) _ assms(3), of host] that by (metis sum.inject(2))
qed

lemma server_hears:
  assumes "logged_in env ep c s"
  obtains c' s' payload where "run env traffic c = Inr c'" "exchange env shost ep (c', s) = Inr (c', s')"
    "receivedPackets s' = receivedPackets s @
      map fst (numbered_packets (host_order env) ep 0 2 (traffic_packets (host_order env) payload))"
proof -
  obtain payload where payload: "SerializeTextMessage (host_order env) \<lparr>text_sourceId = c_dmrId c,
      text_destinationId = 91, text_isGroup = True, text_text = utf8_text group_text\<rparr> = Inr payload"
    "length payload \<le> 1006"
    by (rule text_fits [OF texts_ok(1,2), of "\<lparr>text_sourceId = c_dmrId c, text_destinationId = 91,
        text_isGroup = True, text_text = utf8_text group_text\<rparr>"]) simp_all
  let ?ds = "numbered_packets (host_order env) ep 0 2 (traffic_packets (host_order env) payload)"
  obtain c' where c': "run env traffic c = Inr c'" "datagrams (actions c') = datagrams (actions c) @ ?ds"
    using traffic_run [OF _ payload(1)] assms by (auto simp: logged_in_def)
  have "typed env c'" using typed_reachable run_reachable [OF c'(1)] assms by (auto simp: logged_in_def)
  moreover have quiet: "\<forall>(p, e) \<in> set ?ds. length p \<le> 1024 \<and>
      answers_to shost test_password test_salt p = []"
    by clarify (rule traffic_quiet [OF _ payload(2)])
  ultimately have "list_all (\<lambda>(p, e). typed_datagram (host_order env) (c_dmrId c') (c_description c') p \<and> length p \<le> 1024) ?ds"
    by (auto simp: typed_def c'(2) list_all_iff)
  moreover have "server_state test_password test_salt (receivedPackets s) (sentPackets s) s"
    using assms by (simp add: logged_in_def server_state_def)
  ultimately obtain s' where s': "for_each ?ds (\<lambda>(p, _). server_receive shost p) s = Inr s'"
    "server_state test_password test_salt (receivedPackets s @ map fst ?ds)
      (sentPackets s @ concat (map (answers_to shost test_password test_salt \<circ> fst) ?ds)) s'"
    using server_receives_short by blast
  have "concat (map (answers_to shost test_password test_salt \<circ> fst) ?ds) = []"
    using quiet by auto
  with s'(2) have "server_state test_password test_salt (receivedPackets s @ map fst ?ds) (sentPackets s) s'"
    by (simp only: append_Nil2)
  moreover have "drop (length (receivedPackets s)) (datagrams (actions c')) = ?ds"
    using assms by (simp add: c'(2) logged_in_def server_state_def)
  ultimately have "exchange env shost ep (c', s) = Inr (c', s')"
    using s'(1) by (simp add: exchange_def server_state_def)
  with c'(1) s'(2) show thesis by (intro that) (auto simp: server_state_def)
qed

section \<open>What the loop finds\<close>

definition holds_type :: "endian \<Rightarrow> u16 \<Rightarrow> bytes list \<Rightarrow> bool" where
  "holds_type host t pkts \<longleftrightarrow> (\<exists>p \<in> set pkts. \<exists>h. DeserializeHeader host p = Inr (Some h) \<and> h_type h = t)"

lemma holds_type_simps:
  "\<not> holds_type host t []"
  "holds_type host t [p] \<longleftrightarrow> (case parsed (DeserializeHeader host p) of None \<Rightarrow> False | Some h \<Rightarrow> h_type h = t)"
  by (auto simp: holds_type_def split: option.split)

definition looked_at :: "endian \<Rightarrow> bytes \<Rightarrow> found \<Rightarrow> found" where
  "looked_at host p f = projr (look_at host p f)"

lemma look_at_all: "for_each pkts (look_at host) f = Inr (fold (looked_at host) pkts f)"
proof -
  have "look_at host p f = Inr (looked_at host p f)" for p f
    using decoders_return(1) [of host p] by (auto simp: looked_at_def look_at_def)
  then show ?thesis using for_each_fold [of "\<lambda>_. True" f pkts "look_at host" "looked_at host"] by simp
qed

lemma look_at_one:
  "foundSubscription (looked_at host p f) \<longleftrightarrow> foundSubscription f \<or> holds_type host SUBSCRIPTION [p]"
  "foundVoiceHeader (looked_at host p f) \<longleftrightarrow> foundVoiceHeader f \<or> holds_type host (DMR_DATA_BASE + 1) [p]"
  "foundAudioFrame (looked_at host p f) \<longleftrightarrow> foundAudioFrame f \<or> holds_type host DMR_AUDIO_FRAME [p]"
  "foundVoiceTerminator (looked_at host p f) \<longleftrightarrow> foundVoiceTerminator f \<or> holds_type host (DMR_DATA_BASE + 2) [p]"
  "foundTextMessage (looked_at host p f) \<longleftrightarrow> foundTextMessage f \<or> holds_type host MESSAGE_TEXT [p]"
  using decoders_return(1) [of host p]
  by (auto simp: looked_at_def look_at_def holds_type_simps message_type_defs split: option.split)

lemma look_at_found:
  "foundSubscription (fold (looked_at host) pkts f) \<longleftrightarrow> foundSubscription f \<or> holds_type host SUBSCRIPTION pkts"
  "foundVoiceHeader (fold (looked_at host) pkts f) \<longleftrightarrow> foundVoiceHeader f \<or> holds_type host (DMR_DATA_BASE + 1) pkts"
  "foundAudioFrame (fold (looked_at host) pkts f) \<longleftrightarrow> foundAudioFrame f \<or> holds_type host DMR_AUDIO_FRAME pkts"
  "foundVoiceTerminator (fold (looked_at host) pkts f) \<longleftrightarrow> foundVoiceTerminator f \<or> holds_type host (DMR_DATA_BASE + 2) pkts"
  "foundTextMessage (fold (looked_at host) pkts f) \<longleftrightarrow> foundTextMessage f \<or> holds_type host MESSAGE_TEXT pkts"
  by (induction pkts arbitrary: f) (auto simp: look_at_one holds_type_def)

lemma traffic_types:
  assumes "t \<in> {SUBSCRIPTION, DMR_DATA_BASE + 1, DMR_AUDIO_FRAME, DMR_DATA_BASE + 2, MESSAGE_TEXT}"
  shows "holds_type host t (map fst (numbered_packets host' ep rt ro (traffic_packets host' payload)))"
proof -
  obtain f q where "(t, f, q) \<in> set (traffic_packets host' payload)"
    using assms by (auto simp: traffic_packets_def numeral_3_eq_3)
  from numbered_packets_each [OF this, of host' ep rt ro] obtain n where "(packet_bytes host' \<lparr>h_type = t, h_flags = f,
      h_number = n, h_length = of_nat (length q)\<rparr> q, ep) \<in> set (numbered_packets host' ep rt ro (traffic_packets host' payload))"
    by blast
  moreover have "DeserializeHeader host (packet_bytes host' h q) = Inr (Some h)" for h
    by (simp add: packet_bytes_def header.decode_append)
  ultimately show ?thesis by (force simp: holds_type_def)
qed

section \<open>The tests pass\<close>

lemma login_tests:
  "passes (HandshakeSuccess env shost ep0 ep port)" "passes (HandshakeInvalidPassword env shost ep0 ep port)"
proof -
  obtain r c s where "connect_sync env shost ep port test_password (test_client ep0 (\<lambda>_. False), test_server) =
      Inr (r, c, s)" "r = Some SUCCESS" "logged_in env ep c s"
    by (rule connect_sync_result [of env shost ep port test_password ep0 "\<lambda>_. False"]) simp
  then show "passes (HandshakeSuccess env shost ep0 ep port)"
    by (simp add: HandshakeSuccess_def Let_def IsConnected_def logged_in_def at_server_def test_client_def
        new_client_def)
  obtain r c s where "connect_sync env shost ep port wrong_password (test_client ep0 (\<lambda>_. False), test_server) =
      Inr (r, c, s)" "r \<noteq> None" "r \<noteq> Some SUCCESS" "c_state c = DISCONNECTED"
    by (rule connect_sync_result [of env shost ep port wrong_password ep0 "\<lambda>_. False"])
      (simp add: digests_differ)
  then show "passes (HandshakeInvalidPassword env shost ep0 ep port)"
    by (simp add: HandshakeInvalidPassword_def IsConnected_def)
qed

lemma traffic_test: "passes (MessageAndVoiceTraffic env shost ep0 ep port)"
proof -
  obtain r c s where c: "connect_sync env shost ep port test_password (test_client ep0 (\<lambda>_. False), test_server) =
      Inr (r, c, s)" "r = Some SUCCESS" "logged_in env ep c s"
    by (rule connect_sync_result [of env shost ep port test_password ep0 "\<lambda>_. False"]) simp
  obtain c' s' payload where s': "run env traffic c = Inr c'" "exchange env shost ep (c', s) = Inr (c', s')"
    "receivedPackets s' = receivedPackets s @
      map fst (numbered_packets (host_order env) ep 0 2 (traffic_packets (host_order env) payload))"
    by (rule server_hears [OF c(3)])
  have "holds_type shost t (receivedPackets s')"
    if "t \<in> {SUBSCRIPTION, DMR_DATA_BASE + 1, DMR_AUDIO_FRAME, DMR_DATA_BASE + 2, MESSAGE_TEXT}" for t
    using traffic_types [OF that] unfolding s'(3) holds_type_def by fastforce
  with c(1,2) s'(1,2) show ?thesis
    by (simp add: MessageAndVoiceTraffic_def look_at_all look_at_found Let_def)
qed

lemma texts_received_append [simp]: "texts_received (as @ bs) = texts_received as @ texts_received bs"
  by (induction as rule: texts_received.induct) simp_all

lemma errors_reported_append [simp]: "errors_reported (as @ bs) = errors_reported as @ errors_reported bs"
  by (induction as rule: errors_reported.induct) simp_all

text \<open>A text of the server arrives at the hook.\<close>

lemma text_arrives:
  assumes "logged_in env ep c s" "hooks c onTextMessage" "length payload \<le> 1006"
    and "DeserializeTextMessage (host_order env) payload = Inr (Some d)"
  shows "\<exists>c'. run env [Received None (last (sentPackets (SendPacket shost MESSAGE_TEXT 0 payload s))) ep] c = Inr c' \<and>
    texts_received (actions c') = texts_received (actions c) @ [\<lparr>sourceId = text_sourceId d,
      destinationId = text_destinationId d, isGroup = text_isGroup d, message_text = text_text d\<rparr>]"
proof -
  let ?h = "\<lparr>h_type = MESSAGE_TEXT, h_flags = 0, h_number = 0, h_length = of_nat (length payload)\<rparr> :: Header"
  let ?pkt = "packet_bytes shost ?h payload"
  have c: "c_state c = CONNECTED" "c_serverEndpoint c = ep" "length (c_receiveBuffer c) = 1024"
    using assms(1) client_inv_reachable [of env c]
    by (simp_all add: logged_in_def at_server_def client_inv_def orderly_def)
  have fits: "fits c ?pkt = ?pkt" "?pkt \<noteq> []"
    using c(3) assms(3) by (auto simp: fits_def simp flip: length_greater_0_conv)
  have "split_packet (host_order env) ?pkt = Some (?h, payload)"
    using assms(3) by (intro split_packet_bytes') simp
  then have "processed env ?pkt (arrive ?pkt ep c) = call onTextMessage (OnTextMessage
      \<lparr>sourceId = text_sourceId d, destinationId = text_destinationId d, isGroup = text_isGroup d,
       message_text = text_text d\<rparr>) (arrive ?pkt ep c)"
    by (simp add: processed_def dispatched_def dispatch_types handle_text_def assms(4))
  with c fits show ?thesis using assms(2)
    by (simp add: SendPacket_sends exec_Received Let_def StartReceiveLoop_def called_def del: exec.simps)
qed

lemma server_text_test: "passes (ServerToClientTextMessage env shost ep0 ep port)"
proof -
  obtain r c s where c: "connect_sync env shost ep port test_password
      (test_client ep0 (\<lambda>h. h = onTextMessage), test_server) = Inr (r, c, s)" "r = Some SUCCESS"
      "logged_in env ep c s" "hooks c = (\<lambda>h. h = onTextMessage)"
    by (rule connect_sync_result [of env shost ep port test_password ep0 "\<lambda>h. h = onTextMessage"]) simp
  obtain payload where payload: "SerializeTextMessage shost \<lparr>text_sourceId = 12345, text_destinationId = 268999,
       text_isGroup = False, text_text = utf8_text server_text\<rparr> = Inr payload" "length payload \<le> 1006"
      "DeserializeTextMessage (host_order env) payload = Inr (Some \<lparr>text_sourceId = 12345,
         text_destinationId = 268999, text_isGroup = False, text_text = utf8_text server_text\<rparr>)"
    by (rule text_fits [OF texts_ok(3,4), of "\<lparr>text_sourceId = 12345, text_destinationId = 268999,
         text_isGroup = False, text_text = utf8_text server_text\<rparr>" shost]) simp_all
  obtain c' where "run env [Received None (last (sentPackets (SendPacket shost MESSAGE_TEXT 0 payload s))) ep] c = Inr c'"
    "texts_received (actions c') = texts_received (actions c) @ [\<lparr>sourceId = 12345,
      destinationId = 268999, isGroup = False, message_text = utf8_text server_text\<rparr>]"
    using text_arrives [OF c(3) _ payload(2,3), of shost] c(4) by auto
  then show ?thesis
    using c(1,2) payload(1) by (simp add: ServerToClientTextMessage_def Let_def del: run_simps)
qed

text \<open>A connected client has called \<open>onConnected\<close>.\<close>

lemma connected_told:
  "reachable env c \<Longrightarrow> hooks c onConnected \<Longrightarrow> c_state c = CONNECTED \<Longrightarrow> True \<in> set (told c)"
proof (induction rule: reachable.induct)
  case (event c e c')
  then have "hooks c onConnected" using hooks_exec by metis
  with event show ?case by (cases "c_state c = CONNECTED") (auto simp: told_exec [OF event.hyps(2)] change_def)
qed (simp add: new_client_def)

lemma announced: "True \<in> set (announcements as) \<longleftrightarrow>
    list_ex (\<lambda>a. case a of Called OnConnected _ _ \<Rightarrow> True | _ \<Rightarrow> False) as"
proof (induction as rule: announcements.induct)
  case (2 cb b b1 rest)
  then show ?case by (cases cb) simp_all
qed simp_all

lemma async_login:
  "passes (HandshakeSuccessAsync quick env shost ep0 ep port) \<longleftrightarrow> \<not> quick"
proof -
  let ?hks = "\<lambda>h. h = onConnected"
  obtain c0 where c0: "Connect (\<lambda>_. None) loopback port test_password 1000 (test_client ep0 ?hks) = Inr (SUCCESS, c0)"
    unfolding test_client_def by (rule new_client_connects)
  obtain c s where c: "login_or_timeout env shost ep (c0, test_server) = Inr (c, s)" "hooks c = ?hks"
    "logged_in env ep c s"
    by (rule login_result [OF c0, of env shost ep]) simp
  have "c_state c0 = CONNECTING" using c0 by (auto simp: Connect_def test_client_def new_client_def)
  moreover have "c_state c = CONNECTED" using c(3) by (simp add: logged_in_def at_server_def)
  moreover have "list_ex (\<lambda>a. case a of Called OnConnected _ _ \<Rightarrow> True | _ \<Rightarrow> False) (actions c)"
    using connected_told [of env c] c(2,3) calculation by (simp add: announced [symmetric] told_def logged_in_def)
  ultimately show ?thesis using c0 c(1) by (simp add: HandshakeSuccessAsync_def IsConnected_def)
qed

lemma failure_tests:
  assumes "\<forall>n p ep. send_to env n p ep = None"
  shows "passes (HandshakeTimeoutAsync env ep0 ep)" "passes (DnsResolutionFailureAsync env e ep0)"
proof -
  have sent: "errors_reported (actions (TransmitRaw env t f p c)) = errors_reported (actions c)" for t f p c
    using assms by (cases "socket_open c") (simp_all add: TransmitRaw_open TransmitRaw_closed send_result_def)
  show "passes (HandshakeTimeoutAsync env ep0 ep)" "passes (DnsResolutionFailureAsync env e ep0)"
    by (simp_all add: sent HandshakeTimeoutAsync_def DnsResolutionFailureAsync_def test_client_def new_client_def
      Connect_def on_resolve_def on_connect_timeout_def aborted_def StartReceiveLoop_def SendKeepAlive_def
      resolve_failed_def Let_def IsConnected_def called_def Disconnect_def StopKeepAliveTimer_def)
qed

section \<open>Properties\<close>

text \<open>C39. The repository's test cases pass on the model, with every byte order of the hosts, every
  port, and on a network that delivers everything: the two digests, the formats, the login with
  the right and the wrong password, the traffic of a call and a text to the server, a text from
  the server, the timeout and the failed resolution. One does not always: the test of the
  asynchronous login expects the client to be unconnected right after \<open>Connect\<close> and passes
  exactly if the background thread has not finished the login by then.\<close>

theorem Tests_pass:
  assumes "\<forall>n p ep. send_to env n p ep = None"
  shows "passes Sha256TestVectors \<and> passes (HeaderRoundTrip host) \<and> passes (HeaderFailures host) \<and>
    passes (VersionDataRoundTrip host) \<and> passes (SubscriptionDataRoundTrip host) \<and>
    passes (TextMessageRoundTrip host) \<and> passes (LocationReportRoundTrip host) \<and>
    passes (HandshakeSuccess env shost ep0 ep port) \<and> passes (HandshakeInvalidPassword env shost ep0 ep port) \<and>
    passes (MessageAndVoiceTraffic env shost ep0 ep port) \<and>
    passes (ServerToClientTextMessage env shost ep0 ep port) \<and>
    passes (HandshakeTimeoutAsync env ep0 ep) \<and> passes (DnsResolutionFailureAsync env e ep0) \<and>
    (passes (HandshakeSuccessAsync quick env shost ep0 ep port) \<longleftrightarrow> \<not> quick)"
  by (simp add: digest_test header_tests data_tests text_test login_tests traffic_test server_text_test
      failure_tests [OF assms] async_login)

theorem Tests_pass_witness:
  "passes (HandshakeInvalidPassword calm Big 0 7 54006) \<and>
   \<not> passes (HandshakeSuccessAsync True calm Big 0 7 54006)"
  using Tests_pass [of calm] by (simp add: calm_def)

end
