(* ===== verification/Spec2Isabelle.thy ===== *)
theory Spec2Isabelle
  imports Client_Promises Client_Connects Client_Calls Client_Resolve Test_Network
begin

text \<open>
  A verification development of libOpenDTP, a C++20 client library for the Open DMR Terminal
  Protocol: it logs a DMR terminal in at a server over UDP, subscribes it to talkgroups, and
  exchanges voice, text messages and positions with it.

  THE PROGRAM. \<open>include/opendtp/Common.hpp\<close> holds the protocol's constants, \<open>Types.hpp\<close> the data
  handed to the application. \<open>Protocol.hpp\<close> and \<open>src/Protocol.cpp\<close> convert packets from and to
  bytes, \<open>src/Sha256.cpp\<close> computes the digest of the login. \<open>Client.hpp\<close> and \<open>src/Client.cpp\<close> are
  the engine: the application calls it from its own thread, an Asio \<open>io_context\<close> runs the
  completion handlers (resolution, datagrams, timers) on a second one, and both work on the same
  members. \<open>examples/\<close> has two programs on top, \<open>tests/\<close> a mock server
  and the test cases.

  THE THEORIES, in the order they build on each other:

  \<^item> \<open>Cxx\<close>: integers as words, \<open>bytes\<close>, the outcome type \<open>'a cxx\<close> of code that the language may
    stop (\<open>UB\<close>, \<open>Terminate\<close>), checked array access, arrays with indeterminate cells, the counted
    loop and its rules. \<open>Codec\<close>: the contracts of wire formats (\<open>codec\<close>, \<open>prefix_codec\<close>,
    \<open>framing\<close>). \<open>Machine\<close>: the contracts of event-driven programs (\<open>machine\<close>, \<open>safe_machine\<close>).
  \<^item> \<open>Common\<close> and \<open>Types\<close>: the headers of the same names. A message type is a 16-bit word with
    named values, since the code casts any received integer to the enumeration.
  \<^item> \<open>Endian\<close>: \<open>ByteSwap\<close>, \<open>HostToLittle\<close> and the buffer helpers, on a host of either byte order.
    Results: a swap reverses the bytes, and what is written is little-endian on every host.
  \<^item> \<open>Unicode\<close>: the two text converters as index loops. Results: they return on every input
    without reading outside it, compute the standard encodings, and lose no UTF-16 text.
  \<^item> \<open>Protocol\<close>: the structures and their serializers and deserializers; it interprets the
    contracts of \<open>Codec\<close>. Results: exactness, round trips, rejection, the wrap of the 16-bit
    byte counts.
  \<^item> \<open>Sha256\<close>, \<open>Sha256_Spec\<close>, \<open>Sha256_Correct\<close>, \<open>Sha256_Vectors\<close>: the code on its arrays, FIPS
    180-4, the proof that they agree on every message, and the digests the tests expect.
  \<^item> \<open>Client\<close>: the members as the record \<open>client\<close>, one definition per member function and
    completion handler. \<open>Client_Wire\<close>: frame lemmas, the datagrams sent, the packet format as an
    instance of \<open>framing\<close>, totality of the packet switch. \<open>Client_Steps\<close>: events, \<open>exec\<close>,
    \<open>run\<close>, \<open>reachable\<close>, the session automaton \<open>advances\<close> and the proof that the code implements
    it, the only way to stop the program. \<open>Client_Invariant\<close>: what holds between events, as an
    instance of \<open>safe_machine\<close>. \<open>Client_Session\<close>: the handshake behind a connection, wake-ups of
    \<open>ConnectSync\<close>, hooks and mutexes. \<open>Client_Promises\<close> and \<open>Client_Traffic\<close>: the properties of
    the session and of the traffic. \<open>Client_Output\<close>: the ten types of packets a client may send
    and the calls of \<open>onConnected\<close> and \<open>onDisconnected\<close>, over the contract \<open>transmitter\<close> of what
    every event keeps.
  \<^item> \<open>Threads\<close>: tasks that share a state step by step, schedules, and the contract of a mutex
    (\<open>critical\<close>): jobs done under it run as if one after the other. \<open>Client_Threads\<close>: \<open>Connect\<close>,
    sends, disconnect, the handlers of challenge, accepting keep-alive and timeout, and \<open>ConnectSync\<close> as
    tasks whose steps are the single accesses of the source; alone they do what their functions in
    \<open>Client\<close> do, and the sends are an instance of \<open>critical\<close>. \<open>Client_Races\<close>: the threads against
    each other, the wake-up that is not lost, and the interleavings that go wrong.
    \<open>Client_Connects\<close>: calls of \<open>Connect\<close> by several threads, a second instance of \<open>critical\<close>, and
    one beside a \<open>Disconnect\<close>. \<open>Client_Calls\<close>: the operations of a call as tasks, and what two
    threads in one call can do to it. \<open>Client_Resolve\<close>: the handler of the resolution as a task,
    and a disconnect that overtakes it.
  \<^item> \<open>Handshake\<close>: the mock server of \<open>tests/test_client.cpp\<close> and the login between it and the
    client. \<open>Server\<close>: what that server makes of everything any client may send. \<open>Audio_Tools\<close>: \<open>examples/play_audio.cpp\<close> and \<open>examples/record_audio.cpp\<close>, and what
    one records of the other. \<open>Sessions\<close>: every datagram of a whole session of the player.
  \<^item> \<open>Test_Cases\<close> and \<open>Test_Network\<close>: the test cases of \<open>tests/\<close> as functions, and that they
    pass: the formats by the contracts of \<open>Codec\<close>, the logins with the digests that
    \<open>Sha256_Vectors\<close> and \<open>Sha256_Digests\<close> evaluate, the traffic by what \<open>Server\<close> shows.

  HOW STATE AND EFFECTS CORRESPOND. A member \<open>x_\<close> of the class is the field \<open>c_x\<close>. A call of Asio,
  of the thread or of a hook is appended to \<open>actions\<close>; its answer (an error code, the resolved
  endpoints, a datagram and its sender) is an argument of the definition that handles it, and
  the result of \<open>send_to\<close> is a function in the environment. Hence every theorem holds for all
  behaviours of the network and of the operating system. A mutex is a flag that is set while the
  code holds it; a hook call records the flags. \<open>std::string\<close> is its bytes, \<open>std::optional\<close> is
  \<open>option\<close>, \<open>size_t\<close> is \<open>nat\<close> (no buffer comes near \<open>2 ^ 64\<close>), every other integer is a word of
  its width. An endpoint is only compared, so its type is a variable.

  BOUNDS. There is no fuel: loops are structural, or terminate by the distance to the end of
  their input; the loop of \<open>ConnectSync\<close> is corecursive, since it may not end. Sizes that
  appear in hypotheses are the code's: 1024 bytes of \<open>receiveBuffer_\<close>, 65535 bytes of payload
  (the length field), 32767 UTF-16 units (the byte count of a text).

  NOT MODELLED. Asio, the C++ runtime, console output, the Windows-only \<open>WSAIoctl\<close> block, the
  build files, and of the tests their sleeping and polling. In \<open>Client\<close> and the theories on its runs, handlers and
  member functions are atomic; the interleavings inside them are the subject of \<open>Client_Threads\<close>,
  \<open>Client_Races\<close>, \<open>Client_Connects\<close>, \<open>Client_Calls\<close> and \<open>Client_Resolve\<close>, for the operations named there and with
  sequentially consistent accesses. What the language makes of a data race (\<open>StartVoiceCall\<close>
  resets \<open>realTimeSeq_\<close> without a lock) is left out, as are exceptions other than those of the
  connection's start, and Asio's order of completions: a run is any list of events, which
  includes every order Asio may produce.
\<close>

end
